theory Spec2Isabelle
  imports
    Main
    "HOL-Library.Word"
    "HOL-Library.Char_ord"
    "HOL-Library.List_Lexorder"
begin

unbundle bit_operations_syntax

section \<open>JavaScript values and strings\<close>

text \<open>
  A JavaScript string is modelled as a \<^typ>\<open>string\<close>: one \<^typ>\<open>char\<close> per code unit, so the
  model covers strings whose code units are below 256. \<open>JNum n\<close> is the number whose
  value is the integer \<open>n\<close>, so \<open>n\<close> is an integer that a double holds exactly (the code
  under study only counts and compares numbers). A JavaScript object is an association
  list in property-enumeration order; its keys are distinct.
\<close>

datatype jsval =
    JUndefined
  | JNull
  | JBool bool
  | JNum int
  | JStr string
  | JArr "jsval list"
  | JObj "(string \<times> jsval) list"

text \<open>\<open>Array.prototype.join\<close>.\<close>

fun join :: "string \<Rightarrow> string list \<Rightarrow> string" where
  "join sep [] = []"
| "join sep [x] = x"
| "join sep (x # y # ys) = x @ sep @ join sep (y # ys)"

text \<open>\<open>String.prototype.startsWith\<close> and \<open>String.prototype.includes\<close>.\<close>

fun startsWith :: "string \<Rightarrow> string \<Rightarrow> bool" where
  "startsWith s [] = True"
| "startsWith [] (p # ps) = False"
| "startsWith (c # cs) (p # ps) = (c = p \<and> startsWith cs ps)"

fun str_includes :: "string \<Rightarrow> string \<Rightarrow> bool" where
  "str_includes [] needle = (needle = [])"
| "str_includes (c # cs) needle = (startsWith (c # cs) needle \<or> str_includes cs needle)"

text \<open>\<open>String.prototype.split\<close> on a one-character separator.\<close>

fun split_on :: "char \<Rightarrow> string \<Rightarrow> string list" where
  "split_on d [] = [[]]"
| "split_on d (c # cs) =
     (if c = d then [] # split_on d cs
      else (case split_on d cs of
              [] \<Rightarrow> [[c]]
            | p # ps \<Rightarrow> (c # p) # ps))"

text \<open>
  \<open>toLowerCase\<close> and \<open>toUpperCase\<close> on code units below 256: the ASCII letters and the
  letters of the Latin-1 block (\<open>U+00C0\<close> to \<open>U+00DE\<close> and \<open>U+00E0\<close> to \<open>U+00FE\<close>, without
  the signs \<open>U+00D7\<close> and \<open>U+00F7\<close>). The upper-case form of \<open>U+00DF\<close> is \<open>SS\<close>. Those of
  \<open>U+00B5\<close> and \<open>U+00FF\<close> lie above 255, outside the strings of the model, which leaves
  the two unchanged; the code applies \<open>toUpperCase\<close> to role names only.
\<close>

definition upper_letters :: string where
  "upper_letters =
     ''ABCDEFGHIJKLMNOPQRSTUVWXYZ'' @
     [CHR 0xC0, CHR 0xC1, CHR 0xC2, CHR 0xC3, CHR 0xC4, CHR 0xC5, CHR 0xC6, CHR 0xC7,
      CHR 0xC8, CHR 0xC9, CHR 0xCA, CHR 0xCB, CHR 0xCC, CHR 0xCD, CHR 0xCE, CHR 0xCF,
      CHR 0xD0, CHR 0xD1, CHR 0xD2, CHR 0xD3, CHR 0xD4, CHR 0xD5, CHR 0xD6,
      CHR 0xD8, CHR 0xD9, CHR 0xDA, CHR 0xDB, CHR 0xDC, CHR 0xDD, CHR 0xDE]"

definition lower_letters :: string where
  "lower_letters =
     ''abcdefghijklmnopqrstuvwxyz'' @
     [CHR 0xE0, CHR 0xE1, CHR 0xE2, CHR 0xE3, CHR 0xE4, CHR 0xE5, CHR 0xE6, CHR 0xE7,
      CHR 0xE8, CHR 0xE9, CHR 0xEA, CHR 0xEB, CHR 0xEC, CHR 0xED, CHR 0xEE, CHR 0xEF,
      CHR 0xF0, CHR 0xF1, CHR 0xF2, CHR 0xF3, CHR 0xF4, CHR 0xF5, CHR 0xF6,
      CHR 0xF8, CHR 0xF9, CHR 0xFA, CHR 0xFB, CHR 0xFC, CHR 0xFD, CHR 0xFE]"

definition lower_char :: "char \<Rightarrow> char" where
  "lower_char c = (case map_of (zip upper_letters lower_letters) c of Some l \<Rightarrow> l | None \<Rightarrow> c)"

definition upper_char :: "char \<Rightarrow> string" where
  "upper_char c =
     (if c = CHR 0xDF then ''SS''
      else (case map_of (zip lower_letters upper_letters) c of Some u \<Rightarrow> [u] | None \<Rightarrow> [c]))"

definition toLowerCase :: "string \<Rightarrow> string" where
  "toLowerCase s = map lower_char s"

definition toUpperCase :: "string \<Rightarrow> string" where
  "toUpperCase s = concat (map upper_char s)"

text \<open>Digits: \<open>Number.prototype.toString(radix)\<close> for a natural number below \<open>2^53\<close>.\<close>

definition digit_char :: "nat \<Rightarrow> char" where
  "digit_char d = ''0123456789abcdefghijklmnopqrstuvwxyz'' ! d"

fun to_radix :: "nat \<Rightarrow> nat \<Rightarrow> string" where
  "to_radix b n =
     (if b < 2 \<or> n < b then [digit_char n]
      else to_radix b (n div b) @ [digit_char (n mod b)])"

text \<open>
  \<open>Number::toString\<close> for a number with an integer value. \<open>to_double\<close> is the double
  nearest to a natural number, ties going to the even significand; it leaves a number
  that a double holds as it is. The digits written are those of the shortest decimal
  that reads back as the number, \<open>s\<close> times a power of ten with \<open>s\<close> of as few digits as
  possible, the nearest to the number when two are as short. Below \<open>2^53\<close> that is the
  number itself. With up to 21 digits the decimal is written out, zeros included; with
  more, in exponent form: \<open>1e+21\<close>, \<open>1.2345678901234568e+21\<close>.
\<close>

fun bit_length :: "nat \<Rightarrow> nat" where
  "bit_length n = (if n = 0 then 0 else Suc (bit_length (n div 2)))"

definition to_double :: "nat \<Rightarrow> nat" where
  "to_double a =
     (if a < 9007199254740992 then a
      else (let e = bit_length a - 53;
                q = a div 2 ^ e;
                r = a mod 2 ^ e;
                half = 2 ^ (e - 1)
            in (if half < r \<or> (r = half \<and> odd q) then q + 1 else q) * 2 ^ e))"

fun shortest_decimal :: "nat \<Rightarrow> nat \<Rightarrow> nat" where
  "shortest_decimal v 0 = v"
| "shortest_decimal v (Suc p) =
     (let unit = 10 ^ Suc p;
          lo = (v div unit) * unit;
          hi = lo + unit;
          lo_ok = (lo \<noteq> 0 \<and> to_double lo = v);
          hi_ok = (to_double hi = v)
      in if lo_ok \<and> hi_ok then
           (if v - lo < hi - v then lo
            else if hi - v < v - lo then hi
            else if even (lo div unit) then lo else hi)
         else if lo_ok then lo
         else if hi_ok then hi
         else shortest_decimal v p)"

definition exponent_form :: "string \<Rightarrow> string" where
  "exponent_form ds =
     (let s = rev (dropWhile (\<lambda>c. c = CHR ''0'') (rev ds))
      in (case s of
            [] \<Rightarrow> ds
          | c # cs \<Rightarrow> c # (if cs = [] then [] else CHR ''.'' # cs)
                      @ ''e+'' @ to_radix 10 (length ds - 1)))"

definition number_text :: "nat \<Rightarrow> string" where
  "number_text a =
     (if a < 9007199254740992 then to_radix 10 a
      else (let v = to_double a;
                ds = to_radix 10 (shortest_decimal v (length (to_radix 10 v)))
            in if length ds \<le> 21 then ds else exponent_form ds))"

definition show_int :: "int \<Rightarrow> string" where
  "show_int i = (if i < 0 then CHR ''-'' # number_text (nat (- i)) else number_text (nat i))"

text \<open>\<open>String.prototype.padStart\<close> with a one-character filler.\<close>

definition padStart :: "nat \<Rightarrow> char \<Rightarrow> string \<Rightarrow> string" where
  "padStart n c s = replicate (n - length s) c @ s"

section \<open>Content hash (\<open>SessionManager.calculateContentHash\<close>)\<close>

text \<open>
  The loop keeps \<open>hash\<close> a 32-bit signed integer: \<open>(hash << 5) - hash + char\<close>
  followed by \<open>hash & hash\<close>, which is arithmetic modulo \<open>2^32\<close>.
\<close>

definition hash_step :: "32 word \<Rightarrow> char \<Rightarrow> 32 word" where
  "hash_step hash c = (push_bit 5 hash - hash) + of_nat (of_char c)"

definition calculateContentHash :: "string \<Rightarrow> string" where
  "calculateContentHash content =
     padStart 64 (CHR ''0'') (to_radix 16 (nat \<bar>sint (foldl hash_step 0 content)\<bar>))"

section \<open>\<open>JSON.stringify\<close>\<close>

text \<open>
  \<open>JSON.stringify(value, replacer, space)\<close> as ECMAScript specifies it. \<open>K\<close> is the
  property list of an array replacer (\<open>None\<close> when there is no replacer): it selects,
  in its own order, the properties serialized for every object, nested ones included.
  \<open>gap\<close> is the indentation unit and \<open>indent\<close> the current indentation. A property whose
  value is \<open>undefined\<close> is left out of an object and written \<open>null\<close> in an array.
\<close>

definition hex4 :: "nat \<Rightarrow> string" where
  "hex4 n = padStart 4 (CHR ''0'') (to_radix 16 n)"

definition quote_char :: "char \<Rightarrow> string" where
  "quote_char c =
     (if c = CHR 0x22 then [CHR 0x5C, CHR 0x22]
      else if c = CHR 0x5C then [CHR 0x5C, CHR 0x5C]
      else if c = CHR 0x08 then [CHR 0x5C, CHR ''b'']
      else if c = CHR 0x0C then [CHR 0x5C, CHR ''f'']
      else if c = CHR 0x0A then [CHR 0x5C, CHR ''n'']
      else if c = CHR 0x0D then [CHR 0x5C, CHR ''r'']
      else if c = CHR 0x09 then [CHR 0x5C, CHR ''t'']
      else if (of_char c :: nat) < 32 then [CHR 0x5C, CHR ''u''] @ hex4 (of_char c)
      else [c])"

definition quote :: "string \<Rightarrow> string" where
  "quote s = [CHR 0x22] @ concat (map quote_char s) @ [CHR 0x22]"

definition property_list ::
  "string list option \<Rightarrow> (string \<times> jsval) list \<Rightarrow> (string \<times> jsval) list" where
  "property_list K kvs =
     (case K of
        None \<Rightarrow> kvs
      | Some ks \<Rightarrow> concat (map (\<lambda>k. case map_of kvs k of None \<Rightarrow> [] | Some v \<Rightarrow> [(k, v)]) ks))"

lemma property_list_subset: "(k, v) \<in> set (property_list K kvs) \<Longrightarrow> (k, v) \<in> set kvs"
  by (auto simp: property_list_def split: option.splits) (metis map_of_SomeD)

function (sequential) serialize ::
  "string list option \<Rightarrow> string \<Rightarrow> string \<Rightarrow> jsval \<Rightarrow> string" where
  "serialize K gap indent JUndefined = []"
| "serialize K gap indent JNull = ''null''"
| "serialize K gap indent (JBool b) = (if b then ''true'' else ''false'')"
| "serialize K gap indent (JNum n) = show_int n"
| "serialize K gap indent (JStr s) = quote s"
| "serialize K gap indent (JArr xs) =
     (let inner = indent @ gap;
          partial = map (\<lambda>x. if x = JUndefined then ''null'' else serialize K gap inner x) xs
      in if partial = [] then ''[]''
         else if gap = [] then ''['' @ join '','' partial @ '']''
         else ''['' @ [CHR 0x0A] @ inner @ join ('','' @ [CHR 0x0A] @ inner) partial
              @ [CHR 0x0A] @ indent @ '']'')"
| "serialize K gap indent (JObj kvs) =
     (let inner = indent @ gap;
          partial = map (\<lambda>(k, v). quote k @ '':'' @ (if gap = [] then [] else '' '')
                                   @ serialize K gap inner v)
                        (filter (\<lambda>(k, v). v \<noteq> JUndefined) (property_list K kvs))
      in if partial = [] then ''{}''
         else if gap = [] then ''{'' @ join '','' partial @ ''}''
         else ''{'' @ [CHR 0x0A] @ inner @ join ('','' @ [CHR 0x0A] @ inner) partial
              @ [CHR 0x0A] @ indent @ ''}'')"
  by pat_completeness auto
termination
  apply (relation "measure (\<lambda>(K, gap, indent, v). size v)")
    apply simp
  subgoal for K gap indent xs inner x
    using size_list_estimation' [of x xs "size x" size] by simp
  subgoal for K gap indent kvs inner kv k v
    using size_list_estimation' [of "(k, v)" kvs "size v" "size_prod (\<lambda>_. 0) size"]
      property_list_subset [of k v K kvs]
    by auto
  done

text \<open>\<open>JSON.stringify(obj)\<close>, \<open>JSON.stringify(obj, keys)\<close> and \<open>JSON.stringify(obj, null, 2)\<close>.\<close>

definition JSON_stringify :: "jsval \<Rightarrow> string" where
  "JSON_stringify v = serialize None [] [] v"

definition JSON_stringify_keys :: "string list \<Rightarrow> jsval \<Rightarrow> string" where
  "JSON_stringify_keys ks v = serialize (Some (remdups ks)) [] [] v"

definition JSON_stringify_pretty :: "jsval \<Rightarrow> string" where
  "JSON_stringify_pretty v = serialize None ''  '' [] v"

section \<open>Context fingerprint (\<open>ProjectManager.calculateContextHash\<close>)\<close>

text \<open>
  \<open>JSON.stringify(tech_stack, Object.keys(tech_stack).sort())\<close> hashed with SHA-256. The
  digest is the \<open>crypto\<close> library's; the model takes it as the parameter \<open>digest\<close>.
  \<open>Array.prototype.sort\<close> without a comparator orders strings by code units.
\<close>

definition calculateContextHash :: "(string \<Rightarrow> string) \<Rightarrow> (string \<times> jsval) list \<Rightarrow> string" where
  "calculateContextHash digest facts =
     digest (JSON_stringify_keys (sort (map fst facts)) (JObj facts))"

section \<open>JavaScript objects, sets and truthiness\<close>

text \<open>Property assignment \<open>obj[k] = v\<close>: an existing key keeps its place, a new one goes last.\<close>

fun obj_set :: "string \<Rightarrow> jsval \<Rightarrow> (string \<times> jsval) list \<Rightarrow> (string \<times> jsval) list" where
  "obj_set k v [] = [(k, v)]"
| "obj_set k v ((k', v') # kvs) = (if k' = k then (k, v) # kvs else (k', v') # obj_set k v kvs)"

text \<open>
  Property read \<open>v.k\<close> for the property names the code uses. On an object it is the own
  property or \<open>undefined\<close>; on a number, a boolean, a string or an array none of these
  names is defined. Reading a property of \<open>null\<close> or \<open>undefined\<close> raises a TypeError,
  which the callers below handle where the source can reach it; the optional chain
  \<open>v?.k\<close> gives \<open>undefined\<close> there, which is what this function returns.
\<close>

fun js_get :: "jsval \<Rightarrow> string \<Rightarrow> jsval" where
  "js_get (JObj kvs) k = (case map_of kvs k of None \<Rightarrow> JUndefined | Some v \<Rightarrow> v)"
| "js_get v k = JUndefined"

fun truthy :: "jsval \<Rightarrow> bool" where
  "truthy JUndefined = False"
| "truthy JNull = False"
| "truthy (JBool b) = b"
| "truthy (JNum n) = (n \<noteq> 0)"
| "truthy (JStr s) = (s \<noteq> [])"
| "truthy (JArr xs) = True"
| "truthy (JObj kvs) = True"

text \<open>\<open>Object.keys\<close> of a value that is not \<open>null\<close> or \<open>undefined\<close>.\<close>

fun Object_keys :: "jsval \<Rightarrow> string list" where
  "Object_keys (JObj kvs) = map fst kvs"
| "Object_keys (JArr xs) = map (\<lambda>i. to_radix 10 i) [0..<length xs]"
| "Object_keys (JStr s) = map (\<lambda>i. to_radix 10 i) [0..<length s]"
| "Object_keys v = []"

text \<open>\<open>Set.prototype.add\<close> on a set kept in insertion order.\<close>

definition set_add :: "string \<Rightarrow> string list \<Rightarrow> string list" where
  "set_add x xs = (if x \<in> set xs then xs else xs @ [x])"

text \<open>The characters \<open>String.prototype.trim\<close> strips, among the code units below 256.\<close>

definition js_whitespace :: "char \<Rightarrow> bool" where
  "js_whitespace c = (c \<in> set [CHR 0x09, CHR 0x0A, CHR 0x0B, CHR 0x0C, CHR 0x0D, CHR 0x20, CHR 0xA0])"

definition js_trim :: "string \<Rightarrow> string" where
  "js_trim s = rev (dropWhile js_whitespace (rev (dropWhile js_whitespace s)))"

definition dq :: char where
  "dq = CHR 0x22"

definition sq :: char where
  "sq = CHR 0x27"

section \<open>Tech stack detection (\<open>ProjectManager.detectTechStack\<close>)\<close>

text \<open>
  An input file is a pair of its path and its content. \<open>JSON.parse\<close> is the language's;
  the model takes it as the parameter \<open>parse\<close>, with \<open>None\<close> for a SyntaxError.
\<close>

type_synonym src_file = "string \<times> string"

record tech_info =
  tech_stack :: "(string \<times> jsval) list"
  project_type :: string
  programming_languages :: "string list"
  build_system :: "string option"
  test_framework :: "string option"

text \<open>\<open>path.split('.').pop()?.toLowerCase()\<close>: \<open>split\<close> never returns an empty array.\<close>

definition file_ext :: "string \<Rightarrow> string" where
  "file_ext p = toLowerCase (last (split_on (CHR ''.'') p))"

definition stack_set :: "string \<Rightarrow> jsval \<Rightarrow> tech_info \<Rightarrow> tech_info" where
  "stack_set k v t = t\<lparr>tech_stack := obj_set k v (tech_stack t)\<rparr>"

definition add_language :: "string \<Rightarrow> tech_info \<Rightarrow> tech_info" where
  "add_language l t = t\<lparr>programming_languages := set_add l (programming_languages t)\<rparr>"

definition detect_js :: "src_file \<Rightarrow> tech_info \<Rightarrow> tech_info" where
  "detect_js f t =
     (let ext = file_ext (fst f); content = snd f in
      if ext = ''ts'' \<or> ext = ''tsx'' \<or> ext = ''js'' \<or> ext = ''jsx'' then
        (let t1 = add_language (if ext = ''ts'' \<or> ext = ''tsx'' then ''typescript'' else ''javascript'') t;
             t2 = (if str_includes content ''import React''
                      \<or> str_includes content (''from '' @ [dq] @ ''react'' @ [dq])
                      \<or> str_includes content (''from '' @ [sq] @ ''react'' @ [sq])
                   then (stack_set ''react'' (JBool True) t1)\<lparr>project_type := ''web-app''\<rparr> else t1);
             t3 = (if str_includes content ''require(''
                      \<or> str_includes content ''module.exports''
                      \<or> str_includes content ''const express''
                   then stack_set ''nodejs'' (JBool True) t2 else t2);
             t4 = (if str_includes content ''import { createApp }''
                      \<or> str_includes content (''from '' @ [dq] @ ''vue'' @ [dq])
                   then (stack_set ''vue'' (JBool True) t3)\<lparr>project_type := ''web-app''\<rparr> else t3)
         in if str_includes content ''@angular/core'' \<or> str_includes content ''NgModule''
            then (stack_set ''angular'' (JBool True) t4)\<lparr>project_type := ''web-app''\<rparr> else t4)
      else t)"

definition detect_python :: "src_file \<Rightarrow> tech_info \<Rightarrow> tech_info" where
  "detect_python f t =
     (let content = snd f in
      if file_ext (fst f) = ''py'' then
        (let t1 = add_language ''python'' t;
             t2 = (if str_includes content ''import flask'' \<or> str_includes content ''from flask''
                   then (stack_set ''flask'' (JBool True) t1)\<lparr>project_type := ''api-service''\<rparr> else t1);
             t3 = (if str_includes content ''import django'' \<or> str_includes content ''from django''
                   then (stack_set ''django'' (JBool True) t2)\<lparr>project_type := ''web-app''\<rparr> else t2)
         in if str_includes content ''import fastapi'' \<or> str_includes content ''from fastapi''
            then (stack_set ''fastapi'' (JBool True) t3)\<lparr>project_type := ''api-service''\<rparr> else t3)
      else t)"

text \<open>
  The \<open>package.json\<close> block. \<open>packageData.dependencies\<close> raises a TypeError when the parsed
  text is \<open>null\<close>; it is the first statement of the \<open>try\<close>, so nothing has changed when
  the \<open>catch\<close> swallows it, as when the text does not parse.
\<close>

definition keys_or_empty :: "jsval \<Rightarrow> jsval" where
  "keys_or_empty v = JArr (map JStr (Object_keys (if truthy v then v else JObj [])))"

definition detect_build_system :: "jsval \<Rightarrow> tech_info \<Rightarrow> tech_info" where
  "detect_build_system scripts t =
     (if truthy scripts
         \<and> list_ex (\<lambda>s. str_includes s ''npm'' \<or> str_includes s ''yarn'' \<or> str_includes s ''pnpm'')
              (Object_keys scripts)
      then t\<lparr>build_system := Some ''npm''\<rparr> else t)"

definition detect_test_framework :: "jsval \<Rightarrow> tech_info \<Rightarrow> tech_info" where
  "detect_test_framework devDeps t =
     (if truthy devDeps then
        (if truthy (js_get devDeps ''jest'') \<or> truthy (js_get devDeps ''@jest/core'')
           then t\<lparr>test_framework := Some ''jest''\<rparr>
         else if truthy (js_get devDeps ''vitest'') then t\<lparr>test_framework := Some ''vitest''\<rparr>
         else if truthy (js_get devDeps ''mocha'') then t\<lparr>test_framework := Some ''mocha''\<rparr>
         else if truthy (js_get devDeps ''pytest'') then t\<lparr>test_framework := Some ''pytest''\<rparr>
         else t)
      else t)"

definition detect_package_type :: "jsval \<Rightarrow> tech_info \<Rightarrow> tech_info" where
  "detect_package_type deps t =
     (if truthy (js_get deps ''express'') \<or> truthy (js_get deps ''fastify'')
        then t\<lparr>project_type := ''api-service''\<rparr>
      else if truthy (js_get deps ''react'') \<or> truthy (js_get deps ''@types/react'')
        then t\<lparr>project_type := ''web-app''\<rparr>
      else if truthy (js_get deps ''electron'') then t\<lparr>project_type := ''desktop-app''\<rparr>
      else if truthy (js_get deps ''react'') \<or> truthy (js_get deps ''@react-native'')
        then t\<lparr>project_type := ''mobile-app''\<rparr>
      else t)"

definition detect_package_json :: "(string \<Rightarrow> jsval option) \<Rightarrow> src_file \<Rightarrow> tech_info \<Rightarrow> tech_info" where
  "detect_package_json parse f t =
     (if fst f = ''package.json'' then
        (case parse (snd f) of
           None \<Rightarrow> t
         | Some packageData \<Rightarrow>
             if packageData = JNull \<or> packageData = JUndefined then t
             else
               (let deps = js_get packageData ''dependencies'';
                    devDeps = js_get packageData ''devDependencies'';
                    t1 = stack_set ''npm_packages'' (keys_or_empty deps) t;
                    t2 = stack_set ''dev_packages'' (keys_or_empty devDeps) t1;
                    t3 = detect_build_system (js_get packageData ''scripts'') t2;
                    t4 = detect_test_framework devDeps t3
                in detect_package_type deps t4))
      else t)"

text \<open>
  The \<open>tsconfig.json\<close> block: \<open>tech_stack.tsconfig\<close> is assigned before
  \<open>tsConfig.compilerOptions\<close> can raise on \<open>null\<close>, so the assignment stays.
\<close>

definition detect_tsconfig :: "(string \<Rightarrow> jsval option) \<Rightarrow> src_file \<Rightarrow> tech_info \<Rightarrow> tech_info" where
  "detect_tsconfig parse f t =
     (if fst f = ''tsconfig.json'' then
        (case parse (snd f) of
           None \<Rightarrow> t
         | Some tsConfig \<Rightarrow>
             (let t1 = stack_set ''tsconfig'' tsConfig t in
              if tsConfig = JNull \<or> tsConfig = JUndefined then t1
              else
                (let target = js_get (js_get tsConfig ''compilerOptions'') ''target'' in
                 if truthy target then stack_set ''typescript_target'' target t1 else t1)))
      else t)"

definition detect_requirements :: "src_file \<Rightarrow> tech_info \<Rightarrow> tech_info" where
  "detect_requirements f t =
     (if fst f = ''requirements.txt'' then
        (let dependencies = filter (\<lambda>line. js_trim line \<noteq> []) (split_on (CHR 0x0A) (snd f));
             t1 = stack_set ''python_packages'' (JArr (map JStr dependencies)) (add_language ''python'' t)
         in if list_ex (\<lambda>dep. str_includes dep ''django'') dependencies
              then t1\<lparr>project_type := ''web-app''\<rparr>
            else if list_ex (\<lambda>dep. str_includes dep ''flask'' \<or> str_includes dep ''fastapi'') dependencies
              then t1\<lparr>project_type := ''api-service''\<rparr>
            else t1)
      else t)"

definition detect_cargo :: "src_file \<Rightarrow> tech_info \<Rightarrow> tech_info" where
  "detect_cargo f t =
     (if fst f = ''Cargo.toml'' then
        (let cargoContent = toLowerCase (snd f) in
         (add_language ''rust'' t)
           \<lparr>project_type :=
              (if str_includes cargoContent ''axum'' then ''api-service''
               else if str_includes cargoContent ''yew'' then ''web-app''
               else ''cli-tool'')\<rparr>)
      else t)"

definition detect_go :: "src_file \<Rightarrow> tech_info \<Rightarrow> tech_info" where
  "detect_go f t =
     (if fst f = ''go.mod'' then
        (add_language ''go'' t)
          \<lparr>project_type :=
             (if str_includes (snd f) ''github.com/gin-gonic'' then ''api-service'' else ''cli-tool'')\<rparr>
      else t)"

text \<open>The body of the loop over the files, its blocks in the order of the source.\<close>

definition detect_file :: "(string \<Rightarrow> jsval option) \<Rightarrow> tech_info \<Rightarrow> src_file \<Rightarrow> tech_info" where
  "detect_file parse t f =
     detect_go f (detect_cargo f (detect_requirements f (detect_tsconfig parse f
       (detect_package_json parse f (detect_python f (detect_js f t))))))"

definition initial_tech_info :: tech_info where
  "initial_tech_info =
     \<lparr>tech_stack = [], project_type = ''other'', programming_languages = [],
      build_system = None, test_framework = None\<rparr>"

definition default_project_type :: "tech_info \<Rightarrow> tech_info" where
  "default_project_type t =
     (if project_type t = ''other'' then
        (if ''typescript'' \<in> set (programming_languages t) \<or> ''javascript'' \<in> set (programming_languages t)
           then t\<lparr>project_type := ''cli-tool''\<rparr>
         else if ''python'' \<in> set (programming_languages t) then t\<lparr>project_type := ''cli-tool''\<rparr>
         else t)
      else t)"

definition detectTechStack :: "(string \<Rightarrow> jsval option) \<Rightarrow> src_file list \<Rightarrow> tech_info" where
  "detectTechStack parse files = default_project_type (foldl (detect_file parse) initial_tech_info files)"

section \<open>The relational store\<close>

text \<open>
  The tables of \<open>schema.ts\<close> with the columns the managers read and write. A UUID is a
  natural number drawn from a counter (\<open>gen_random_uuid()\<close> never repeats), a timestamp
  an integer number of seconds. A JSONB column holds the value that
  \<open>JSON.parse(JSON.stringify(v))\<close> gives back. Rows are kept in insertion order; a query
  whose \<open>ORDER BY\<close> leaves rows tied returns them in insertion order.
\<close>

type_synonym uuid = nat
type_synonym timestamp = int

datatype role = User | Assistant | System

datatype error =
    AuthError string
  | DbError string
  | TypeError string
  | NotFound string

record session_row =
  s_id :: uuid
  s_user_id :: uuid
  s_name :: string
  s_project_name :: string
  s_version :: int
  s_metadata :: jsval
  s_snapshot_id :: "uuid option"
  s_created_at :: timestamp
  s_updated_at :: timestamp

record file_row =
  f_id :: uuid
  f_session_id :: uuid
  f_path :: string
  f_content :: string
  f_content_hash :: string
  f_line_count :: nat

record conversation_row =
  c_id :: uuid
  c_session_id :: uuid
  c_role :: role
  c_content :: string
  c_message_order :: int
  c_created_at :: timestamp

record context_row =
  pc_id :: uuid
  pc_user_id :: uuid
  pc_project_name :: string
  pc_description :: "jsval option"
  pc_tech_stack :: jsval
  pc_project_type :: "string option"
  pc_programming_languages :: jsval
  pc_build_system :: "string option"
  pc_test_framework :: "string option"
  pc_last_modified_at :: timestamp
  pc_is_active :: bool
  pc_context_hash :: "string option"

record snapshot_row =
  pcs_id :: uuid
  pcs_project_context_id :: uuid
  pcs_snapshot_version :: int
  pcs_file_tree :: jsval
  pcs_key_files :: jsval
  pcs_dependencies :: jsval
  pcs_dev_dependencies :: jsval
  pcs_snapshot_reason :: string
  pcs_created_by :: string

record db =
  users :: "uuid list"
  sessions :: "session_row list"
  files :: "file_row list"
  conversations :: "conversation_row list"
  project_contexts :: "context_row list"
  project_context_snapshots :: "snapshot_row list"
  next_id :: nat

text \<open>
  What a JSONB column stores of a JavaScript value passed through \<open>JSON.stringify\<close>:
  \<open>undefined\<close> is dropped from an object and becomes \<open>null\<close> in an array. The order of
  the keys is not part of a JSONB value (the column gives them back in an order of its
  own, shorter keys first); the model keeps the order written, and what is stated of a
  stored object reads it by key.
\<close>

function (sequential) to_json :: "jsval \<Rightarrow> jsval" where
  "to_json (JArr xs) = JArr (map (\<lambda>x. if x = JUndefined then JNull else to_json x) xs)"
| "to_json (JObj kvs) =
     JObj (map (\<lambda>(k, v). (k, to_json v)) (filter (\<lambda>(k, v). v \<noteq> JUndefined) kvs))"
| "to_json v = v"
  by pat_completeness auto
termination
  apply (relation "measure size")
    apply simp
  subgoal for xs x
    using size_list_estimation' [of x xs "size x" size] by simp
  subgoal for kvs kv k v
    using size_list_estimation' [of "(k, v)" kvs "size v" "size_prod (\<lambda>_. 0) size"] by auto
  done

subsection \<open>Column types and constraints\<close>

text \<open>
  \<open>VARCHAR(n)\<close>: a longer value is an error unless the excess is all spaces, which are cut.
  \<open>length(trim(x)) > 0\<close>: \<open>trim\<close> strips spaces, so some character is not a space.
\<close>

definition pg_varchar :: "nat \<Rightarrow> string \<Rightarrow> string option" where
  "pg_varchar n s =
     (if length s \<le> n then Some s
      else if list_all (\<lambda>c. c = CHR '' '') (drop n s) then Some (take n s)
      else None)"

text \<open>
  PostgreSQL refuses a text value that holds the code unit 0 (an invalid byte sequence,
  error 22021) and a JSONB value that has it in a string or in a key (an unsupported
  escape sequence, error 22P05). An \<open>INTEGER\<close> column holds 32 bits.
\<close>

definition pg_text :: "string \<Rightarrow> bool" where
  "pg_text s = (CHR 0x00 \<notin> set s)"

definition pg_text_opt :: "string option \<Rightarrow> bool" where
  "pg_text_opt v = (case v of None \<Rightarrow> True | Some s \<Rightarrow> pg_text s)"

function (sequential) pg_jsonb :: "jsval \<Rightarrow> bool" where
  "pg_jsonb (JStr s) = pg_text s"
| "pg_jsonb (JArr xs) = list_all pg_jsonb xs"
| "pg_jsonb (JObj kvs) = list_all (\<lambda>(k, v). pg_text k \<and> pg_jsonb v) kvs"
| "pg_jsonb v = True"
  by pat_completeness auto
termination
  apply (relation "measure size")
    apply simp
  subgoal for xs x
    using size_list_estimation' [of x xs "size x" size] by simp
  subgoal for kvs kv k v
    using size_list_estimation' [of "(k, v)" kvs "size v" "size_prod (\<lambda>_. 0) size"] by auto
  done

definition pg_integer :: "int \<Rightarrow> bool" where
  "pg_integer i = (- 2147483648 \<le> i \<and> i \<le> 2147483647)"

definition invalid_text :: error where
  "invalid_text = DbError ''invalid byte sequence for encoding UTF8: 0x00''"

definition invalid_jsonb :: error where
  "invalid_jsonb = DbError ''unsupported Unicode escape sequence''"

definition out_of_range :: error where
  "out_of_range = DbError ''integer out of range''"

definition pg_not_blank :: "string \<Rightarrow> bool" where
  "pg_not_blank s = list_ex (\<lambda>c. c \<noteq> CHR '' '') s"

definition valid_project_types :: "string list" where
  "valid_project_types =
     [''web-app'', ''cli-tool'', ''api-service'', ''library'', ''mobile-app'', ''desktop-app'', ''other'']"

definition valid_snapshot_reasons :: "string list" where
  "valid_snapshot_reasons = [''auto'', ''manual'', ''tech-change'', ''major-update'', ''dependency-change'']"

definition fresh_id :: "db \<Rightarrow> uuid \<times> db" where
  "fresh_id d = (next_id d, d\<lparr>next_id := Suc (next_id d)\<rparr>)"

text \<open>\<open>INSERT INTO project_contexts\<close> and the table's constraints.\<close>

text \<open>The values of a \<open>project_contexts\<close> row as parameters of a statement.\<close>

definition context_text_ok :: "context_row \<Rightarrow> bool" where
  "context_text_ok r =
     (pg_text (pc_project_name r)
      \<and> (case pc_description r of Some (JStr s) \<Rightarrow> pg_text s | _ \<Rightarrow> True)
      \<and> pg_text_opt (pc_project_type r) \<and> pg_text_opt (pc_build_system r)
      \<and> pg_text_opt (pc_test_framework r) \<and> pg_text_opt (pc_context_hash r))"

definition context_jsonb_ok :: "context_row \<Rightarrow> bool" where
  "context_jsonb_ok r = (pg_jsonb (pc_tech_stack r) \<and> pg_jsonb (pc_programming_languages r))"

definition insert_project_context :: "context_row \<Rightarrow> db \<Rightarrow> (error + context_row) \<times> db" where
  "insert_project_context r d =
     (case pg_varchar 100 (pc_project_name r) of
        None \<Rightarrow> (if context_text_ok r
                  then (Inl (DbError ''value too long for type character varying(100)''), d)
                  else (Inl invalid_text, d))
      | Some pname \<Rightarrow>
          if \<not> context_text_ok r then (Inl invalid_text, d)
          else if \<not> context_jsonb_ok r then (Inl invalid_jsonb, d)
          else if \<not> pg_not_blank pname then (Inl (DbError ''project_contexts_project_name_not_empty''), d)
          else if \<not> (case pc_project_type r of None \<Rightarrow> True | Some ty \<Rightarrow> ty \<in> set valid_project_types)
            then (Inl (DbError ''project_contexts_project_type_valid''), d)
          else if \<not> (case pc_context_hash r of None \<Rightarrow> True | Some h \<Rightarrow> length h = 64)
            then (Inl (DbError ''project_contexts_context_hash_valid''), d)
          else if list_ex (\<lambda>c. pc_user_id c = pc_user_id r \<and> pc_project_name c = pname) (project_contexts d)
            then (Inl (DbError ''duplicate key: project_contexts_user_project_unique''), d)
          else if pc_user_id r \<notin> set (users d)
            then (Inl (DbError ''foreign key: project_contexts_user_id_fkey''), d)
          else
            (let (i, d1) = fresh_id d;
                 row = r\<lparr>pc_id := i, pc_project_name := pname\<rparr>
             in (Inr row, d1\<lparr>project_contexts := project_contexts d1 @ [row]\<rparr>)))"

text \<open>\<open>INSERT INTO project_context_snapshots\<close> and the table's constraints.\<close>

definition insert_snapshot :: "snapshot_row \<Rightarrow> db \<Rightarrow> (error + snapshot_row) \<times> db" where
  "insert_snapshot r d =
     (if \<not> (pg_text (pcs_snapshot_reason r) \<and> pg_text (pcs_created_by r))
        then (Inl invalid_text, d)
      else if \<not> (pg_jsonb (pcs_file_tree r) \<and> pg_jsonb (pcs_key_files r)
                 \<and> pg_jsonb (pcs_dependencies r) \<and> pg_jsonb (pcs_dev_dependencies r))
        then (Inl invalid_jsonb, d)
      else if \<not> pg_integer (pcs_snapshot_version r) then (Inl out_of_range, d)
      else if \<not> 0 < pcs_snapshot_version r
        then (Inl (DbError ''project_context_snapshots_version_positive''), d)
      else if pcs_snapshot_reason r \<notin> set valid_snapshot_reasons
        then (Inl (DbError ''project_context_snapshots_reason_valid''), d)
      else if list_ex (\<lambda>s. pcs_project_context_id s = pcs_project_context_id r
                              \<and> pcs_snapshot_version s = pcs_snapshot_version r)
                (project_context_snapshots d)
        then (Inl (DbError ''duplicate key: project_context_snapshots_context_version_unique''), d)
      else if \<not> list_ex (\<lambda>c. pc_id c = pcs_project_context_id r) (project_contexts d)
        then (Inl (DbError ''foreign key: project_context_snapshots_project_context_id_fkey''), d)
      else
        (let (i, d1) = fresh_id d;
             row = r\<lparr>pcs_id := i\<rparr>
         in (Inr row, d1\<lparr>project_context_snapshots := project_context_snapshots d1 @ [row]\<rparr>)))"

text \<open>\<open>COALESCE(MAX(snapshot_version), 0)\<close> over the snapshots of one context.\<close>

definition max_snapshot_version :: "db \<Rightarrow> uuid \<Rightarrow> int" where
  "max_snapshot_version d ctx =
     foldl max 0 (map pcs_snapshot_version
       (filter (\<lambda>s. pcs_project_context_id s = ctx) (project_context_snapshots d)))"

text \<open>
  The trigger \<open>create_snapshot_on_new_session\<close> (\<open>detect_tech_stack_changes\<close>), run
  before each insert into \<open>sessions\<close>: it gives the new row's \<open>snapshot_id\<close>, having
  created a context and a first snapshot where there was none.
\<close>

definition empty_context :: "uuid \<Rightarrow> string \<Rightarrow> timestamp \<Rightarrow> context_row" where
  "empty_context u pname now =
     \<lparr>pc_id = 0, pc_user_id = u, pc_project_name = pname,
      pc_description = Some (JStr ''Auto-detected project context''),
      pc_tech_stack = JObj [], pc_project_type = None, pc_programming_languages = JArr [],
      pc_build_system = None, pc_test_framework = None, pc_last_modified_at = now,
      pc_is_active = True, pc_context_hash = None\<rparr>"

definition trigger_context :: "timestamp \<Rightarrow> session_row \<Rightarrow> db \<Rightarrow> (error + uuid \<times> bool) \<times> db" where
  "trigger_context now new d =
     (case filter (\<lambda>c. pc_user_id c = s_user_id new \<and> pc_project_name c = s_project_name new
                        \<and> pc_is_active c) (project_contexts d) of
        c # _ \<Rightarrow> (Inr (pc_id c, False), d)
      | [] \<Rightarrow>
          (case insert_project_context (empty_context (s_user_id new) (s_project_name new) now) d of
             (Inl e, d1) \<Rightarrow> (Inl e, d1)
           | (Inr c, d1) \<Rightarrow> (Inr (pc_id c, True), d1)))"

definition bootstrap_snapshot :: "uuid \<Rightarrow> int \<Rightarrow> snapshot_row" where
  "bootstrap_snapshot ctx version =
     \<lparr>pcs_id = 0, pcs_project_context_id = ctx, pcs_snapshot_version = version,
      pcs_file_tree = JObj [], pcs_key_files = JArr [], pcs_dependencies = JObj [],
      pcs_dev_dependencies = JObj [], pcs_snapshot_reason = ''auto'', pcs_created_by = ''auto''\<rparr>"

definition detect_tech_stack_changes ::
  "timestamp \<Rightarrow> session_row \<Rightarrow> db \<Rightarrow> (error + session_row) \<times> db" where
  "detect_tech_stack_changes now new d =
     (case trigger_context now new d of
        (Inl e, d1) \<Rightarrow> (Inl e, d1)
      | (Inr (ctx, should_create_snapshot), d1) \<Rightarrow>
          if should_create_snapshot \<or> max_snapshot_version d1 ctx = 0 then
            (case insert_snapshot (bootstrap_snapshot ctx (max_snapshot_version d1 ctx + 1)) d1 of
               (Inl e, d2) \<Rightarrow> (Inl e, d2)
             | (Inr snap, d2) \<Rightarrow> (Inr (new\<lparr>s_snapshot_id := Some (pcs_id snap)\<rparr>), d2))
          else (Inr new, d1))"

text \<open>\<open>INSERT INTO sessions\<close>: the trigger, then the table's constraints.\<close>

definition insert_session :: "timestamp \<Rightarrow> session_row \<Rightarrow> db \<Rightarrow> (error + session_row) \<times> db" where
  "insert_session now r d =
     (if \<not> (pg_text (s_name r) \<and> pg_text (s_project_name r)) then (Inl invalid_text, d)
      else if \<not> pg_jsonb (s_metadata r) then (Inl invalid_jsonb, d)
      else if \<not> pg_integer (s_version r) then (Inl out_of_range, d)
      else case (pg_varchar 100 (s_name r), pg_varchar 100 (s_project_name r)) of
        (Some sname, Some pname) \<Rightarrow>
          (case detect_tech_stack_changes now (r\<lparr>s_name := sname, s_project_name := pname\<rparr>) d of
             (Inl e, d1) \<Rightarrow> (Inl e, d1)
           | (Inr new, d1) \<Rightarrow>
               if \<not> pg_not_blank sname then (Inl (DbError ''sessions_name_not_empty''), d1)
               else if \<not> pg_not_blank pname then (Inl (DbError ''sessions_project_name_not_empty''), d1)
               else if \<not> 0 < s_version new then (Inl (DbError ''sessions_version_positive''), d1)
               else if list_ex (\<lambda>s. s_user_id s = s_user_id new \<and> s_name s = sname
                                      \<and> s_project_name s = pname \<and> s_version s = s_version new)
                         (sessions d1)
                 then (Inl (DbError ''duplicate key: sessions_user_name_project_version_unique''), d1)
               else if s_user_id new \<notin> set (users d1)
                 then (Inl (DbError ''foreign key: sessions_user_id_fkey''), d1)
               else if \<not> (case s_snapshot_id new of
                            None \<Rightarrow> True
                          | Some sn \<Rightarrow> list_ex (\<lambda>s. pcs_id s = sn) (project_context_snapshots d1))
                 then (Inl (DbError ''foreign key: sessions_snapshot_id_fkey''), d1)
               else
                 (let (i, d2) = fresh_id d1;
                      row = new\<lparr>s_id := i\<rparr>
                  in (Inr row, d2\<lparr>sessions := sessions d2 @ [row]\<rparr>)))
      | _ \<Rightarrow> (Inl (DbError ''value too long for type character varying(100)''), d))"

text \<open>\<open>INSERT INTO files\<close> and the table's constraints.\<close>

definition insert_file :: "file_row \<Rightarrow> db \<Rightarrow> (error + file_row) \<times> db" where
  "insert_file r d =
     (if \<not> (pg_text (f_path r) \<and> pg_text (f_content r) \<and> pg_text (f_content_hash r))
        then (Inl invalid_text, d)
      else if \<not> pg_integer (int (f_line_count r)) then (Inl out_of_range, d)
      else case (pg_varchar 500 (f_path r), pg_varchar 64 (f_content_hash r)) of
        (Some p, Some h) \<Rightarrow>
          if \<not> pg_not_blank p then (Inl (DbError ''files_path_not_empty''), d)
          else if length h \<noteq> 64 then (Inl (DbError ''files_content_hash_valid''), d)
          else if list_ex (\<lambda>f. f_session_id f = f_session_id r \<and> f_path f = p) (files d)
            then (Inl (DbError ''duplicate key: files_session_path_unique''), d)
          else if \<not> list_ex (\<lambda>s. s_id s = f_session_id r) (sessions d)
            then (Inl (DbError ''foreign key: files_session_id_fkey''), d)
          else
            (let (i, d1) = fresh_id d;
                 row = r\<lparr>f_id := i, f_path := p, f_content_hash := h\<rparr>
             in (Inr row, d1\<lparr>files := files d1 @ [row]\<rparr>))
      | _ \<Rightarrow> (Inl (DbError ''value too long for type character varying''), d))"

text \<open>
  \<open>INSERT INTO conversations\<close> and the table's constraints. The statement of
  \<open>saveSession\<close> names no \<open>message_order\<close>, so the column takes its default 0, and
  \<open>(session_id, message_order)\<close> is unique.
\<close>

definition insert_conversation :: "conversation_row \<Rightarrow> db \<Rightarrow> (error + conversation_row) \<times> db" where
  "insert_conversation r d =
     (if \<not> pg_text (c_content r) then (Inl invalid_text, d)
      else if \<not> pg_not_blank (c_content r) then (Inl (DbError ''conversations_content_not_empty''), d)
      else if \<not> 0 \<le> c_message_order r then (Inl (DbError ''conversations_message_order_non_negative''), d)
      else if list_ex (\<lambda>c. c_session_id c = c_session_id r \<and> c_message_order c = c_message_order r)
                (conversations d)
        then (Inl (DbError ''duplicate key: conversations_session_order_unique''), d)
      else if \<not> list_ex (\<lambda>s. s_id s = c_session_id r) (sessions d)
        then (Inl (DbError ''foreign key: conversations_session_id_fkey''), d)
      else
        (let (i, d1) = fresh_id d;
             row = r\<lparr>c_id := i\<rparr>
         in (Inr row, d1\<lparr>conversations := conversations d1 @ [row]\<rparr>)))"

subsection \<open>Transactions (\<open>DatabaseConnection.transaction\<close>)\<close>

text \<open>
  \<open>transaction\<close> takes a client from the pool, runs the callback between \<open>BEGIN\<close> and
  \<open>COMMIT\<close>, and issues \<open>ROLLBACK\<close> when the callback raises. Only the statements the
  callback sends through its \<open>client\<close> belong to the transaction; a statement sent
  through \<open>this.db.query\<close> or a nested \<open>this.db.transaction\<close> runs on another
  connection of the pool and is committed by itself. A callback therefore returns its
  result with two stores: the committed store, changed by what ran on other
  connections, and the store as its client sees it (under READ COMMITTED: the committed
  store with the client's own writes). \<open>COMMIT\<close> keeps the second, \<open>ROLLBACK\<close> the first.
\<close>

definition transaction :: "(db \<Rightarrow> (error + 'a) \<times> db \<times> db) \<Rightarrow> db \<Rightarrow> (error + 'a) \<times> db" where
  "transaction callback d =
     (case callback d of
        (Inl e, committed, client_view) \<Rightarrow> (Inl e, committed)
      | (Inr r, committed, client_view) \<Rightarrow> (Inr r, client_view))"

section \<open>Project contexts and snapshots (\<open>ProjectManager\<close>)\<close>

text \<open>The library functions the managers call: \<open>JSON.parse\<close> and the SHA-256 hex digest.\<close>

record lib =
  JSON_parse :: "string \<Rightarrow> jsval option"
  sha256_hex :: "string \<Rightarrow> string"

definition getProjectContext :: "uuid \<Rightarrow> string \<Rightarrow> db \<Rightarrow> context_row option" where
  "getProjectContext userId projectName d =
     (case filter (\<lambda>c. pc_user_id c = userId \<and> pc_project_name c = projectName \<and> pc_is_active c)
             (project_contexts d) of
        [] \<Rightarrow> None
      | c # _ \<Rightarrow> Some c)"

text \<open>
  The \<open>UPDATE project_contexts ... WHERE user_id = $1 AND project_name = $2 RETURNING *\<close>
  of \<open>createOrUpdateProjectContext\<close>: every matching row takes the new facts; the check
  constraints apply to the new values. The result is the first row returned.
\<close>

definition update_project_context :: "context_row \<Rightarrow> db \<Rightarrow> (error + context_row) \<times> db" where
  "update_project_context r d =
     (let hit = (\<lambda>c. pc_user_id c = pc_user_id r \<and> pc_project_name c = pc_project_name r);
          upd = (\<lambda>c. if hit c then r\<lparr>pc_id := pc_id c\<rparr> else c)
      in if \<not> context_text_ok r then (Inl invalid_text, d)
         else if \<not> context_jsonb_ok r then (Inl invalid_jsonb, d)
         else if \<not> (case pc_project_type r of None \<Rightarrow> True | Some ty \<Rightarrow> ty \<in> set valid_project_types)
           then (Inl (DbError ''project_contexts_project_type_valid''), d)
         else if \<not> (case pc_context_hash r of None \<Rightarrow> True | Some h \<Rightarrow> length h = 64)
           then (Inl (DbError ''project_contexts_context_hash_valid''), d)
         else
           (case filter hit (project_contexts d) of
              [] \<Rightarrow> (Inl (TypeError ''result.rows[0] is undefined''), d)
            | c # _ \<Rightarrow> (Inr (upd c), d\<lparr>project_contexts := map upd (project_contexts d)\<rparr>)))"

definition js_or_null :: "jsval \<Rightarrow> jsval option" where
  "js_or_null v = (if truthy v then Some v else None)"

definition str_or_null :: "string option \<Rightarrow> string option" where
  "str_or_null v = (case v of None \<Rightarrow> None | Some s \<Rightarrow> if s = [] then None else Some s)"

definition context_of_facts ::
  "uuid \<Rightarrow> string \<Rightarrow> jsval \<Rightarrow> tech_info \<Rightarrow> string \<Rightarrow> timestamp \<Rightarrow> context_row" where
  "context_of_facts userId projectName description techInfo contextHash now =
     \<lparr>pc_id = 0, pc_user_id = userId, pc_project_name = projectName,
      pc_description = js_or_null description,
      pc_tech_stack = to_json (JObj (tech_stack techInfo)),
      pc_project_type = Some (project_type techInfo),
      pc_programming_languages = JArr (map JStr (programming_languages techInfo)),
      pc_build_system = str_or_null (build_system techInfo),
      pc_test_framework = str_or_null (test_framework techInfo),
      pc_last_modified_at = now, pc_is_active = True, pc_context_hash = Some contextHash\<rparr>"

text \<open>
  \<open>createOrUpdateProjectContext\<close> opens a transaction of its own on \<open>this.db\<close>; all its
  statements go through that transaction's client.
\<close>

definition createOrUpdateProjectContext ::
  "lib \<Rightarrow> timestamp \<Rightarrow> uuid \<Rightarrow> string \<Rightarrow> src_file list \<Rightarrow> jsval \<Rightarrow> db \<Rightarrow> (error + context_row) \<times> db" where
  "createOrUpdateProjectContext L now userId projectName fs description d =
     (let techInfo = detectTechStack (JSON_parse L) fs;
          contextHash = calculateContextHash (sha256_hex L) (tech_stack techInfo);
          row = context_of_facts userId projectName description techInfo contextHash now
      in transaction
           (\<lambda>d0. let existingContext =
                        filter (\<lambda>c. pc_user_id c = userId \<and> pc_project_name c = projectName)
                          (project_contexts d0)
                 in if existingContext \<noteq> []
                    then (case update_project_context row d0 of (r, d1) \<Rightarrow> (r, d0, d1))
                    else (case insert_project_context row d0 of (r, d1) \<Rightarrow> (r, d0, d1)))
           d)"

text \<open>The pieces of a snapshot that \<open>createSnapshot\<close> builds from the files.\<close>

definition or_unknown :: "string \<Rightarrow> string" where
  "or_unknown ext = (if ext = [] then ''unknown'' else ext)"

definition file_tree_of :: "string \<Rightarrow> src_file list \<Rightarrow> (string \<times> jsval) list" where
  "file_tree_of stamp fs =
     foldl (\<lambda>tree f. obj_set (fst f)
                        (JObj [(''size'', JNum (int (length (snd f)))),
                               (''type'', JStr (or_unknown (file_ext (fst f)))),
                               (''last_modified'', JStr stamp)]) tree) [] fs"

definition key_file_names :: "string list" where
  "key_file_names =
     [''package.json'', ''tsconfig.json'', ''requirements.txt'', ''Cargo.toml'', ''go.mod'',
      ''README.md'', ''.gitignore'', ''Dockerfile'', ''docker-compose.yml'']"

definition is_key_file :: "src_file \<Rightarrow> bool" where
  "is_key_file f =
     (fst f \<in> set key_file_names \<or> file_ext (fst f) = ''md''
      \<or> (file_ext (fst f) = ''json'' \<and> str_includes (fst f) ''config''))"

definition key_files_of :: "src_file list \<Rightarrow> jsval list" where
  "key_files_of fs =
     map (\<lambda>f. JObj [(''path'', JStr (fst f)),
                     (''type'', JStr (or_unknown (file_ext (fst f)))),
                     (''content'', JStr (if length (snd f) > 10000 then take 10000 (snd f) @ ''...''
                                        else snd f))])
         (filter is_key_file fs)"

definition or_empty_object :: "jsval \<Rightarrow> jsval" where
  "or_empty_object v = (if truthy v then v else JObj [])"

definition dependencies_of :: "(string \<Rightarrow> jsval option) \<Rightarrow> src_file list \<Rightarrow> jsval \<times> jsval" where
  "dependencies_of parse fs =
     foldl (\<lambda>acc f.
              if fst f = ''package.json'' then
                (case parse (snd f) of
                   None \<Rightarrow> acc
                 | Some packageData \<Rightarrow>
                     if packageData = JNull \<or> packageData = JUndefined then acc
                     else (or_empty_object (js_get packageData ''dependencies''),
                           or_empty_object (js_get packageData ''devDependencies'')))
              else acc)
           (JObj [], JObj []) fs"

text \<open>
  \<open>createSnapshot\<close> sends both its statements through \<open>this.db.query\<close>: each runs
  on a connection of the pool and is committed at once.
\<close>

definition createSnapshot ::
  "lib \<Rightarrow> string \<Rightarrow> uuid \<Rightarrow> src_file list \<Rightarrow> string \<Rightarrow> db \<Rightarrow> (error + snapshot_row) \<times> db" where
  "createSnapshot L stamp projectContextId fs snapshotReason d =
     (let nextVersion = max_snapshot_version d projectContextId + 1;
          (dependencies, devDependencies) = dependencies_of (JSON_parse L) fs
      in insert_snapshot
           \<lparr>pcs_id = 0, pcs_project_context_id = projectContextId, pcs_snapshot_version = nextVersion,
            pcs_file_tree = to_json (JObj (file_tree_of stamp fs)),
            pcs_key_files = to_json (JArr (key_files_of fs)),
            pcs_dependencies = to_json dependencies,
            pcs_dev_dependencies = to_json devDependencies,
            pcs_snapshot_reason = snapshotReason, pcs_created_by = ''auto''\<rparr> d)"

section \<open>Saving a session (\<open>SessionManager.saveSession\<close>)\<close>

record message =
  m_role :: role
  m_content :: string

text \<open>
  \<open>SaveContextInput\<close>. \<open>files\<close> and \<open>metadata\<close> may be absent (\<open>None\<close>). The user id is
  an option: \<open>None\<close> stands for an absent or empty id, which \<open>!userId\<close> rejects.
\<close>

record SaveContextInput =
  session_name :: string
  project_name :: string
  input_files :: "src_file list option"
  conversation :: "message list"
  metadata :: "(string \<times> jsval) list option"

record SaveContextOutput =
  out_session_id :: uuid
  out_status :: string
  out_message :: string
  out_version :: int
  out_project_context_id :: "uuid option"

definition role_name :: "role \<Rightarrow> string" where
  "role_name r = (case r of User \<Rightarrow> ''user'' | Assistant \<Rightarrow> ''assistant'' | System \<Rightarrow> ''system'')"

text \<open>\<open>conversation.slice(-10)\<close>: the last ten messages.\<close>

definition recent_messages :: "message list \<Rightarrow> message list" where
  "recent_messages ms = drop (length ms - 10) ms"

definition render_message :: "message \<Rightarrow> string" where
  "render_message msg = ''### '' @ toUpperCase (role_name (m_role msg)) @ [CHR 0x0A] @ m_content msg"

definition conversationSection :: "message list \<Rightarrow> string" where
  "conversationSection ms =
     (if recent_messages ms \<noteq> []
      then join [CHR 0x0A, CHR 0x0A] (map render_message (recent_messages ms))
      else ''No conversation captured.'')"

definition metadataSection :: "(string \<times> jsval) list option \<Rightarrow> string" where
  "metadataSection md =
     (case md of
        None \<Rightarrow> ''None''
      | Some kvs \<Rightarrow> if Object_keys (JObj kvs) \<noteq> [] then JSON_stringify_pretty (JObj kvs) else ''None'')"

text \<open>\<open>createSyntheticFile\<close>; \<open>stamp\<close> is \<open>new Date().toISOString()\<close>.\<close>

definition createSyntheticFile :: "string \<Rightarrow> SaveContextInput \<Rightarrow> src_file" where
  "createSyntheticFile stamp input =
     (''CONVERSATION_SUMMARY.md'',
      join [CHR 0x0A]
        [''# Context Engine Snapshot'',
         [],
         ''- Session: '' @ session_name input,
         ''- Project: '' @ project_name input,
         ''- Generated: '' @ stamp,
         [],
         ''## Metadata'',
         metadataSection (metadata input),
         [],
         ''## Conversation'',
         conversationSection (conversation input),
         []])"

definition normalizedFiles :: "string \<Rightarrow> SaveContextInput \<Rightarrow> src_file list" where
  "normalizedFiles stamp input =
     (case input_files input of
        None \<Rightarrow> [createSyntheticFile stamp input]
      | Some fs \<Rightarrow> if length fs > 0 then fs else [createSyntheticFile stamp input])"

definition filesWereSynthetic :: "SaveContextInput \<Rightarrow> bool" where
  "filesWereSynthetic input = (case input_files input of None \<Rightarrow> True | Some fs \<Rightarrow> length fs = 0)"

definition uuid_text :: "uuid \<Rightarrow> string" where
  "uuid_text i = to_radix 10 i"

text \<open>
  Step 1 of the callback: the project context and its snapshot. Every statement here
  goes through \<open>this.projectManager\<close>, that is through \<open>this.db\<close>, not through the
  callback's \<open>client\<close>. The result is the context, the snapshot reason and the snapshot
  id.
\<close>

definition input_description :: "SaveContextInput \<Rightarrow> jsval" where
  "input_description input =
     (case metadata input of None \<Rightarrow> JUndefined | Some md \<Rightarrow> js_get (JObj md) ''description'')"

definition currentContextHash :: "lib \<Rightarrow> string \<Rightarrow> SaveContextInput \<Rightarrow> string" where
  "currentContextHash L stamp input =
     calculateContextHash (sha256_hex L)
       (tech_stack (detectTechStack (JSON_parse L) (normalizedFiles stamp input)))"

definition snapshotReason_of :: "lib \<Rightarrow> string \<Rightarrow> SaveContextInput \<Rightarrow> uuid \<Rightarrow> db \<Rightarrow> string" where
  "snapshotReason_of L stamp input u d =
     (case getProjectContext u (project_name input) d of
        None \<Rightarrow> ''auto''
      | Some existingContext \<Rightarrow>
          if pc_context_hash existingContext \<noteq> Some (currentContextHash L stamp input)
          then ''tech-change'' else ''auto'')"

definition save_project_context ::
  "lib \<Rightarrow> timestamp \<Rightarrow> string \<Rightarrow> SaveContextInput \<Rightarrow> uuid option \<Rightarrow> db
   \<Rightarrow> (error + (context_row option \<times> string \<times> uuid option)) \<times> db" where
  "save_project_context L now stamp input userId d =
     (case userId of
        None \<Rightarrow> (Inr (None, ''auto'', None), d)
      | Some u \<Rightarrow>
          if project_name input = [] then (Inr (None, ''auto'', None), d)
          else
            (let snapshotReason = snapshotReason_of L stamp input u d
             in case createOrUpdateProjectContext L now u (project_name input)
                       (normalizedFiles stamp input) (input_description input) d of
                  (Inl e, d1) \<Rightarrow> (Inl e, d1)
                | (Inr projectContext, d1) \<Rightarrow>
                    (case createSnapshot L stamp (pc_id projectContext)
                            (normalizedFiles stamp input) snapshotReason d1 of
                       (Inl e, d2) \<Rightarrow> (Inl e, d2)
                     | (Inr snapshot, d2) \<Rightarrow>
                         (Inr (Some projectContext, snapshotReason, Some (pcs_id snapshot)), d2))))"

text \<open>\<open>SELECT MAX(version) ...\<close> and \<open>rows[0]?.max_version || 0\<close>.\<close>

definition max_version :: "uuid \<Rightarrow> string \<Rightarrow> string \<Rightarrow> db \<Rightarrow> int" where
  "max_version userId sname pname d =
     (case map s_version
             (filter (\<lambda>s. s_user_id s = userId \<and> s_name s = sname \<and> s_project_name s = pname)
                (sessions d)) of
        [] \<Rightarrow> 0
      | v # vs \<Rightarrow> foldl max v vs)"

text \<open>The metadata object literal of step 3, as the JSONB column stores it.\<close>

definition session_metadata ::
  "SaveContextInput \<Rightarrow> context_row option \<Rightarrow> string \<Rightarrow> uuid option \<Rightarrow> jsval" where
  "session_metadata input projectContext snapshotReason snapshotId =
     to_json (JObj
       (obj_set ''synthetic_files_added'' (JBool (filesWereSynthetic input))
       (obj_set ''snapshot_id'' (case snapshotId of None \<Rightarrow> JNull | Some i \<Rightarrow> JStr (uuid_text i))
       (obj_set ''snapshot_reason'' (JStr snapshotReason)
       (obj_set ''tech_stack_detected'' (JBool (projectContext \<noteq> None))
       (obj_set ''project_context_id''
          (case projectContext of None \<Rightarrow> JUndefined | Some c \<Rightarrow> JStr (uuid_text (pc_id c)))
          (case metadata input of None \<Rightarrow> [] | Some md \<Rightarrow> md)))))))"

text \<open>Step 4: one \<open>INSERT INTO files\<close> per file, stopping at the first error.\<close>

fun insert_files :: "uuid \<Rightarrow> src_file list \<Rightarrow> db \<Rightarrow> (error + unit) \<times> db" where
  "insert_files sessionId [] d = (Inr (), d)"
| "insert_files sessionId (f # fs) d =
     (case insert_file
             \<lparr>f_id = 0, f_session_id = sessionId, f_path = fst f, f_content = snd f,
              f_content_hash = calculateContentHash (snd f),
              f_line_count = length (split_on (CHR 0x0A) (snd f))\<rparr> d of
        (Inl e, d1) \<Rightarrow> (Inl e, d1)
      | (Inr row, d1) \<Rightarrow> insert_files sessionId fs d1)"

text \<open>
  Step 5: one \<open>INSERT INTO conversations\<close> per message, at
  \<open>NOW() - (length - index) seconds\<close>, stopping at the first error.
\<close>

fun insert_messages :: "timestamp \<Rightarrow> uuid \<Rightarrow> nat \<Rightarrow> message list \<Rightarrow> db \<Rightarrow> (error + unit) \<times> db" where
  "insert_messages now sessionId remaining [] d = (Inr (), d)"
| "insert_messages now sessionId remaining (msg # msgs) d =
     (case insert_conversation
             \<lparr>c_id = 0, c_session_id = sessionId, c_role = m_role msg, c_content = m_content msg,
              c_message_order = 0, c_created_at = now - int remaining\<rparr> d of
        (Inl e, d1) \<Rightarrow> (Inl e, d1)
      | (Inr row, d1) \<Rightarrow> insert_messages now sessionId (remaining - 1) msgs d1)"

text \<open>
  Steps 2 to 5 of the callback: the statements sent through the transaction's
  \<open>client\<close>.
\<close>

definition save_session_rows ::
  "timestamp \<Rightarrow> string \<Rightarrow> SaveContextInput \<Rightarrow> uuid option
   \<Rightarrow> context_row option \<times> string \<times> uuid option \<Rightarrow> db \<Rightarrow> (error + SaveContextOutput) \<times> db" where
  "save_session_rows now stamp input userId ctx d =
     (case userId of
        None \<Rightarrow> (Inl (AuthError ''User authentication required for session saving''), d)
      | Some u \<Rightarrow>
          (let (projectContext, snapshotReason, snapshotId) = ctx;
               currentVersion = max_version u (session_name input) (project_name input) d;
               newVersion = currentVersion + 1
           in case insert_session now
                     \<lparr>s_id = 0, s_user_id = u, s_name = session_name input,
                      s_project_name = project_name input, s_version = newVersion,
                      s_metadata = session_metadata input projectContext snapshotReason snapshotId,
                      s_snapshot_id = snapshotId, s_created_at = now, s_updated_at = now\<rparr> d of
                (Inl e, d1) \<Rightarrow> (Inl e, d1)
              | (Inr session, d1) \<Rightarrow>
                  (case insert_files (s_id session) (normalizedFiles stamp input) d1 of
                     (Inl e, d2) \<Rightarrow> (Inl e, d2)
                   | (Inr u2, d2) \<Rightarrow>
                       (case insert_messages now (s_id session) (length (conversation input))
                               (conversation input) d2 of
                          (Inl e, d3) \<Rightarrow> (Inl e, d3)
                        | (Inr u3, d3) \<Rightarrow>
                            (Inr \<lparr>out_session_id = s_id session,
                                  out_status = (if currentVersion > 0 then ''versioned'' else ''saved''),
                                  out_message =
                                    (if currentVersion > 0
                                     then ''Session saved as '' @ session_name input @ ''-'' @ show_int newVersion
                                     else ''Session saved as '' @ session_name input),
                                  out_version = newVersion,
                                  out_project_context_id = map_option pc_id projectContext\<rparr>, d3)))))"

text \<open>
  \<open>saveSession\<close>: the callback of \<open>this.db.transaction\<close>. What step 1 wrote is
  committed whatever happens next; what steps 3 to 5 wrote is committed or rolled back
  as a whole.
\<close>

definition saveSession ::
  "lib \<Rightarrow> timestamp \<Rightarrow> string \<Rightarrow> SaveContextInput \<Rightarrow> uuid option \<Rightarrow> db
   \<Rightarrow> (error + SaveContextOutput) \<times> db" where
  "saveSession L now stamp input userId d =
     transaction
       (\<lambda>d0. case save_project_context L now stamp input userId d0 of
                (Inl e, d1) \<Rightarrow> (Inl e, d1, d1)
              | (Inr ctx, d1) \<Rightarrow>
                  (case save_session_rows now stamp input userId ctx d1 of
                     (r, d2) \<Rightarrow> (r, d1, d2)))
       d"

section \<open>Resuming and listing sessions (\<open>SessionManager\<close>)\<close>

subsection \<open>\<open>ILIKE\<close> and \<open>ORDER BY\<close>\<close>

text \<open>
  \<open>LIKE\<close> as PostgreSQL matches it: \<open>%\<close> stands for any sequence of characters, \<open>_\<close>
  for any one character, and a backslash makes the next pattern character literal (a
  pattern ending in a lone backslash is an error in PostgreSQL; the patterns below end
  with \<open>%\<close>, and the model matches nothing there). \<open>ILIKE\<close> compares without regard
  to case.
\<close>

fun like_match :: "string \<Rightarrow> string \<Rightarrow> bool" where
  "like_match [] t = (t = [])"
| "like_match (p # ps) [] =
     (if p = CHR ''%'' then like_match ps [] else False)"
| "like_match (p # ps) (c # cs) =
     (if p = CHR ''%'' then like_match ps (c # cs) \<or> like_match (p # ps) cs
      else if p = CHR ''_'' then like_match ps cs
      else if p = CHR 0x5C then
        (case ps of [] \<Rightarrow> False | q # qs \<Rightarrow> q = c \<and> like_match qs cs)
      else p = c \<and> like_match ps cs)"

definition ilike :: "string \<Rightarrow> string \<Rightarrow> bool" where
  "ilike text pattern = like_match (toLowerCase pattern) (toLowerCase text)"

definition contains_pattern :: "string \<Rightarrow> string" where
  "contains_pattern s = ''%'' @ s @ ''%''"

text \<open>
  \<open>ORDER BY key DESC\<close>. PostgreSQL leaves the order of rows with equal keys open; the
  model takes them in insertion order.
\<close>

definition order_desc :: "('a \<Rightarrow> int) \<Rightarrow> 'a list \<Rightarrow> 'a list" where
  "order_desc key rows = sort_key (\<lambda>r. - key r) rows"

text \<open>
  \<open>ARRAY_AGG(DISTINCT f.path) FILTER (WHERE f.path IS NOT NULL)\<close> over the left join
  with \<open>files\<close>: \<open>NULL\<close> for a session without files.
\<close>

definition session_paths :: "db \<Rightarrow> uuid \<Rightarrow> string list option" where
  "session_paths d sid =
     (case map f_path (filter (\<lambda>f. f_session_id f = sid) (files d)) of
        [] \<Rightarrow> None
      | ps \<Rightarrow> Some (sort (remdups ps)))"

subsection \<open>Results\<close>

record AmbiguousMatch =
  am_session_id :: uuid
  am_session_name :: string
  am_project_name :: string
  am_version :: int
  am_files :: "string list"
  am_created_at :: timestamp
  am_metadata :: jsval

record ResumeContextOutput =
  ro_session_id :: uuid
  ro_session_name :: string
  ro_project_name :: string
  ro_version :: int
  ro_files :: "src_file list"
  ro_conversation :: "message list"
  ro_metadata :: "(string \<times> jsval) list"
  ro_summaries :: "(string \<times> string) list"

datatype resume_result = FullSession ResumeContextOutput | Matches "AmbiguousMatch list"

record ResumeContextInput =
  r_session_name :: string
  r_project_name :: "string option"
  r_file_path :: "string option"

record ListContextsInput =
  l_project_name :: "string option"
  l_file_path :: "string option"
  l_limit :: "nat option"
  l_offset :: "nat option"

record listed_session =
  ls_session_id :: uuid
  ls_session_name :: string
  ls_project_name :: string
  ls_version :: int
  ls_files :: "string list"
  ls_created_at :: timestamp
  ls_updated_at :: timestamp

record ListContextsOutput =
  lo_sessions :: "listed_session list"
  lo_total :: nat
  lo_limit :: nat
  lo_offset :: nat

text \<open>An optional string is truthy when it is present and not empty.\<close>

definition given :: "string option \<Rightarrow> bool" where
  "given v = (case v of None \<Rightarrow> False | Some s \<Rightarrow> s \<noteq> [])"

subsection \<open>\<open>fuzzySearchSessions\<close>\<close>

text \<open>
  The rows of the query, then \<open>results.map\<close>: \<open>result.files.filter(Boolean)\<close> raises
  a TypeError on the \<open>NULL\<close> of a session without files.
\<close>

definition fuzzy_rows :: "ResumeContextInput \<Rightarrow> uuid \<Rightarrow> db \<Rightarrow> session_row list" where
  "fuzzy_rows input userId d =
     take 10 (order_desc s_updated_at
       (filter (\<lambda>s. s_user_id s = userId
                     \<and> ilike (s_name s) (contains_pattern (r_session_name input))
                     \<and> (case r_project_name input of
                           None \<Rightarrow> True
                         | Some p \<Rightarrow> if p = [] then True
                                     else ilike (s_project_name s) (contains_pattern p)))
          (sessions d)))"

fun match_rows :: "db \<Rightarrow> session_row list \<Rightarrow> error + AmbiguousMatch list" where
  "match_rows d [] = Inr []"
| "match_rows d (s # rows) =
     (case session_paths d (s_id s) of
        None \<Rightarrow> Inl (TypeError ''Cannot read properties of null (reading filter)'')
      | Some ps \<Rightarrow>
          (case match_rows d rows of
             Inl e \<Rightarrow> Inl e
           | Inr ms \<Rightarrow>
               Inr (\<lparr>am_session_id = s_id s, am_session_name = s_name s,
                     am_project_name = s_project_name s, am_version = s_version s,
                     am_files = filter (\<lambda>p. p \<noteq> []) ps, am_created_at = s_created_at s,
                     am_metadata = s_metadata s\<rparr> # ms)))"

definition fuzzySearchSessions :: "ResumeContextInput \<Rightarrow> uuid \<Rightarrow> db \<Rightarrow> error + resume_result" where
  "fuzzySearchSessions input userId d =
     (case match_rows d (fuzzy_rows input userId d) of
        Inl e \<Rightarrow> Inl e
      | Inr ms \<Rightarrow> Inr (Matches ms))"

subsection \<open>\<open>retrieveFullSession\<close>\<close>

text \<open>
  The first query: the session, left-joined with \<open>project_contexts\<close> on
  \<open>s.snapshot_id = pc.id\<close> and with that context's latest snapshot.
\<close>

definition latest_snapshot :: "db \<Rightarrow> uuid \<Rightarrow> snapshot_row option" where
  "latest_snapshot d ctx =
     (case filter (\<lambda>p. pcs_project_context_id p = ctx
                       \<and> pcs_snapshot_version p = max_snapshot_version d ctx)
             (project_context_snapshots d) of
        [] \<Rightarrow> None
      | p # _ \<Rightarrow> Some p)"

definition joined_context :: "db \<Rightarrow> session_row \<Rightarrow> (context_row \<times> snapshot_row option) option" where
  "joined_context d s =
     (case s_snapshot_id s of
        None \<Rightarrow> None
      | Some x \<Rightarrow>
          (case filter (\<lambda>c. pc_id c = x) (project_contexts d) of
             [] \<Rightarrow> None
           | c # _ \<Rightarrow> Some (c, latest_snapshot d (pc_id c))))"

text \<open>
  The fourth query reads \<open>fs.file_id\<close> and joins on \<open>s.file_id\<close>. Neither \<open>summaries\<close>
  nor \<open>files\<close> has a column \<open>file_id\<close> in \<open>schema.ts\<close> (nor in the migrations), so
  PostgreSQL rejects the statement whatever the tables hold. The repository's README and
  its list of known limitations record that \<open>retrieveFullSession\<close> still fails and
  needs a SQL fix.
\<close>

definition summaries_query :: "uuid \<Rightarrow> db \<Rightarrow> error + (uuid option \<times> string) list" where
  "summaries_query sid d = Inl (DbError ''column fs.file_id does not exist'')"

definition nullish_or :: "jsval \<Rightarrow> jsval \<Rightarrow> jsval" where
  "nullish_or v dflt = (if v = JNull \<or> v = JUndefined then dflt else v)"

definition project_context_value :: "session_row \<Rightarrow> (context_row \<times> snapshot_row option) option \<Rightarrow> jsval" where
  "project_context_value s j =
     (case j of
        None \<Rightarrow> JUndefined
      | Some (c, snap) \<Rightarrow>
          JObj [(''id'', JStr (uuid_text (pc_id c))),
                (''project_name'', JStr (if pc_project_name c \<noteq> [] then pc_project_name c
                                          else s_project_name s)),
                (''tech_stack'', nullish_or (pc_tech_stack c) (JObj [])),
                (''programming_languages'', nullish_or (pc_programming_languages c) (JArr [])),
                (''project_type'', JStr (case str_or_null (pc_project_type c) of
                                           None \<Rightarrow> ''other'' | Some ty \<Rightarrow> ty)),
                (''snapshot'',
                 JObj [(''file_tree'', (case snap of None \<Rightarrow> JObj []
                                        | Some p \<Rightarrow> nullish_or (pcs_file_tree p) (JObj []))),
                       (''dependencies'', (case snap of None \<Rightarrow> JObj []
                                           | Some p \<Rightarrow> nullish_or (pcs_dependencies p) (JObj []))),
                       (''version'', JNum (case snap of None \<Rightarrow> 1
                                           | Some p \<Rightarrow> if pcs_snapshot_version p = 0 then 1
                                                       else pcs_snapshot_version p))])])"

text \<open>Object spread \<open>{...v}\<close>: the own enumerable properties of \<open>v\<close>.\<close>

fun spread :: "jsval \<Rightarrow> (string \<times> jsval) list" where
  "spread (JObj kvs) = kvs"
| "spread (JArr xs) = zip (map (\<lambda>i. to_radix 10 i) [0..<length xs]) xs"
| "spread (JStr s) = zip (map (\<lambda>i. to_radix 10 i) [0..<length s]) (map (\<lambda>c. JStr [c]) s)"
| "spread v = []"

text \<open>
  The metadata of the response: the stored metadata (parsed when the column came back
  as a string), with the key \<open>project_context\<close> set.
\<close>

definition stored_metadata :: "(string \<Rightarrow> jsval option) \<Rightarrow> jsval \<Rightarrow> jsval" where
  "stored_metadata parse rawMetadata =
     (case rawMetadata of
        JStr text \<Rightarrow> (case parse text of None \<Rightarrow> JObj [] | Some v \<Rightarrow> v)
      | JObj kvs \<Rightarrow> JObj kvs
      | JArr xs \<Rightarrow> JArr xs
      | _ \<Rightarrow> JObj [])"

definition response_metadata :: "(string \<Rightarrow> jsval option) \<Rightarrow> jsval \<Rightarrow> jsval \<Rightarrow> (string \<times> jsval) list" where
  "response_metadata parse rawMetadata projectContext =
     obj_set ''project_context'' projectContext (spread (stored_metadata parse rawMetadata))"

text \<open>The response assembled from the rows the four queries returned.\<close>

definition full_session ::
  "lib \<Rightarrow> db \<Rightarrow> session_row \<Rightarrow> file_row list \<Rightarrow> conversation_row list
   \<Rightarrow> (uuid option \<times> string) list \<Rightarrow> ResumeContextOutput" where
  "full_session L d session filesResult conversationResult summariesResult =
     \<lparr>ro_session_id = s_id session, ro_session_name = s_name session,
      ro_project_name = s_project_name session, ro_version = s_version session,
      ro_files = map (\<lambda>f. (f_path f, f_content f)) filesResult,
      ro_conversation = map (\<lambda>c. \<lparr>m_role = c_role c, m_content = c_content c\<rparr>) conversationResult,
      ro_metadata =
        response_metadata (JSON_parse L) (s_metadata session)
          (project_context_value session (joined_context d session)),
      ro_summaries =
        map (\<lambda>(file_id, summary).
               ((case filter (\<lambda>f. Some (f_id f) = file_id) filesResult of
                   [] \<Rightarrow> ''unknown''
                 | f # _ \<Rightarrow> if f_path f = [] then ''unknown'' else f_path f),
                summary))
            summariesResult\<rparr>"

definition retrieveFullSession ::
  "lib \<Rightarrow> uuid \<Rightarrow> string option \<Rightarrow> db \<Rightarrow> error + ResumeContextOutput" where
  "retrieveFullSession L sessionId filePath d =
     (case filter (\<lambda>s. s_id s = sessionId) (sessions d) of
        [] \<Rightarrow> Inl (NotFound ''Session not found'')
      | session # _ \<Rightarrow>
          (let filesResult =
                 sort_key f_path
                   (filter (\<lambda>f. f_session_id f = sessionId
                                 \<and> (case filePath of
                                       None \<Rightarrow> True
                                     | Some p \<Rightarrow> if p = [] then True else f_path f = p)) (files d));
               conversationResult =
                 sort_key c_created_at (filter (\<lambda>c. c_session_id c = sessionId) (conversations d))
           in if \<not> pg_text_opt filePath then Inl invalid_text
              else case summaries_query sessionId d of
                Inl e \<Rightarrow> Inl e
              | Inr summariesResult \<Rightarrow>
                  Inr (full_session L d session filesResult conversationResult summariesResult)))"

subsection \<open>\<open>resumeSession\<close> and \<open>listSessions\<close>\<close>

definition exactMatches :: "ResumeContextInput \<Rightarrow> uuid \<Rightarrow> db \<Rightarrow> session_row list" where
  "exactMatches input userId d =
     order_desc s_version
       (filter (\<lambda>s. s_user_id s = userId \<and> s_name s = r_session_name input
                     \<and> (case r_project_name input of None \<Rightarrow> True | Some p \<Rightarrow> s_project_name s = p))
          (sessions d))"

definition candidate :: "session_row \<Rightarrow> AmbiguousMatch" where
  "candidate s =
     \<lparr>am_session_id = s_id s, am_session_name = s_name s, am_project_name = s_project_name s,
      am_version = s_version s, am_files = [], am_created_at = s_created_at s,
      am_metadata = s_metadata s\<rparr>"

definition resumeSession ::
  "lib \<Rightarrow> ResumeContextInput \<Rightarrow> uuid option \<Rightarrow> db \<Rightarrow> error + resume_result" where
  "resumeSession L input userId d =
     (case userId of
        None \<Rightarrow> Inl (AuthError ''User authentication required for session access'')
      | Some u \<Rightarrow>
          if \<not> (pg_text (r_session_name input) \<and> pg_text_opt (r_project_name input))
          then Inl invalid_text
          else
            (case exactMatches input u d of
               [] \<Rightarrow> fuzzySearchSessions input u d
             | session # others \<Rightarrow>
                 if length (session # others) > 1 \<and> \<not> given (r_project_name input)
                 then Inr (Matches (map candidate (session # others)))
                 else (case retrieveFullSession L (s_id session) (r_file_path input) d of
                         Inl e \<Rightarrow> Inl e
                       | Inr full \<Rightarrow> Inr (FullSession full))))"

definition list_rows :: "ListContextsInput \<Rightarrow> uuid \<Rightarrow> db \<Rightarrow> session_row list" where
  "list_rows input userId d =
     filter (\<lambda>s. s_user_id s = userId
                  \<and> (case l_project_name input of
                        None \<Rightarrow> True
                      | Some p \<Rightarrow> if p = [] then True
                                  else ilike (s_project_name s) (contains_pattern p))
                  \<and> (case l_file_path input of
                        None \<Rightarrow> True
                      | Some fp \<Rightarrow> if fp = [] then True
                                   else list_ex (\<lambda>f. f_session_id f = s_id s
                                                     \<and> ilike (f_path f) (contains_pattern fp))
                                          (files d)))
       (sessions d)"

fun listed_rows :: "db \<Rightarrow> session_row list \<Rightarrow> error + listed_session list" where
  "listed_rows d [] = Inr []"
| "listed_rows d (s # rows) =
     (case session_paths d (s_id s) of
        None \<Rightarrow> Inl (TypeError ''Cannot read properties of null (reading filter)'')
      | Some ps \<Rightarrow>
          (case listed_rows d rows of
             Inl e \<Rightarrow> Inl e
           | Inr ls \<Rightarrow>
               Inr (\<lparr>ls_session_id = s_id s, ls_session_name = s_name s,
                     ls_project_name = s_project_name s, ls_version = s_version s,
                     ls_files = filter (\<lambda>p. p \<noteq> []) ps, ls_created_at = s_created_at s,
                     ls_updated_at = s_updated_at s\<rparr> # ls)))"

text \<open>
  \<open>LIMIT $n OFFSET $m\<close> with the input's \<open>limit\<close> and \<open>offset\<close> (\<open>NULL\<close> when
  absent: no limit, no offset).
\<close>

definition page_of :: "ListContextsInput \<Rightarrow> 'a list \<Rightarrow> 'a list" where
  "page_of input rows =
     (case l_limit input of
        None \<Rightarrow> drop (case l_offset input of None \<Rightarrow> 0 | Some m \<Rightarrow> m) rows
      | Some n \<Rightarrow> take n (drop (case l_offset input of None \<Rightarrow> 0 | Some m \<Rightarrow> m) rows))"

text \<open>\<open>listSessions\<close>: the page of rows, and the count of the same \<open>WHERE\<close> clause.\<close>

definition listSessions :: "ListContextsInput \<Rightarrow> uuid option \<Rightarrow> db \<Rightarrow> error + ListContextsOutput" where
  "listSessions input userId d =
     (case userId of
        None \<Rightarrow> Inl (AuthError ''User authentication required for session listing'')
      | Some u \<Rightarrow>
          if \<not> (pg_text_opt (l_project_name input) \<and> pg_text_opt (l_file_path input))
          then Inl invalid_text
          else
          (case listed_rows d (page_of input (order_desc s_updated_at (list_rows input u d))) of
             Inl e \<Rightarrow> Inl e
           | Inr ls \<Rightarrow>
               Inr \<lparr>lo_sessions = ls,
                    lo_total = length (remdups (map s_id (list_rows input u d))),
                    lo_limit = (case l_limit input of None \<Rightarrow> 20 | Some n \<Rightarrow> if n = 0 then 20 else n),
                    lo_offset = (case l_offset input of None \<Rightarrow> 0 | Some m \<Rightarrow> m)\<rparr>))"

section \<open>Notions used in the statements\<close>

text \<open>
  \<open>same_session_tables\<close>: two stores agree on users, sessions, files and conversations.
  \<open>file_row_matches\<close>: a file row is the one inserted for an input file of a session.
  \<open>versions_of\<close>: the versions stored under a (user, session name, project name) key, in
  insertion order. \<open>run_saves\<close> runs a sequence of \<open>saveSession\<close> calls, one after the
  other, whether they succeed or fail; \<open>saved_under\<close> says of a call and its result that
  the save succeeded under the key; \<open>names_fit\<close> that the call's names fit the columns.
\<close>

definition same_session_tables :: "db \<Rightarrow> db \<Rightarrow> bool" where
  "same_session_tables d d' =
     (users d' = users d \<and> sessions d' = sessions d \<and> files d' = files d
      \<and> conversations d' = conversations d)"

definition file_row_matches :: "uuid \<Rightarrow> file_row \<Rightarrow> src_file \<Rightarrow> bool" where
  "file_row_matches sid row f =
     (f_session_id row = sid \<and> pg_varchar 500 (fst f) = Some (f_path row) \<and> f_content row = snd f)"

definition versions_of :: "uuid \<Rightarrow> string \<Rightarrow> string \<Rightarrow> db \<Rightarrow> int list" where
  "versions_of u sname pname d =
     map s_version
       (filter (\<lambda>s. s_user_id s = u \<and> s_name s = sname \<and> s_project_name s = pname) (sessions d))"

type_synonym save_call = "timestamp \<times> string \<times> SaveContextInput \<times> uuid option"

fun run_saves :: "lib \<Rightarrow> save_call list \<Rightarrow> db \<Rightarrow> (error + SaveContextOutput) list \<times> db" where
  "run_saves L [] d = ([], d)"
| "run_saves L ((now, stamp, input, userId) # calls) d =
     (case saveSession L now stamp input userId d of
        (r, d1) \<Rightarrow> (case run_saves L calls d1 of (rs, d2) \<Rightarrow> (r # rs, d2)))"

definition saved_under :: "uuid \<Rightarrow> string \<Rightarrow> string \<Rightarrow> save_call \<times> (error + SaveContextOutput) \<Rightarrow> bool" where
  "saved_under u sname pname cr =
     (case cr of
        ((now, stamp, input, userId), r) \<Rightarrow>
          isl r = False \<and> userId = Some u \<and> session_name input = sname \<and> project_name input = pname)"

definition names_fit :: "save_call \<Rightarrow> bool" where
  "names_fit c =
     (case c of (now, stamp, input, userId) \<Rightarrow>
        length (session_name input) \<le> 100 \<and> length (project_name input) \<le> 100)"

text \<open>
  \<open>is_json\<close>: a value with no \<open>undefined\<close> in it, as every value parsed from JSON is.
  \<open>bookkeeping_keys\<close>: the metadata keys that \<open>saveSession\<close> sets itself.
\<close>

function (sequential) is_json :: "jsval \<Rightarrow> bool" where
  "is_json JUndefined = False"
| "is_json (JArr xs) = list_all is_json xs"
| "is_json (JObj kvs) = list_all (\<lambda>(k, v). is_json v) kvs"
| "is_json v = True"
  by pat_completeness auto
termination
  apply (relation "measure size")
    apply simp
  subgoal for xs x
    using size_list_estimation' [of x xs "size x" size] by simp
  subgoal for kvs kv k v
    using size_list_estimation' [of "(k, v)" kvs "size v" "size_prod (\<lambda>_. 0) size"] by auto
  done

definition bookkeeping_keys :: "string list" where
  "bookkeeping_keys =
     [''project_context_id'', ''tech_stack_detected'', ''snapshot_reason'', ''snapshot_id'',
      ''synthetic_files_added'']"

definition caller_metadata :: "SaveContextInput \<Rightarrow> (string \<times> jsval) list" where
  "caller_metadata input = (case metadata input of None \<Rightarrow> [] | Some md \<Rightarrow> md)"

text \<open>
  What the store holds of one user: the sessions of the user, and the files and
  conversations of those sessions. \<open>owned_by a d sid\<close>: the store has a session with
  id \<open>sid\<close> that belongs to \<open>a\<close>.
\<close>

definition user_sessions :: "uuid \<Rightarrow> db \<Rightarrow> session_row list" where
  "user_sessions a d = filter (\<lambda>s. s_user_id s = a) (sessions d)"

definition user_files :: "uuid \<Rightarrow> db \<Rightarrow> file_row list" where
  "user_files a d =
     filter (\<lambda>f. list_ex (\<lambda>s. s_id s = f_session_id f \<and> s_user_id s = a) (sessions d)) (files d)"

definition user_conversations :: "uuid \<Rightarrow> db \<Rightarrow> conversation_row list" where
  "user_conversations a d =
     filter (\<lambda>c. list_ex (\<lambda>s. s_id s = c_session_id c \<and> s_user_id s = a) (sessions d))
       (conversations d)"

definition user_view :: "uuid \<Rightarrow> db \<Rightarrow> session_row list \<times> file_row list \<times> conversation_row list" where
  "user_view a d = (user_sessions a d, user_files a d, user_conversations a d)"

definition owned_by :: "uuid \<Rightarrow> db \<Rightarrow> uuid \<Rightarrow> bool" where
  "owned_by a d sid = list_ex (\<lambda>s. s_id s = sid \<and> s_user_id s = a) (sessions d)"

text \<open>
  \<open>ids_allocated\<close>: the session ids in the rows of sessions and files are ids given out
  before, as they are in a store that saves have filled. \<open>heading\<close>: a role in upper
  case.
\<close>

definition ids_allocated :: "db \<Rightarrow> bool" where
  "ids_allocated d =
     (list_all (\<lambda>s. s_id s < next_id d) (sessions d)
      \<and> list_all (\<lambda>f. f_session_id f < next_id d) (files d))"

definition heading :: "role \<Rightarrow> string" where
  "heading r = (case r of User \<Rightarrow> ''USER'' | Assistant \<Rightarrow> ''ASSISTANT'' | System \<Rightarrow> ''SYSTEM'')"

text \<open>A TypeScript or JavaScript source file, by its extension.\<close>

definition is_js_source :: "src_file \<Rightarrow> bool" where
  "is_js_source f = (file_ext (fst f) \<in> set [''ts'', ''tsx'', ''js'', ''jsx''])"

section \<open>Signals of the project type\<close>

text \<open>
  What tells the project type, file by file, written as a table to compare
  \<open>detectTechStack\<close> with: a framework named in a TypeScript, JavaScript or Python
  source, a dependency of \<open>package.json\<close>, a framework named on a line of
  \<open>requirements.txt\<close>, the files \<open>Cargo.toml\<close> and \<open>go.mod\<close>. \<open>type_signal\<close> is the
  signal of one file (a file name fits one row of the table at most; were it to fit
  two, the later row counts). \<open>expected_project_type\<close> is the signal of the last file
  that has one, or the default: \<open>cli-tool\<close> when a TypeScript, JavaScript or Python source
  or a \<open>requirements.txt\<close> is among the files, \<open>other\<close> when none is. \<open>scripting\<close>: one
  of these three languages was detected.
\<close>

definition mentions :: "string \<Rightarrow> string list \<Rightarrow> bool" where
  "mentions content needles = list_ex (str_includes content) needles"

definition script_signal :: "src_file \<Rightarrow> string option" where
  "script_signal f =
     (if is_js_source f
         \<and> mentions (snd f)
              [''import React'', ''from '' @ [dq] @ ''react'' @ [dq], ''from '' @ [sq] @ ''react'' @ [sq],
               ''import { createApp }'', ''from '' @ [dq] @ ''vue'' @ [dq],
               ''@angular/core'', ''NgModule'']
      then Some ''web-app'' else None)"

definition python_signal :: "src_file \<Rightarrow> string option" where
  "python_signal f =
     (if file_ext (fst f) \<noteq> ''py'' then None
      else if mentions (snd f) [''import fastapi'', ''from fastapi''] then Some ''api-service''
      else if mentions (snd f) [''import django'', ''from django''] then Some ''web-app''
      else if mentions (snd f) [''import flask'', ''from flask''] then Some ''api-service''
      else None)"

definition depends_on :: "jsval \<Rightarrow> string list \<Rightarrow> bool" where
  "depends_on package names =
     list_ex (\<lambda>name. truthy (js_get (js_get package ''dependencies'') name)) names"

definition package_signal :: "(string \<Rightarrow> jsval option) \<Rightarrow> src_file \<Rightarrow> string option" where
  "package_signal parse f =
     (if fst f \<noteq> ''package.json'' then None
      else (case parse (snd f) of
              None \<Rightarrow> None
            | Some package \<Rightarrow>
                if depends_on package [''express'', ''fastify''] then Some ''api-service''
                else if depends_on package [''react'', ''@types/react''] then Some ''web-app''
                else if depends_on package [''electron''] then Some ''desktop-app''
                else if depends_on package [''@react-native''] then Some ''mobile-app''
                else None))"

definition requirement_lines :: "string \<Rightarrow> string list" where
  "requirement_lines content = filter (\<lambda>line. js_trim line \<noteq> []) (split_on (CHR 0x0A) content)"

definition requirements_signal :: "src_file \<Rightarrow> string option" where
  "requirements_signal f =
     (if fst f \<noteq> ''requirements.txt'' then None
      else if list_ex (\<lambda>line. mentions line [''django'']) (requirement_lines (snd f))
        then Some ''web-app''
      else if list_ex (\<lambda>line. mentions line [''flask'', ''fastapi'']) (requirement_lines (snd f))
        then Some ''api-service''
      else None)"

definition cargo_signal :: "src_file \<Rightarrow> string option" where
  "cargo_signal f =
     (if fst f \<noteq> ''Cargo.toml'' then None
      else if mentions (toLowerCase (snd f)) [''axum''] then Some ''api-service''
      else if mentions (toLowerCase (snd f)) [''yew''] then Some ''web-app''
      else Some ''cli-tool'')"

definition go_signal :: "src_file \<Rightarrow> string option" where
  "go_signal f =
     (if fst f \<noteq> ''go.mod'' then None
      else if mentions (snd f) [''github.com/gin-gonic''] then Some ''api-service''
      else Some ''cli-tool'')"

definition type_signal :: "(string \<Rightarrow> jsval option) \<Rightarrow> src_file \<Rightarrow> string option" where
  "type_signal parse f =
     (case List.map_filter (\<lambda>signal. signal)
             [script_signal f, python_signal f, package_signal parse f, requirements_signal f,
              cargo_signal f, go_signal f] of
        [] \<Rightarrow> None
      | v # vs \<Rightarrow> Some (last (v # vs)))"

definition is_python_source :: "src_file \<Rightarrow> bool" where
  "is_python_source f = (file_ext (fst f) = ''py'' \<or> fst f = ''requirements.txt'')"

definition expected_project_type :: "(string \<Rightarrow> jsval option) \<Rightarrow> src_file list \<Rightarrow> string" where
  "expected_project_type parse fs =
     (case List.map_filter (type_signal parse) fs of
        [] \<Rightarrow> if list_ex (\<lambda>f. is_js_source f \<or> is_python_source f) fs then ''cli-tool'' else ''other''
      | v # vs \<Rightarrow> last (v # vs))"

definition scripting :: "tech_info \<Rightarrow> bool" where
  "scripting t =
     (''typescript'' \<in> set (programming_languages t)
      \<or> ''javascript'' \<in> set (programming_languages t)
      \<or> ''python'' \<in> set (programming_languages t))"

section \<open>Example stores and inputs\<close>

text \<open>
  Stand-ins for the two library functions and a store with two users, used to run the
  model on concrete inputs.
\<close>

definition digest0 :: "string \<Rightarrow> string" where
  "digest0 s = padStart 64 (CHR ''0'') (take 64 s)"

definition package_json_express :: string where
  "package_json_express =
     ''{'' @ [dq] @ ''dependencies'' @ [dq] @ '':{'' @ [dq] @ ''express'' @ [dq] @ '':''
       @ [dq] @ ''4'' @ [dq] @ ''}}''"

definition parse0 :: "string \<Rightarrow> jsval option" where
  "parse0 s =
     (if s = package_json_express
      then Some (JObj [(''dependencies'', JObj [(''express'', JStr ''4'')])])
      else None)"

definition lib0 :: lib where
  "lib0 = \<lparr>JSON_parse = parse0, sha256_hex = digest0\<rparr>"

definition store0 :: db where
  "store0 = \<lparr>users = [3, 4], sessions = [], files = [], conversations = [], project_contexts = [],
             project_context_snapshots = [], next_id = 10\<rparr>"

definition input_ts :: SaveContextInput where
  "input_ts =
     \<lparr>session_name = ''bug-fix'', project_name = ''proj-a'',
      input_files = Some [(''a.ts'', ''let x'')],
      conversation = [\<lparr>m_role = User, m_content = ''hello''\<rparr>],
      metadata = Some [(''tag'', JStr ''x'')]\<rparr>"

definition input_react :: SaveContextInput where
  "input_react =
     \<lparr>session_name = ''bug-fix'', project_name = ''proj-a'',
      input_files = Some [(''a.tsx'', ''import React'')],
      conversation = [\<lparr>m_role = User, m_content = ''hello''\<rparr>],
      metadata = Some [(''tag'', JStr ''x'')]\<rparr>"

definition input_two :: SaveContextInput where
  "input_two =
     \<lparr>session_name = ''bug-fix'', project_name = ''proj-a'',
      input_files = Some [(''a.ts'', ''let x'')],
      conversation = [\<lparr>m_role = User, m_content = ''hello''\<rparr>,
                      \<lparr>m_role = Assistant, m_content = ''hi''\<rparr>],
      metadata = None\<rparr>"

definition input_nofiles :: SaveContextInput where
  "input_nofiles =
     \<lparr>session_name = ''notes'', project_name = ''proj-a'',
      input_files = Some [],
      conversation = [\<lparr>m_role = User, m_content = ''hello''\<rparr>],
      metadata = Some [(''tag'', JStr ''x'')]\<rparr>"

definition store1 :: db where
  "store1 =
     \<lparr>users = [3, 4],
      sessions =
        [\<lparr>s_id = 12, s_user_id = 3, s_name = ''bug-fix'', s_project_name = ''proj-a'',
          s_version = 1,
          s_metadata =
            JObj [(''tag'', JStr ''x''), (''project_context_id'', JStr ''10''),
                  (''tech_stack_detected'', JBool True), (''snapshot_reason'', JStr ''auto''),
                  (''snapshot_id'', JStr ''11''), (''synthetic_files_added'', JBool False)],
          s_snapshot_id = Some 11, s_created_at = 100, s_updated_at = 100\<rparr>],
      files =
        [\<lparr>f_id = 13, f_session_id = 12, f_path = ''a.ts'', f_content = ''let x'',
          f_content_hash = ''0000000000000000000000000000000000000000000000000000000006218bb3'',
          f_line_count = 1\<rparr>],
      conversations =
        [\<lparr>c_id = 14, c_session_id = 12, c_role = User, c_content = ''hello'',
          c_message_order = 0, c_created_at = 99\<rparr>],
      project_contexts =
        [\<lparr>pc_id = 10, pc_user_id = 3, pc_project_name = ''proj-a'', pc_description = None,
          pc_tech_stack = JObj [], pc_project_type = Some ''cli-tool'',
          pc_programming_languages = JArr [JStr ''typescript''], pc_build_system = None,
          pc_test_framework = None, pc_last_modified_at = 100, pc_is_active = True,
          pc_context_hash =
            Some ''00000000000000000000000000000000000000000000000000000000000000{}''\<rparr>],
      project_context_snapshots =
        [\<lparr>pcs_id = 11, pcs_project_context_id = 10, pcs_snapshot_version = 1,
          pcs_file_tree =
            JObj [(''a.ts'', JObj [(''size'', JNum 5), (''type'', JStr ''ts''),
                                  (''last_modified'', JStr ''t0'')])],
          pcs_key_files = JArr [], pcs_dependencies = JObj [], pcs_dev_dependencies = JObj [],
          pcs_snapshot_reason = ''auto'', pcs_created_by = ''auto''\<rparr>],
      next_id = 15\<rparr>"

definition out1 :: SaveContextOutput where
  "out1 = \<lparr>out_session_id = 12, out_status = ''saved'', out_message = ''Session saved as bug-fix'',
           out_version = 1, out_project_context_id = Some 10\<rparr>"

definition out2 :: SaveContextOutput where
  "out2 = \<lparr>out_session_id = 16, out_status = ''versioned'',
           out_message = ''Session saved as bug-fix-2'', out_version = 2,
           out_project_context_id = Some 10\<rparr>"

definition summary0 :: string where
  "summary0 = snd (createSyntheticFile ''t0'' input_nofiles)"

definition out3 :: SaveContextOutput where
  "out3 = \<lparr>out_session_id = 12, out_status = ''saved'', out_message = ''Session saved as notes'',
           out_version = 1, out_project_context_id = Some 10\<rparr>"

text \<open>
  A store with two sessions named \<open>bug-fix\<close> of user 3, in two projects, and a session
  of user 4 with the same names; and the same store without the rows of user 4.
\<close>

definition example_session :: "uuid \<Rightarrow> uuid \<Rightarrow> string \<Rightarrow> timestamp \<Rightarrow> session_row" where
  "example_session i u pname at =
     \<lparr>s_id = i, s_user_id = u, s_name = ''bug-fix'', s_project_name = pname, s_version = 1,
      s_metadata = JObj [], s_snapshot_id = None, s_created_at = at, s_updated_at = at\<rparr>"

definition example_file :: "uuid \<Rightarrow> uuid \<Rightarrow> string \<Rightarrow> file_row" where
  "example_file i sid p =
     \<lparr>f_id = i, f_session_id = sid, f_path = p, f_content = ''let x'',
      f_content_hash = ''0000000000000000000000000000000000000000000000000000000006218bb3'',
      f_line_count = 1\<rparr>"

definition store2 :: db where
  "store2 =
     \<lparr>users = [3, 4],
      sessions = [example_session 20 3 ''proj-a'' 100, example_session 21 3 ''proj-b'' 110,
                  example_session 22 4 ''proj-a'' 120],
      files = [example_file 30 20 ''a.ts'', example_file 31 21 ''b.ts'',
               example_file 32 22 ''secret.ts''],
      conversations = [], project_contexts = [], project_context_snapshots = [], next_id = 40\<rparr>"

definition store3 :: db where
  "store3 =
     \<lparr>users = [3, 4],
      sessions = [example_session 20 3 ''proj-a'' 100, example_session 21 3 ''proj-b'' 110],
      files = [example_file 30 20 ''a.ts'', example_file 31 21 ''b.ts''],
      conversations = [], project_contexts = [], project_context_snapshots = [], next_id = 40\<rparr>"

text \<open>
  A conversation of twelve messages, cut into the first two and the last ten, an input
  with no file that carries it, and the text of the file synthesized for it.
\<close>

definition older_messages :: "message list" where
  "older_messages = [\<lparr>m_role = User, m_content = ''m1''\<rparr>, \<lparr>m_role = Assistant, m_content = ''m2''\<rparr>]"

definition last_ten_messages :: "message list" where
  "last_ten_messages =
     [\<lparr>m_role = User, m_content = ''m3''\<rparr>,
      \<lparr>m_role = Assistant, m_content = ''m4''\<rparr>,
      \<lparr>m_role = User, m_content = ''m5''\<rparr>,
      \<lparr>m_role = Assistant, m_content = ''m6''\<rparr>,
      \<lparr>m_role = User, m_content = ''m7''\<rparr>,
      \<lparr>m_role = Assistant, m_content = ''m8''\<rparr>,
      \<lparr>m_role = User, m_content = ''m9''\<rparr>,
      \<lparr>m_role = Assistant, m_content = ''m10''\<rparr>,
      \<lparr>m_role = User, m_content = ''m11''\<rparr>,
      \<lparr>m_role = Assistant, m_content = ''m12''\<rparr>]"

definition input_long :: SaveContextInput where
  "input_long =
     \<lparr>session_name = ''notes'', project_name = ''proj-a'', input_files = None,
      conversation = older_messages @ last_ten_messages, metadata = None\<rparr>"

definition summary_long :: string where
  "summary_long =
     ''# Context Engine Snapshot'' @ [CHR 0x0A, CHR 0x0A] @ ''- Session: notes'' @ [CHR 0x0A]
     @ ''- Project: proj-a'' @ [CHR 0x0A] @ ''- Generated: t0'' @ [CHR 0x0A, CHR 0x0A]
     @ ''## Metadata'' @ [CHR 0x0A] @ ''None'' @ [CHR 0x0A, CHR 0x0A] @ ''## Conversation''
     @ [CHR 0x0A]
     @ ''### USER'' @ [CHR 0x0A] @ ''m3'' @ [CHR 0x0A, CHR 0x0A]
     @ ''### ASSISTANT'' @ [CHR 0x0A] @ ''m4'' @ [CHR 0x0A, CHR 0x0A]
     @ ''### USER'' @ [CHR 0x0A] @ ''m5'' @ [CHR 0x0A, CHR 0x0A]
     @ ''### ASSISTANT'' @ [CHR 0x0A] @ ''m6'' @ [CHR 0x0A, CHR 0x0A]
     @ ''### USER'' @ [CHR 0x0A] @ ''m7'' @ [CHR 0x0A, CHR 0x0A]
     @ ''### ASSISTANT'' @ [CHR 0x0A] @ ''m8'' @ [CHR 0x0A, CHR 0x0A]
     @ ''### USER'' @ [CHR 0x0A] @ ''m9'' @ [CHR 0x0A, CHR 0x0A]
     @ ''### ASSISTANT'' @ [CHR 0x0A] @ ''m10'' @ [CHR 0x0A, CHR 0x0A]
     @ ''### USER'' @ [CHR 0x0A] @ ''m11'' @ [CHR 0x0A, CHR 0x0A]
     @ ''### ASSISTANT'' @ [CHR 0x0A] @ ''m12'' @ [CHR 0x0A]"

section \<open>Properties of the fingerprints\<close>

lemma property_list_cong:
  "map_of F = map_of G \<Longrightarrow> property_list (Some K) F = property_list (Some K) G"
  by (simp add: property_list_def)

lemma serialize_obj_cong:
  "property_list K F = property_list K G \<Longrightarrow>
   serialize K gap indent (JObj F) = serialize K gap indent (JObj G)"
  by simp

text \<open>
  Claim C6. The context fingerprint is a function of the facts record alone, and it does
  not depend on the order in which the record lists its keys: two records with the same
  entries (each key once) have the same fingerprint, whatever the digest function is.
\<close>

theorem calculateContextHash_key_order:
  assumes "distinct (map fst F)" and "distinct (map fst G)" and "set F = set G"
  shows "calculateContextHash digest F = calculateContextHash digest G"
proof -
  have m: "map_of F = map_of G"
    using assms by (simp add: map_of_inject_set)
  have "set (map fst F) = set (map fst G)"
    using assms(3) by simp
  then have k: "sort (map fst F) = sort (map fst G)"
    using assms(1,2) by (intro sorted_distinct_set_unique) simp_all
  show ?thesis
    unfolding calculateContextHash_def JSON_stringify_keys_def k
    by (rule arg_cong [where f = digest], rule serialize_obj_cong,
        rule property_list_cong, rule m)
qed

theorem calculateContextHash_key_order_witness:
  "distinct (map fst [(''react'', JBool True), (''npm_packages'', JArr [JStr ''express''])]) \<and>
   calculateContextHash (\<lambda>s. s) [(''react'', JBool True), (''npm_packages'', JArr [JStr ''express''])]
   = calculateContextHash (\<lambda>s. s) [(''npm_packages'', JArr [JStr ''express'']), (''react'', JBool True)]"
  using calculateContextHash_key_order
    [of "[(''react'', JBool True), (''npm_packages'', JArr [JStr ''express''])]"
        "[(''npm_packages'', JArr [JStr ''express'']), (''react'', JBool True)]" "\<lambda>s. s"]
  by auto

lemma to_radix_length: "0 < k \<Longrightarrow> 2 \<le> b \<Longrightarrow> n < b ^ k \<Longrightarrow> length (to_radix b n) \<le> k"
proof (induction b n arbitrary: k rule: to_radix.induct)
  case (1 b n)
  show ?case
  proof (cases "n < b")
    case True
    with 1 show ?thesis by simp
  next
    case False
    with "1.prems" have k2: "1 < k"
      by (metis One_nat_def Suc_lessI power_one_right)
    then obtain j where j: "k = Suc j" "0 < j"
      by (cases k) auto
    have "n div b < b ^ j"
      using "1.prems" j by (simp add: less_mult_imp_div_less mult.commute)
    with 1 False j have "length (to_radix b (n div b)) \<le> j" by simp
    with False "1.prems" j show ?thesis by (subst to_radix.simps) simp
  qed
qed

text \<open>The content hash is always 64 characters long: at most 8 hexadecimal digits, padded.\<close>

lemma calculateContentHash_length: "length (calculateContentHash content) = 64"
proof -
  define h where "h = sint (foldl hash_step 0 content)"
  have "- (2 ^ 31) \<le> h" and "h < 2 ^ 31"
    using sint_ge [of "foldl hash_step 0 content"] sint_lt [of "foldl hash_step 0 content"]
    by (simp_all add: h_def)
  then have "nat \<bar>h\<bar> < 16 ^ 8"
    by simp
  then have "length (to_radix 16 (nat \<bar>h\<bar>)) \<le> 8"
    by (intro to_radix_length) simp_all
  then show ?thesis
    by (simp add: calculateContentHash_def padStart_def h_def)
qed

text \<open>
  Claim C7. The content hash is a 32-bit rolling hash (\<open>hash * 31 + char\<close>), not a
  cryptographic digest: two different two-character contents already collide.
\<close>

theorem calculateContentHash_collision:
  "calculateContentHash ''Aa'' = calculateContentHash ''BB'' \<and> ''Aa'' \<noteq> ''BB''"
  by (simp add: calculateContentHash_def hash_step_def)

section \<open>What each statement of a save changes\<close>

lemma same_session_tables_refl [simp]: "same_session_tables d d"
  by (simp add: same_session_tables_def)

lemma same_session_tables_trans:
  "same_session_tables d d1 \<Longrightarrow> same_session_tables d1 d2 \<Longrightarrow> same_session_tables d d2"
  by (simp add: same_session_tables_def)

lemma insert_project_context_frame:
  "insert_project_context r d = (res, d') \<Longrightarrow>
   same_session_tables d d' \<and> project_context_snapshots d' = project_context_snapshots d"
  by (auto simp: insert_project_context_def fresh_id_def Let_def same_session_tables_def
      split: option.splits if_splits)

lemma update_project_context_frame:
  "update_project_context r d = (res, d') \<Longrightarrow>
   same_session_tables d d' \<and> project_context_snapshots d' = project_context_snapshots d
   \<and> next_id d' = next_id d"
  by (auto simp: update_project_context_def Let_def same_session_tables_def
      split: option.splits if_splits list.splits)

lemma insert_snapshot_frame:
  "insert_snapshot r d = (res, d') \<Longrightarrow>
   same_session_tables d d' \<and> project_contexts d' = project_contexts d"
  by (auto simp: insert_snapshot_def fresh_id_def Let_def same_session_tables_def split: if_splits)

lemma createOrUpdateProjectContext_cases:
  assumes "createOrUpdateProjectContext L now u pn fs descr d = (res, d')"
  obtains e where "res = Inl e" "d' = d"
  | c row where "res = Inr c" "update_project_context row d = (Inr c, d')"
      "filter (\<lambda>c. pc_user_id c = u \<and> pc_project_name c = pn) (project_contexts d) \<noteq> []"
      "pc_user_id row = u" "pc_project_name row = pn" "pc_is_active row"
  | c row where "res = Inr c" "insert_project_context row d = (Inr c, d')"
      "filter (\<lambda>c. pc_user_id c = u \<and> pc_project_name c = pn) (project_contexts d) = []"
      "pc_user_id row = u" "pc_project_name row = pn" "pc_is_active row"
  using assms unfolding createOrUpdateProjectContext_def transaction_def Let_def
  by (auto simp: context_of_facts_def split: if_splits prod.splits sum.splits)

lemma createOrUpdateProjectContext_frame:
  assumes "createOrUpdateProjectContext L now u pn fs descr d = (res, d')"
  shows "same_session_tables d d' \<and> project_context_snapshots d' = project_context_snapshots d"
  using assms
  by (rule createOrUpdateProjectContext_cases)
     (auto dest: update_project_context_frame insert_project_context_frame)

lemma createSnapshot_frame:
  assumes "createSnapshot L stamp ctx fs reason d = (res, d')"
  shows "same_session_tables d d' \<and> project_contexts d' = project_contexts d"
  using assms unfolding createSnapshot_def Let_def
  by (auto split: prod.splits dest: insert_snapshot_frame)

text \<open>Step 1 either does nothing or runs the two calls of the project manager.\<close>

lemma save_project_context_cases:
  assumes "save_project_context L now stamp input userId d = (res, d')"
  obtains "userId = None \<or> project_name input = []" "res = Inr (None, ''auto'', None)" "d' = d"
  | u e where "userId = Some u" "project_name input \<noteq> []" "res = Inl e"
      "createOrUpdateProjectContext L now u (project_name input) (normalizedFiles stamp input)
         (input_description input) d = (Inl e, d')"
  | u pc d1 e where "userId = Some u" "project_name input \<noteq> []" "res = Inl e"
      "createOrUpdateProjectContext L now u (project_name input) (normalizedFiles stamp input)
         (input_description input) d = (Inr pc, d1)"
      "createSnapshot L stamp (pc_id pc) (normalizedFiles stamp input)
         (snapshotReason_of L stamp input u d) d1 = (Inl e, d')"
  | u pc d1 snap where "userId = Some u" "project_name input \<noteq> []"
      "res = Inr (Some pc, snapshotReason_of L stamp input u d, Some (pcs_id snap))"
      "createOrUpdateProjectContext L now u (project_name input) (normalizedFiles stamp input)
         (input_description input) d = (Inr pc, d1)"
      "createSnapshot L stamp (pc_id pc) (normalizedFiles stamp input)
         (snapshotReason_of L stamp input u d) d1 = (Inr snap, d')"
  using assms unfolding save_project_context_def Let_def
  by (auto split: option.splits if_splits prod.splits sum.splits)

lemma save_project_context_frame:
  assumes "save_project_context L now stamp input userId d = (res, d')"
  shows "same_session_tables d d'"
  using assms
proof (cases rule: save_project_context_cases)
  case 1
  then show ?thesis by simp
next
  case (2 u e)
  then show ?thesis
    using createOrUpdateProjectContext_frame by blast
next
  case (3 u pc d1 e)
  then show ?thesis
    using createOrUpdateProjectContext_frame createSnapshot_frame same_session_tables_trans
    by blast
next
  case (4 u pc d1 snap)
  then show ?thesis
    using createOrUpdateProjectContext_frame createSnapshot_frame same_session_tables_trans
    by blast
qed

lemma trigger_context_frame:
  assumes "trigger_context now new d = (res, d')"
  shows "same_session_tables d d'"
  using assms unfolding trigger_context_def
  by (auto split: list.splits prod.splits sum.splits dest: insert_project_context_frame)

lemma detect_tech_stack_changes_frame:
  assumes "detect_tech_stack_changes now new d = (res, d')"
  shows "same_session_tables d d'"
proof -
  obtain r1 d1 where t: "trigger_context now new d = (r1, d1)"
    by (cases "trigger_context now new d")
  have f1: "same_session_tables d d1"
    using trigger_context_frame [OF t] .
  have "same_session_tables d1 d'"
    using assms t unfolding detect_tech_stack_changes_def
    by (auto split: prod.splits sum.splits if_splits dest: insert_snapshot_frame)
  with f1 show ?thesis
    by (rule same_session_tables_trans)
qed

lemma detect_tech_stack_changes_row:
  assumes "detect_tech_stack_changes now new d = (Inr row, d')"
  shows "row = new \<or> (\<exists>i. row = new\<lparr>s_snapshot_id := Some i\<rparr>)"
  using assms unfolding detect_tech_stack_changes_def
  by (auto split: prod.splits sum.splits if_splits)

lemma insert_session_success:
  assumes "insert_session now r d = (Inr row, d')"
  obtains sname pname new d1 where
    "pg_varchar 100 (s_name r) = Some sname" "pg_varchar 100 (s_project_name r) = Some pname"
    "detect_tech_stack_changes now (r\<lparr>s_name := sname, s_project_name := pname\<rparr>) d = (Inr new, d1)"
    "row = new\<lparr>s_id := next_id d1\<rparr>"
    "d' = d1\<lparr>next_id := Suc (next_id d1), sessions := sessions d1 @ [row]\<rparr>"
    "pg_not_blank sname" "pg_not_blank pname"
  using assms unfolding insert_session_def fresh_id_def Let_def
  by (auto split: option.splits prod.splits sum.splits if_splits)

lemma insert_session_failure:
  assumes "insert_session now r d = (Inl e, d')"
  shows "same_session_tables d d'"
  using assms unfolding insert_session_def fresh_id_def Let_def
  by (auto split: option.splits prod.splits sum.splits if_splits
      dest: detect_tech_stack_changes_frame)

lemma insert_file_result:
  assumes "insert_file r d = (res, d')"
  shows "(\<exists>e. res = Inl e \<and> d' = d) \<or>
         (\<exists>row. res = Inr row \<and> d' = d\<lparr>next_id := Suc (next_id d), files := files d @ [row]\<rparr>
            \<and> f_session_id row = f_session_id r \<and> pg_varchar 500 (f_path r) = Some (f_path row)
            \<and> f_content row = f_content r)"
  using assms unfolding insert_file_def fresh_id_def Let_def
  by (auto split: option.splits if_splits)

lemma insert_files_result:
  assumes "insert_files sid fs d = (res, d')"
  shows "users d' = users d \<and> sessions d' = sessions d \<and> conversations d' = conversations d
         \<and> project_contexts d' = project_contexts d
         \<and> project_context_snapshots d' = project_context_snapshots d
         \<and> (\<exists>rows. files d' = files d @ rows
               \<and> (res = Inr () \<longrightarrow> list_all2 (file_row_matches sid) rows fs))"
  using assms
proof (induction fs arbitrary: d)
  case Nil
  then show ?case by auto
next
  case (Cons f fs)
  let ?r = "\<lparr>f_id = 0, f_session_id = sid, f_path = fst f, f_content = snd f,
              f_content_hash = calculateContentHash (snd f),
              f_line_count = length (split_on (CHR 0x0A) (snd f))\<rparr>"
  obtain r1 d1 where i: "insert_file ?r d = (r1, d1)"
    by (cases "insert_file ?r d")
  from insert_file_result [OF i] show ?case
  proof (elim disjE exE conjE)
    fix e assume "r1 = Inl e" "d1 = d"
    with Cons.prems i show ?thesis by auto
  next
    fix row assume row: "r1 = Inr row"
      "d1 = d\<lparr>next_id := Suc (next_id d), files := files d @ [row]\<rparr>"
      "f_session_id row = f_session_id ?r" "pg_varchar 500 (f_path ?r) = Some (f_path row)"
      "f_content row = f_content ?r"
    with Cons.prems i have rest: "insert_files sid fs d1 = (res, d')" by simp
    from Cons.IH [OF rest] row show ?thesis
      by (auto simp: file_row_matches_def)
  qed
qed

lemma insert_conversation_result:
  assumes "insert_conversation r d = (res, d')"
  shows "(\<exists>e. res = Inl e \<and> d' = d) \<or>
         (\<exists>row. res = Inr row
            \<and> d' = d\<lparr>next_id := Suc (next_id d), conversations := conversations d @ [row]\<rparr>)"
  using assms unfolding insert_conversation_def fresh_id_def Let_def
  by (auto split: if_splits)

lemma insert_messages_result:
  assumes "insert_messages now sid n ms d = (res, d')"
  shows "users d' = users d \<and> sessions d' = sessions d \<and> files d' = files d
         \<and> project_contexts d' = project_contexts d
         \<and> project_context_snapshots d' = project_context_snapshots d"
  using assms
proof (induction ms arbitrary: d n)
  case Nil
  then show ?case by auto
next
  case (Cons m ms)
  let ?r = "\<lparr>c_id = 0, c_session_id = sid, c_role = m_role m, c_content = m_content m,
              c_message_order = 0, c_created_at = now - int n\<rparr>"
  obtain r1 d1 where i: "insert_conversation ?r d = (r1, d1)"
    by (cases "insert_conversation ?r d")
  from insert_conversation_result [OF i] show ?case
  proof (elim disjE exE conjE)
    fix e assume "r1 = Inl e" "d1 = d"
    with Cons.prems i show ?thesis by auto
  next
    fix row assume row: "r1 = Inr row"
      "d1 = d\<lparr>next_id := Suc (next_id d), conversations := conversations d @ [row]\<rparr>"
    with Cons.prems i have rest: "insert_messages now sid (n - 1) ms d1 = (res, d')" by simp
    from Cons.IH [OF rest] row show ?thesis by auto
  qed
qed

text \<open>What a successful run of steps 2 to 5 has written.\<close>

lemma save_session_rows_success:
  assumes "save_session_rows now stamp input userId (ctx, reason, snap) d = (Inr out, d')"
  obtains u sname pname new d1 row file_rows where
    "userId = Some u"
    "pg_varchar 100 (session_name input) = Some sname"
    "pg_varchar 100 (project_name input) = Some pname"
    "pg_not_blank pname"
    "detect_tech_stack_changes now
       \<lparr>s_id = 0, s_user_id = u, s_name = sname, s_project_name = pname,
        s_version = max_version u (session_name input) (project_name input) d + 1,
        s_metadata = session_metadata input ctx reason snap, s_snapshot_id = snap,
        s_created_at = now, s_updated_at = now\<rparr> d = (Inr new, d1)"
    "row = new\<lparr>s_id := next_id d1\<rparr>"
    "sessions d' = sessions d @ [row]"
    "files d' = files d @ file_rows"
    "list_all2 (file_row_matches (s_id row)) file_rows (normalizedFiles stamp input)"
    "project_contexts d' = project_contexts d1"
    "project_context_snapshots d' = project_context_snapshots d1"
    "users d' = users d"
    "out_session_id out = s_id row"
    "out_version out = max_version u (session_name input) (project_name input) d + 1"
    "out_project_context_id out = map_option pc_id ctx"
proof -
  from assms obtain u where u: "userId = Some u"
    by (cases userId) (auto simp: save_session_rows_def)
  let ?r = "\<lparr>s_id = 0, s_user_id = u, s_name = session_name input,
        s_project_name = project_name input,
        s_version = max_version u (session_name input) (project_name input) d + 1,
        s_metadata = session_metadata input ctx reason snap, s_snapshot_id = snap,
        s_created_at = now, s_updated_at = now\<rparr>"
  obtain r1 d2 where i1: "insert_session now ?r d = (r1, d2)"
    by (cases "insert_session now ?r d")
  from assms u i1 obtain row where r1: "r1 = Inr row"
    by (cases r1) (auto simp: save_session_rows_def Let_def)
  obtain r2 d3 where i2: "insert_files (s_id row) (normalizedFiles stamp input) d2 = (r2, d3)"
    by (cases "insert_files (s_id row) (normalizedFiles stamp input) d2")
  from assms u i1 r1 i2 have r2: "r2 = Inr ()"
    by (cases r2) (auto simp: save_session_rows_def Let_def)
  obtain r3 where i3: "insert_messages now (s_id row) (length (conversation input))
      (conversation input) d3 = (r3, d')"
    using assms u i1 r1 i2 r2
    by (cases "insert_messages now (s_id row) (length (conversation input))
      (conversation input) d3")
       (auto simp: save_session_rows_def Let_def split: sum.splits)
  from assms u i1 r1 i2 r2 i3 have out:
    "out_session_id out = s_id row"
    "out_version out = max_version u (session_name input) (project_name input) d + 1"
    "out_project_context_id out = map_option pc_id ctx"
    by (cases r3; auto simp: save_session_rows_def Let_def)+
  from i1 r1 obtain sname pname new d1 where s:
    "pg_varchar 100 (session_name input) = Some sname"
    "pg_varchar 100 (project_name input) = Some pname"
    "detect_tech_stack_changes now (?r\<lparr>s_name := sname, s_project_name := pname\<rparr>) d = (Inr new, d1)"
    "row = new\<lparr>s_id := next_id d1\<rparr>"
    "d2 = d1\<lparr>next_id := Suc (next_id d1), sessions := sessions d1 @ [row]\<rparr>"
    "pg_not_blank pname"
    by (auto elim!: insert_session_success)
  have t: "same_session_tables d d1"
    using detect_tech_stack_changes_frame [OF s(3)] .
  from insert_files_result [OF i2] r2 obtain file_rows where f:
    "users d3 = users d2" "sessions d3 = sessions d2" "conversations d3 = conversations d2"
    "project_contexts d3 = project_contexts d2"
    "project_context_snapshots d3 = project_context_snapshots d2"
    "files d3 = files d2 @ file_rows"
    "list_all2 (file_row_matches (s_id row)) file_rows (normalizedFiles stamp input)"
    by auto
  note m = insert_messages_result [OF i3]
  show ?thesis
  proof (rule that [of u sname pname new d1 row file_rows])
    show "userId = Some u" by (rule u)
    show "pg_varchar 100 (session_name input) = Some sname" by (rule s(1))
    show "pg_varchar 100 (project_name input) = Some pname" by (rule s(2))
    show "pg_not_blank pname" by (rule s(6))
    show "detect_tech_stack_changes now
       \<lparr>s_id = 0, s_user_id = u, s_name = sname, s_project_name = pname,
        s_version = max_version u (session_name input) (project_name input) d + 1,
        s_metadata = session_metadata input ctx reason snap, s_snapshot_id = snap,
        s_created_at = now, s_updated_at = now\<rparr> d = (Inr new, d1)"
      using s(3) by simp
    show "row = new\<lparr>s_id := next_id d1\<rparr>" by (rule s(4))
    show "sessions d' = sessions d @ [row]"
      using m f s(5) t by (simp add: same_session_tables_def)
    show "files d' = files d @ file_rows"
      using m f s(5) t by (simp add: same_session_tables_def)
    show "list_all2 (file_row_matches (s_id row)) file_rows (normalizedFiles stamp input)"
      by (rule f(7))
    show "project_contexts d' = project_contexts d1" using m f s(5) by simp
    show "project_context_snapshots d' = project_context_snapshots d1" using m f s(5) by simp
    show "users d' = users d" using m f s(5) t by (simp add: same_session_tables_def)
  qed (rule out)+
qed

lemma saveSession_success:
  assumes "saveSession L now stamp input userId d = (Inr out, d')"
  obtains ctx reason snap d1 where
    "save_project_context L now stamp input userId d = (Inr (ctx, reason, snap), d1)"
    "save_session_rows now stamp input userId (ctx, reason, snap) d1 = (Inr out, d')"
  using assms unfolding saveSession_def transaction_def
  by (auto split: prod.splits sum.splits)

text \<open>
  A failed save leaves the tables of the session itself as they were: its session, file
  and conversation rows are rolled back together.
\<close>

lemma saveSession_failure:
  assumes "saveSession L now stamp input userId d = (Inl e, d')"
  shows "same_session_tables d d'"
  using assms unfolding saveSession_def transaction_def
  by (auto split: prod.splits sum.splits dest: save_project_context_frame)

section \<open>Versions\<close>

lemma pg_varchar_fits: "length s \<le> n \<Longrightarrow> pg_varchar n s = Some s"
  by (simp add: pg_varchar_def)

lemma max_version_versions_of:
  "max_version u sname pname d =
     (case versions_of u sname pname d of [] \<Rightarrow> 0 | v # vs \<Rightarrow> foldl max v vs)"
  by (simp add: max_version_def versions_of_def)

text \<open>The session row that a successful save appends.\<close>

lemma saveSession_session_row:
  assumes "saveSession L now stamp input userId d = (Inr out, d')"
    and "length (session_name input) \<le> 100" and "length (project_name input) \<le> 100"
  obtains u row where "userId = Some u" "sessions d' = sessions d @ [row]"
    "s_id row = out_session_id out"
    "s_user_id row = u" "s_name row = session_name input" "s_project_name row = project_name input"
    "s_version row = out_version out"
    "out_version out = max_version u (session_name input) (project_name input) d + 1"
proof -
  from assms(1) obtain ctx reason snap d1 where
    p: "save_project_context L now stamp input userId d = (Inr (ctx, reason, snap), d1)" and
    r: "save_session_rows now stamp input userId (ctx, reason, snap) d1 = (Inr out, d')"
    by (rule saveSession_success)
  have f: "sessions d1 = sessions d"
    using save_project_context_frame [OF p] by (simp add: same_session_tables_def)
  then have mv: "max_version u (session_name input) (project_name input) d1
      = max_version u (session_name input) (project_name input) d" for u
    by (simp add: max_version_def)
  from r obtain u sname pname new d2 row where s:
    "userId = Some u"
    "pg_varchar 100 (session_name input) = Some sname"
    "pg_varchar 100 (project_name input) = Some pname"
    "detect_tech_stack_changes now
       \<lparr>s_id = 0, s_user_id = u, s_name = sname, s_project_name = pname,
        s_version = max_version u (session_name input) (project_name input) d1 + 1,
        s_metadata = session_metadata input ctx reason snap, s_snapshot_id = snap,
        s_created_at = now, s_updated_at = now\<rparr> d1 = (Inr new, d2)"
    "row = new\<lparr>s_id := next_id d2\<rparr>"
    "sessions d' = sessions d1 @ [row]"
    "out_session_id out = s_id row"
    "out_version out = max_version u (session_name input) (project_name input) d1 + 1"
    by (rule save_session_rows_success)
  from s(2,3) assms(2,3) have n: "sname = session_name input" "pname = project_name input"
    by (simp_all add: pg_varchar_fits)
  from detect_tech_stack_changes_row [OF s(4)] s(5) have
    "s_user_id row = u \<and> s_name row = sname \<and> s_project_name row = pname
     \<and> s_version row = max_version u (session_name input) (project_name input) d1 + 1"
    by auto
  with s n f mv show ?thesis
    by (intro that [of u row]) simp_all
qed

lemma saveSession_versions_of:
  assumes "saveSession L now stamp input userId d = (r, d')"
    and "length (session_name input) \<le> 100" and "length (project_name input) \<le> 100"
  shows "versions_of u sname pname d' =
           (if saved_under u sname pname ((now, stamp, input, userId), r)
            then versions_of u sname pname d @ [max_version u sname pname d + 1]
            else versions_of u sname pname d)"
proof (cases r)
  case (Inl e)
  with assms(1) have "sessions d' = sessions d"
    using saveSession_failure by (auto simp: same_session_tables_def)
  with Inl show ?thesis
    by (simp add: versions_of_def saved_under_def)
next
  case (Inr out)
  with assms obtain u' row where row: "userId = Some u'" "sessions d' = sessions d @ [row]"
    "s_user_id row = u'" "s_name row = session_name input" "s_project_name row = project_name input"
    "s_version row = out_version out"
    "out_version out = max_version u' (session_name input) (project_name input) d + 1"
    by (auto elim!: saveSession_session_row)
  with Inr show ?thesis
    by (auto simp: versions_of_def saved_under_def)
qed

lemma foldl_max_upto:
  "1 \<le> k \<Longrightarrow> (case [1..k] of [] \<Rightarrow> 0 | v # vs \<Rightarrow> foldl max v vs) = k"
proof (induction "nat (k - 1)" arbitrary: k)
  case 0
  then have "k = 1" by simp
  then show ?case by (simp add: upto.simps)
next
  case (Suc n)
  then have k: "2 \<le> k" and n: "n = nat (k - 1 - 1)" by simp_all
  then have ih: "(case [1..k - 1] of [] \<Rightarrow> 0 | v # vs \<Rightarrow> foldl max v vs) = k - 1"
    using Suc.hyps(1) [of "k - 1"] by simp
  have "[1..k] = [1..k - 1] @ [k]"
    using k by (simp add: upto_rec2)
  moreover obtain v vs where "[1..k - 1] = v # vs"
    using k by (cases "[1..k - 1]") (auto simp: upto.simps split: if_splits)
  ultimately show ?case
    using ih by simp
qed

lemma max_version_upto:
  assumes "versions_of u sname pname d = [1..k]" and "0 \<le> k"
  shows "max_version u sname pname d = k"
proof (cases "k = 0")
  case True
  with assms show ?thesis by (simp add: max_version_versions_of)
next
  case False
  with assms(2) have "1 \<le> k" by simp
  from foldl_max_upto [OF this] assms(1) show ?thesis
    by (simp add: max_version_versions_of)
qed

lemma run_saves_versions:
  assumes "run_saves L calls d = (results, d')"
    and "list_all names_fit calls"
    and "versions_of u sname pname d = [1..k]" and "0 \<le> k"
  shows "versions_of u sname pname d' =
           [1..k + int (length (filter (saved_under u sname pname) (zip calls results)))]"
  using assms
proof (induction calls arbitrary: d results k)
  case Nil
  then show ?case by simp
next
  case (Cons c calls)
  obtain now stamp input userId where c: "c = (now, stamp, input, userId)"
    by (cases c)
  obtain r d1 where s: "saveSession L now stamp input userId d = (r, d1)"
    by (cases "saveSession L now stamp input userId d")
  obtain rs where rest: "run_saves L calls d1 = (rs, d')" and results: "results = r # rs"
    using Cons.prems(1) c s by (auto split: prod.splits)
  from Cons.prems(2) have fitc: "names_fit c" and fits: "list_all names_fit calls"
    by simp_all
  from fitc c have fit: "length (session_name input) \<le> 100"
    "length (project_name input) \<le> 100"
    by (simp_all add: names_fit_def)
  note v = saveSession_versions_of [OF s fit, of u sname pname]
  show ?case
  proof (cases "saved_under u sname pname (c, r)")
    case True
    with v c Cons.prems(3,4) have "versions_of u sname pname d1 = [1..k] @ [k + 1]"
      by (simp add: max_version_upto)
    then have "versions_of u sname pname d1 = [1..k + 1]"
      using Cons.prems(4) by (simp add: upto_rec2)
    from Cons.IH [OF rest fits this] Cons.prems(4) True results show ?thesis
      by (simp add: ac_simps)
  next
    case False
    with v c Cons.prems(3) have "versions_of u sname pname d1 = [1..k]"
      by simp
    from Cons.IH [OF rest fits this Cons.prems(4)] False results show ?thesis
      by simp
  qed
qed

section \<open>Snapshots\<close>

lemma foldl_max_ge: "(a::int) \<le> foldl max a xs"
proof (induction xs arbitrary: a)
  case Nil
  show ?case by simp
next
  case (Cons x xs)
  have "a \<le> max a x" by simp
  also have "\<dots> \<le> foldl max (max a x) xs" by (rule Cons.IH)
  finally show ?case by simp
qed

lemma max_snapshot_version_nonneg: "0 \<le> max_snapshot_version d ctx"
  by (simp add: max_snapshot_version_def foldl_max_ge)

lemma insert_snapshot_success:
  assumes "insert_snapshot r d = (Inr snap, d')"
  shows "snap = r\<lparr>pcs_id := next_id d\<rparr>"
    "d' = d\<lparr>next_id := Suc (next_id d),
             project_context_snapshots := project_context_snapshots d @ [snap]\<rparr>"
  using assms unfolding insert_snapshot_def fresh_id_def Let_def
  by (auto split: if_splits)

lemma createSnapshot_success:
  assumes "createSnapshot L stamp ctx fs reason d = (Inr snap, d')"
  shows "project_context_snapshots d' = project_context_snapshots d @ [snap]"
    "project_contexts d' = project_contexts d"
    "pcs_project_context_id snap = ctx" "pcs_snapshot_reason snap = reason"
    "pcs_snapshot_version snap = max_snapshot_version d ctx + 1"
    "max_snapshot_version d' ctx \<noteq> 0"
proof -
  obtain deps devDeps where dd: "dependencies_of (JSON_parse L) fs = (deps, devDeps)"
    by (cases "dependencies_of (JSON_parse L) fs")
  let ?r = "\<lparr>pcs_id = 0, pcs_project_context_id = ctx,
            pcs_snapshot_version = max_snapshot_version d ctx + 1,
            pcs_file_tree = to_json (JObj (file_tree_of stamp fs)),
            pcs_key_files = to_json (JArr (key_files_of fs)),
            pcs_dependencies = to_json deps, pcs_dev_dependencies = to_json devDeps,
            pcs_snapshot_reason = reason, pcs_created_by = ''auto''\<rparr>"
  from assms dd have i: "insert_snapshot ?r d = (Inr snap, d')"
    by (simp add: createSnapshot_def Let_def)
  note s = insert_snapshot_success [OF i]
  show "project_context_snapshots d' = project_context_snapshots d @ [snap]"
    and "project_contexts d' = project_contexts d"
    and c: "pcs_project_context_id snap = ctx" and "pcs_snapshot_reason snap = reason"
    and v: "pcs_snapshot_version snap = max_snapshot_version d ctx + 1"
    using s by simp_all
  have "max_snapshot_version d' ctx = max (max_snapshot_version d ctx) (max_snapshot_version d ctx + 1)"
    using s c v by (simp add: max_snapshot_version_def)
  then show "max_snapshot_version d' ctx \<noteq> 0"
    using max_snapshot_version_nonneg [of d ctx] by simp
qed

text \<open>After \<open>createOrUpdateProjectContext\<close> the context it returns is the active context
  that a lookup by user and project name finds first.\<close>

lemma filter_map_update:
  assumes "\<And>c. hit c \<Longrightarrow> P (upd c)" and "\<And>c. \<not> hit c \<Longrightarrow> upd c = c \<and> \<not> P c"
  shows "filter P (map upd cs) = map upd (filter hit cs)"
  using assms by (induction cs) auto

lemma update_project_context_lookup:
  assumes "update_project_context row d = (Inr c, d')"
    and "pc_is_active row"
  shows "\<exists>rest. filter (\<lambda>c. pc_user_id c = pc_user_id row \<and> pc_project_name c = pc_project_name row
                            \<and> pc_is_active c) (project_contexts d') = c # rest"
proof -
  let ?hit = "\<lambda>c. pc_user_id c = pc_user_id row \<and> pc_project_name c = pc_project_name row"
  let ?upd = "\<lambda>c. if ?hit c then row\<lparr>pc_id := pc_id c\<rparr> else c"
  from assms(1) obtain c0 rest where
    f: "filter ?hit (project_contexts d) = c0 # rest" and c: "c = ?upd c0"
    and d': "project_contexts d' = map ?upd (project_contexts d)"
    unfolding update_project_context_def Let_def
    by (auto split: if_splits list.splits)
  have "filter (\<lambda>c. ?hit c \<and> pc_is_active c) (map ?upd (project_contexts d))
        = map ?upd (filter ?hit (project_contexts d))"
    using assms(2) by (intro filter_map_update) auto
  with f c d' show ?thesis by simp
qed

lemma insert_project_context_lookup:
  assumes "insert_project_context row d = (Inr c, d')"
    and "filter (\<lambda>c. pc_user_id c = pc_user_id row \<and> pc_project_name c = pc_project_name row)
           (project_contexts d) = []"
    and "length (pc_project_name row) \<le> 100" and "pc_is_active row"
  shows "filter (\<lambda>c. pc_user_id c = pc_user_id row \<and> pc_project_name c = pc_project_name row
                      \<and> pc_is_active c) (project_contexts d') = [c]"
proof -
  from assms(1,3) have c: "c = row\<lparr>pc_id := next_id d\<rparr>"
    and d': "project_contexts d' = project_contexts d @ [c]"
    unfolding insert_project_context_def fresh_id_def Let_def
    by (auto simp: pg_varchar_fits split: if_splits)
  have "filter (\<lambda>c. pc_user_id c = pc_user_id row \<and> pc_project_name c = pc_project_name row
                      \<and> pc_is_active c) (project_contexts d) = []"
    using assms(2) by (auto simp: filter_empty_conv)
  with c d' assms(4) show ?thesis by simp
qed

lemma createOrUpdateProjectContext_lookup:
  assumes "createOrUpdateProjectContext L now u pn fs descr d = (Inr pc, d')"
    and "length pn \<le> 100"
  shows "\<exists>rest. filter (\<lambda>c. pc_user_id c = u \<and> pc_project_name c = pn \<and> pc_is_active c)
                   (project_contexts d') = pc # rest"
  using assms(1)
proof (cases rule: createOrUpdateProjectContext_cases)
  case (1 e)
  then show ?thesis by simp
next
  case (2 c row)
  with update_project_context_lookup [of row d c d'] show ?thesis by auto
next
  case (3 c row)
  with insert_project_context_lookup [of row d c d'] assms(2) show ?thesis by auto
qed

text \<open>The trigger does nothing where the context already has a snapshot.\<close>

lemma detect_tech_stack_changes_noop:
  assumes "filter (\<lambda>c. pc_user_id c = s_user_id new \<and> pc_project_name c = s_project_name new
                        \<and> pc_is_active c) (project_contexts d) = c # rest"
    and "max_snapshot_version d (pc_id c) \<noteq> 0"
  shows "detect_tech_stack_changes now new d = (Inr new, d)"
  using assms by (simp add: detect_tech_stack_changes_def trigger_context_def)

text \<open>What a successful save has written to the project tables and the session row.\<close>

lemma saveSession_snapshot:
  assumes "saveSession L now stamp input userId d = (Inr out, d')"
    and "length (project_name input) \<le> 100"
  obtains u pc snap row where "userId = Some u"
    "project_context_snapshots d' = project_context_snapshots d @ [snap]"
    "pcs_snapshot_reason snap = snapshotReason_of L stamp input u d"
    "pcs_project_context_id snap = pc_id pc"
    "sessions d' = sessions d @ [row]" "s_id row = out_session_id out"
    "s_snapshot_id row = Some (pcs_id snap)"
    "s_metadata row = session_metadata input (Some pc) (snapshotReason_of L stamp input u d)
                        (Some (pcs_id snap))"
    "out_project_context_id out = Some (pc_id pc)"
proof -
  from assms(1) obtain ctx reason sn d1 where
    p: "save_project_context L now stamp input userId d = (Inr (ctx, reason, sn), d1)" and
    r: "save_session_rows now stamp input userId (ctx, reason, sn) d1 = (Inr out, d')"
    by (rule saveSession_success)
  from r obtain u sname pname new d2 row where s:
    "userId = Some u"
    "pg_varchar 100 (project_name input) = Some pname"
    "pg_not_blank pname"
    "detect_tech_stack_changes now
       \<lparr>s_id = 0, s_user_id = u, s_name = sname, s_project_name = pname,
        s_version = max_version u (session_name input) (project_name input) d1 + 1,
        s_metadata = session_metadata input ctx reason sn, s_snapshot_id = sn,
        s_created_at = now, s_updated_at = now\<rparr> d1 = (Inr new, d2)"
    "row = new\<lparr>s_id := next_id d2\<rparr>"
    "sessions d' = sessions d1 @ [row]"
    "project_contexts d' = project_contexts d2"
    "project_context_snapshots d' = project_context_snapshots d2"
    "out_session_id out = s_id row"
    "out_project_context_id out = map_option pc_id ctx"
    by (rule save_session_rows_success)
  from s(2) assms(2) have pname: "pname = project_name input"
    by (simp add: pg_varchar_fits)
  with s(3) have ne: "project_name input \<noteq> []"
    by (auto simp: pg_not_blank_def)
  from p s(1) ne obtain pc da snap where q:
    "ctx = Some pc" "reason = snapshotReason_of L stamp input u d" "sn = Some (pcs_id snap)"
    "createOrUpdateProjectContext L now u (project_name input) (normalizedFiles stamp input)
       (input_description input) d = (Inr pc, da)"
    "createSnapshot L stamp (pc_id pc) (normalizedFiles stamp input)
       (snapshotReason_of L stamp input u d) da = (Inr snap, d1)"
    by (cases rule: save_project_context_cases) auto
  note cs = createSnapshot_success [OF q(5)]
  from createOrUpdateProjectContext_lookup [OF q(4) assms(2)] cs(2) obtain rest where
    "filter (\<lambda>c. pc_user_id c = u \<and> pc_project_name c = project_name input \<and> pc_is_active c)
       (project_contexts d1) = pc # rest"
    by auto
  with cs(6) pname have "detect_tech_stack_changes now
       \<lparr>s_id = 0, s_user_id = u, s_name = sname, s_project_name = pname,
        s_version = max_version u (session_name input) (project_name input) d1 + 1,
        s_metadata = session_metadata input ctx reason sn, s_snapshot_id = sn,
        s_created_at = now, s_updated_at = now\<rparr> d1 =
      (Inr \<lparr>s_id = 0, s_user_id = u, s_name = sname, s_project_name = pname,
        s_version = max_version u (session_name input) (project_name input) d1 + 1,
        s_metadata = session_metadata input ctx reason sn, s_snapshot_id = sn,
        s_created_at = now, s_updated_at = now\<rparr>, d1)"
    by (intro detect_tech_stack_changes_noop [of _ _ pc rest]) simp_all
  with s(4) have new: "d2 = d1" "s_snapshot_id new = sn"
    "s_metadata new = session_metadata input ctx reason sn"
    by auto
  have snaps: "project_context_snapshots da = project_context_snapshots d"
    using createOrUpdateProjectContext_frame [OF q(4)] by simp
  have sess: "sessions d1 = sessions d"
    using save_project_context_frame [OF p] by (simp add: same_session_tables_def)
  show ?thesis
  proof (rule that [of u snap pc row])
    show "userId = Some u" by (rule s(1))
    show "project_context_snapshots d' = project_context_snapshots d @ [snap]"
      using s(8) new(1) cs(1) snaps by simp
    show "pcs_snapshot_reason snap = snapshotReason_of L stamp input u d" by (rule cs(4))
    show "pcs_project_context_id snap = pc_id pc" by (rule cs(3))
    show "sessions d' = sessions d @ [row]" using s(6) sess by simp
    show "s_id row = out_session_id out" using s(9) by simp
    show "s_snapshot_id row = Some (pcs_id snap)" using s(5) new(2) q(3) by simp
    show "s_metadata row = session_metadata input (Some pc) (snapshotReason_of L stamp input u d)
                        (Some (pcs_id snap))"
      using s(5) new(3) q(1,2,3) by simp
    show "out_project_context_id out = Some (pc_id pc)" using s(10) q(1) by simp
  qed
qed

section \<open>Evaluating the examples\<close>

lemma number_text_small: "a < 9007199254740992 \<Longrightarrow> number_text a = to_radix 10 a"
  by (simp add: number_text_def)

lemma replicate_numeral: "replicate (numeral k) c = c # replicate (pred_numeral k) c"
  by (simp add: numeral_eq_Suc)

lemmas js_eval =
  toLowerCase_def toUpperCase_def lower_char_def upper_char_def upper_letters_def lower_letters_def
  digit_char_def show_int_def number_text_small padStart_def hex4_def quote_char_def quote_def property_list_def
  JSON_stringify_def JSON_stringify_keys_def JSON_stringify_pretty_def set_add_def
  js_whitespace_def js_trim_def dq_def sq_def replicate_numeral

lemmas detect_eval =
  detectTechStack_def default_project_type_def initial_tech_info_def
  detect_file_def detect_go_def detect_cargo_def detect_requirements_def detect_tsconfig_def
  detect_package_json_def detect_package_type_def detect_test_framework_def
  detect_build_system_def keys_or_empty_def detect_python_def detect_js_def stack_set_def
  add_language_def file_ext_def

lemmas save_eval =
  pg_text_def pg_text_opt_def pg_integer_def context_text_ok_def context_jsonb_ok_def
  pg_varchar_def pg_not_blank_def valid_project_types_def valid_snapshot_reasons_def fresh_id_def
  insert_project_context_def insert_snapshot_def max_snapshot_version_def empty_context_def
  trigger_context_def bootstrap_snapshot_def
  detect_tech_stack_changes_def insert_session_def insert_file_def insert_conversation_def
  transaction_def
  getProjectContext_def update_project_context_def js_or_null_def str_or_null_def
  context_of_facts_def createOrUpdateProjectContext_def or_unknown_def file_tree_of_def
  key_file_names_def is_key_file_def key_files_of_def or_empty_object_def dependencies_of_def
  createSnapshot_def filesWereSynthetic_def input_description_def snapshotReason_of_def
  currentContextHash_def
  uuid_text_def save_project_context_def max_version_def session_metadata_def
  save_session_rows_def saveSession_def file_ext_def normalizedFiles_def

lemma input_ts_simps:
  "session_name input_ts = ''bug-fix''" "project_name input_ts = ''proj-a''"
  "input_files input_ts = Some [(''a.ts'', ''let x'')]"
  "conversation input_ts = [\<lparr>m_role = User, m_content = ''hello''\<rparr>]"
  "metadata input_ts = Some [(''tag'', JStr ''x'')]"
  by (simp_all add: input_ts_def)

lemma lib0_simps: "JSON_parse lib0 = parse0" "sha256_hex lib0 = digest0"
  by (simp_all add: lib0_def)

lemma detect_ts:
  "detectTechStack parse0 [(''a.ts'', ''let x'')] =
     \<lparr>tech_stack = [], project_type = ''cli-tool'', programming_languages = [''typescript''],
      build_system = None, test_framework = None\<rparr>"
  by (simp add: js_eval detect_eval Let_def)

lemma digest_empty:
  "calculateContextHash digest0 [] =
     ''00000000000000000000000000000000000000000000000000000000000000{}''"
  by (simp add: calculateContextHash_def digest0_def js_eval)

lemma hash_let_x:
  "calculateContentHash ''let x'' =
     ''0000000000000000000000000000000000000000000000000000000006218bb3''"
  by (simp add: calculateContentHash_def hash_step_def js_eval)

lemma save_ts_first:
  "saveSession lib0 100 ''t0'' input_ts (Some 3) store0 = (Inr out1, store1)"
  by (simp add: save_eval lib0_simps input_ts_simps detect_ts digest_empty hash_let_x
      store0_def store1_def out1_def digit_char_def show_int_def number_text_small toLowerCase_def lower_char_def
      upper_letters_def lower_letters_def Let_def)

lemma save_ts_second:
  "(case saveSession lib0 200 ''t1'' input_ts (Some 3) store1 of
      (r, d) \<Rightarrow> r = Inr out2 \<and> map s_version (sessions d) = [1, 2]
                \<and> map pcs_snapshot_reason (project_context_snapshots d) = [''auto'', ''auto''])"
  by (simp add: save_eval lib0_simps input_ts_simps detect_ts digest_empty hash_let_x
      store1_def out2_def digit_char_def show_int_def number_text_small toLowerCase_def lower_char_def
      upper_letters_def lower_letters_def Let_def)

lemma input_react_simps:
  "session_name input_react = ''bug-fix''" "project_name input_react = ''proj-a''"
  "input_files input_react = Some [(''a.tsx'', ''import React'')]"
  "conversation input_react = [\<lparr>m_role = User, m_content = ''hello''\<rparr>]"
  "metadata input_react = Some [(''tag'', JStr ''x'')]"
  by (simp_all add: input_react_def)

lemma detect_react:
  "detectTechStack parse0 [(''a.tsx'', ''import React'')] =
     \<lparr>tech_stack = [(''react'', JBool True)], project_type = ''web-app'',
      programming_languages = [''typescript''], build_system = None, test_framework = None\<rparr>"
  by (simp add: js_eval detect_eval Let_def)

lemma digest_react:
  "calculateContextHash digest0 [(''react'', JBool True)] =
     replicate 50 (CHR ''0'') @ ''{'' @ [dq] @ ''react'' @ [dq] @ '':true}''"
  by (simp add: calculateContextHash_def digest0_def js_eval)

lemma hash_import_react:
  "calculateContentHash ''import React'' =
     ''000000000000000000000000000000000000000000000000000000002cf16124''"
  by (simp add: calculateContentHash_def hash_step_def js_eval)

lemma save_react_second:
  "(case saveSession lib0 200 ''t1'' input_react (Some 3) store1 of
      (r, d) \<Rightarrow> r = Inr out2
                \<and> map pcs_snapshot_reason (project_context_snapshots d) = [''auto'', ''tech-change''])"
  by (simp add: save_eval lib0_simps input_react_simps detect_react digest_react hash_import_react
      store1_def out2_def digit_char_def show_int_def number_text_small toLowerCase_def lower_char_def
      upper_letters_def lower_letters_def Let_def dq_def replicate_numeral)

lemma input_two_simps:
  "session_name input_two = ''bug-fix''" "project_name input_two = ''proj-a''"
  "input_files input_two = Some [(''a.ts'', ''let x'')]"
  "conversation input_two = [\<lparr>m_role = User, m_content = ''hello''\<rparr>,
                             \<lparr>m_role = Assistant, m_content = ''hi''\<rparr>]"
  "metadata input_two = None"
  by (simp_all add: input_two_def)

text \<open>
  Claim C1. A save whose conversation has two messages fails at the second
  \<open>INSERT INTO conversations\<close>, after the session row, the file row and the first
  conversation row were written. The rollback removes those rows, but the project
  context and the snapshot written for the same save stay: they went through
  \<open>this.db\<close>, outside the transaction.
\<close>

theorem saveSession_failure_keeps_project_rows:
  "(case saveSession lib0 100 ''t0'' input_two (Some 3) store0 of
      (r, d) \<Rightarrow> r = Inl (DbError ''duplicate key: conversations_session_order_unique'')
                \<and> sessions d = [] \<and> files d = [] \<and> conversations d = []
                \<and> map pc_project_name (project_contexts d) = [''proj-a'']
                \<and> map pcs_snapshot_version (project_context_snapshots d) = [1])
   \<and> project_contexts store0 = [] \<and> project_context_snapshots store0 = []"
  by (simp add: save_eval lib0_simps input_two_simps detect_ts digest_empty hash_let_x
      store0_def digit_char_def show_int_def number_text_small toLowerCase_def lower_char_def
      upper_letters_def lower_letters_def Let_def)

text \<open>
  Claim C2. A successful save takes the version after the highest one stored under its
  (user, session name, project name) key, or 1 when there is none. Running any sequence
  of saves from a store with no session under a key, every successful save under the
  key adds the next version: the versions under the key are 1, 2, ..., N in save order,
  N the number of successful saves under the key, whatever the other saves were.
\<close>

theorem saveSession_versions:
  "(saveSession L now stamp input userId d = (Inr out, d') \<longrightarrow>
      (\<exists>u. userId = Some u \<and>
           out_version out =
             (case versions_of u (session_name input) (project_name input) d of
                [] \<Rightarrow> 1
              | v # vs \<Rightarrow> foldl max v vs + 1))) \<and>
   (run_saves L calls d0 = (results, d1) \<and> list_all names_fit calls
      \<and> versions_of u sname pname d0 = [] \<longrightarrow>
      versions_of u sname pname d1 =
        [1..int (length (filter (saved_under u sname pname) (zip calls results)))])"
proof (intro conjI impI)
  assume a: "saveSession L now stamp input userId d = (Inr out, d')"
  then obtain ctx reason snap da where
    p: "save_project_context L now stamp input userId d = (Inr (ctx, reason, snap), da)" and
    r: "save_session_rows now stamp input userId (ctx, reason, snap) da = (Inr out, d')"
    by (rule saveSession_success)
  have "sessions da = sessions d"
    using save_project_context_frame [OF p] by (simp add: same_session_tables_def)
  then have mv: "max_version u (session_name input) (project_name input) da
      = max_version u (session_name input) (project_name input) d" for u
    by (simp add: max_version_def)
  from r obtain u where "userId = Some u"
    "out_version out = max_version u (session_name input) (project_name input) da + 1"
    by (rule save_session_rows_success)
  with mv show "\<exists>u. userId = Some u \<and>
           out_version out =
             (case versions_of u (session_name input) (project_name input) d of
                [] \<Rightarrow> 1
              | v # vs \<Rightarrow> foldl max v vs + 1)"
    by (auto simp: max_version_versions_of split: list.splits)
next
  assume b: "run_saves L calls d0 = (results, d1) \<and> list_all names_fit calls
      \<and> versions_of u sname pname d0 = []"
  then have "versions_of u sname pname d0 = [1..0]" by simp
  with b run_saves_versions [of L calls d0 results d1 u sname pname 0]
  show "versions_of u sname pname d1 =
        [1..int (length (filter (saved_under u sname pname) (zip calls results)))]"
    by simp
qed

theorem saveSession_versions_witness:
  "saveSession lib0 100 ''t0'' input_ts (Some 3) store0 = (Inr out1, store1)
   \<and> out_version out1 = 1
   \<and> versions_of 3 ''bug-fix'' ''proj-a'' store0 = []
   \<and> list_all names_fit [(100, ''t0'', input_ts, Some 3), (200, ''t1'', input_ts, Some 3)]
   \<and> fst (run_saves lib0 [(100, ''t0'', input_ts, Some 3), (200, ''t1'', input_ts, Some 3)] store0)
       = [Inr out1, Inr out2]
   \<and> versions_of 3 ''bug-fix'' ''proj-a''
        (snd (run_saves lib0 [(100, ''t0'', input_ts, Some 3), (200, ''t1'', input_ts, Some 3)] store0))
       = [1, 2]"
proof -
  let ?calls = "[(100, ''t0'', input_ts, Some 3), (200, ''t1'', input_ts, Some 3)]"
  obtain r2 d2 where s2: "saveSession lib0 200 ''t1'' input_ts (Some 3) store1 = (r2, d2)"
    by (cases "saveSession lib0 200 ''t1'' input_ts (Some 3) store1")
  with save_ts_second have r2: "r2 = Inr out2" by simp
  have run: "run_saves lib0 ?calls store0 = ([Inr out1, Inr out2], d2)"
    by (simp add: save_ts_first s2 r2)
  have fit: "list_all names_fit ?calls"
    by (simp add: names_fit_def input_ts_simps)
  have v0: "versions_of 3 ''bug-fix'' ''proj-a'' store0 = []"
    by (simp add: versions_of_def store0_def)
  have "versions_of 3 ''bug-fix'' ''proj-a'' d2 =
        [1..int (length (filter (saved_under 3 ''bug-fix'' ''proj-a'')
                   (zip ?calls [Inr out1, Inr out2])))]"
    using saveSession_versions [of lib0 100 "''t0''" input_ts "Some 3" store0 out1 store1
        ?calls store0 "[Inr out1, Inr out2]" d2 3 "''bug-fix''" "''proj-a''"]
      run fit v0 by blast
  then have "versions_of 3 ''bug-fix'' ''proj-a'' d2 = [1, 2]"
    by (simp add: saved_under_def input_ts_simps upto.simps)
  with run fit v0 save_ts_first show ?thesis
    by (simp add: out1_def)
qed

text \<open>
  Claim C3, as the code has it. Every successful save creates exactly one new snapshot.
  Its reason is \<open>tech-change\<close> when an active context of the user and project existed
  whose stored fingerprint differs from the fingerprint of the facts detected now, and
  \<open>auto\<close> otherwise: on the first save of the project, and when the facts are unchanged.
\<close>

theorem saveSession_snapshot_reason:
  assumes "saveSession L now stamp input userId d = (Inr out, d')"
    and "length (project_name input) \<le> 100"
  shows "\<exists>u snap. userId = Some u
           \<and> project_context_snapshots d' = project_context_snapshots d @ [snap]
           \<and> pcs_snapshot_reason snap =
               (case getProjectContext u (project_name input) d of
                  None \<Rightarrow> ''auto''
                | Some c \<Rightarrow> if pc_context_hash c \<noteq> Some (currentContextHash L stamp input)
                            then ''tech-change'' else ''auto'')"
proof -
  from assms obtain u snap where "userId = Some u"
    "project_context_snapshots d' = project_context_snapshots d @ [snap]"
    "pcs_snapshot_reason snap = snapshotReason_of L stamp input u d"
    by (rule saveSession_snapshot)
  then show ?thesis
    by (auto simp: snapshotReason_of_def)
qed

theorem saveSession_snapshot_reason_witness:
  "length (project_name input_react) \<le> 100
   \<and> fst (saveSession lib0 200 ''t1'' input_react (Some 3) store1) = Inr out2
   \<and> (\<exists>snap. project_context_snapshots (snd (saveSession lib0 200 ''t1'' input_react (Some 3) store1))
                = project_context_snapshots store1 @ [snap]
              \<and> pcs_snapshot_reason snap = ''tech-change'')"
proof -
  obtain r d where s: "saveSession lib0 200 ''t1'' input_react (Some 3) store1 = (r, d)"
    by (cases "saveSession lib0 200 ''t1'' input_react (Some 3) store1")
  with save_react_second have r: "r = Inr out2" by simp
  have len: "length (project_name input_react) \<le> 100"
    by (simp add: input_react_simps)
  have old: "getProjectContext 3 (project_name input_react) store1 \<noteq> None"
    "map_option pc_context_hash (getProjectContext 3 (project_name input_react) store1)
      = Some (Some ''00000000000000000000000000000000000000000000000000000000000000{}'')"
    by (simp_all add: getProjectContext_def store1_def input_react_simps)
  have new: "currentContextHash lib0 ''t1'' input_react
      \<noteq> ''00000000000000000000000000000000000000000000000000000000000000{}''"
    by (simp add: currentContextHash_def normalizedFiles_def input_react_simps lib0_simps
        detect_react digest_react replicate_numeral)
  from saveSession_snapshot_reason [OF s [unfolded r] len] old new
  have "\<exists>snap. project_context_snapshots d = project_context_snapshots store1 @ [snap]
              \<and> pcs_snapshot_reason snap = ''tech-change''"
    by (auto split: option.splits if_splits)
  with s r len show ?thesis by simp
qed

text \<open>
  The claim as written fails: in the store left by a first save of the project, a
  second save of the same files finds the stored fingerprint equal to the fresh one and
  still creates a snapshot, with reason \<open>auto\<close>.
\<close>

theorem saveSession_unchanged_facts_counterexample:
  "saveSession lib0 100 ''t0'' input_ts (Some 3) store0 = (Inr out1, store1)
   \<and> map_option pc_context_hash (getProjectContext 3 ''proj-a'' store1)
       = Some (Some (currentContextHash lib0 ''t1'' input_ts))
   \<and> map pcs_snapshot_reason (project_context_snapshots store1) = [''auto'']
   \<and> (case saveSession lib0 200 ''t1'' input_ts (Some 3) store1 of
         (r, d) \<Rightarrow> r = Inr out2
                   \<and> map pcs_snapshot_reason (project_context_snapshots d) = [''auto'', ''auto''])"
proof -
  have "map_option pc_context_hash (getProjectContext 3 ''proj-a'' store1)
       = Some (Some (currentContextHash lib0 ''t1'' input_ts))"
    by (simp add: getProjectContext_def store1_def currentContextHash_def normalizedFiles_def
        input_ts_simps lib0_simps detect_ts digest_empty)
  moreover have "map pcs_snapshot_reason (project_context_snapshots store1) = [''auto'']"
    by (simp add: store1_def)
  moreover have "(case saveSession lib0 200 ''t1'' input_ts (Some 3) store1 of
         (r, d) \<Rightarrow> r = Inr out2
                   \<and> map pcs_snapshot_reason (project_context_snapshots d) = [''auto'', ''auto''])"
    using save_ts_second by (auto split: prod.splits)
  ultimately show ?thesis
    using save_ts_first by simp
qed

section \<open>Metadata\<close>

lemma map_of_obj_set: "map_of (obj_set k v kvs) = (map_of kvs)(k \<mapsto> v)"
  by (induction kvs) auto

lemma to_json_id: "is_json v \<Longrightarrow> to_json v = v"
proof (induction v rule: to_json.induct)
  case (1 xs)
  then have "map (\<lambda>x. if x = JUndefined then JNull else to_json x) xs = map (\<lambda>x. x) xs"
    by (intro map_cong) (auto simp: list_all_iff)
  then show ?case by simp
next
  case (2 kvs)
  then have all: "\<forall>(k, v) \<in> set kvs. is_json v"
    by (simp add: list_all_iff)
  then have f: "filter (\<lambda>(k, v). v \<noteq> JUndefined) kvs = kvs"
    by (auto simp: filter_id_conv)
  have "map (\<lambda>(k, v). (k, to_json v)) kvs = map (\<lambda>kv. kv) kvs"
    using 2 all f by (intro map_cong) auto
  with f show ?case by simp
qed simp_all

lemma is_json_obj_set:
  "list_all (\<lambda>(k, v). is_json v) kvs \<Longrightarrow> is_json v \<Longrightarrow>
   list_all (\<lambda>(k, v). is_json v) (obj_set k v kvs)"
  by (induction kvs) auto

text \<open>
  Claim C10. The metadata stored with a saved session is the caller's map with the five
  bookkeeping keys set by the engine: every other entry of the caller is stored as it
  came. The metadata that \<open>retrieveFullSession\<close> puts in its response is the stored
  map with the key \<open>project_context\<close> set and every other key as stored.
\<close>

theorem saveSession_metadata:
  assumes "saveSession L now stamp input userId d = (Inr out, d')"
    and "length (project_name input) \<le> 100"
    and "is_json (JObj (caller_metadata input))"
  shows "\<exists>row kvs ctx snap reason.
           sessions d' = sessions d @ [row] \<and> s_id row = out_session_id out
           \<and> s_metadata row = JObj kvs
           \<and> (\<forall>k. k \<notin> set bookkeeping_keys \<longrightarrow> map_of kvs k = map_of (caller_metadata input) k)
           \<and> map_of kvs ''project_context_id'' = Some (JStr (uuid_text ctx))
           \<and> out_project_context_id out = Some ctx
           \<and> map_of kvs ''tech_stack_detected'' = Some (JBool True)
           \<and> map_of kvs ''snapshot_reason'' = Some (JStr reason)
           \<and> (reason = ''auto'' \<or> reason = ''tech-change'')
           \<and> map_of kvs ''snapshot_id'' = Some (JStr (uuid_text snap))
           \<and> s_snapshot_id row = Some snap
           \<and> map_of kvs ''synthetic_files_added'' = Some (JBool (filesWereSynthetic input))
           \<and> map_of (ro_metadata (full_session L d' row fs cs ss)) ''project_context''
               = Some (project_context_value row (joined_context d' row))
           \<and> (\<forall>k. k \<noteq> ''project_context'' \<longrightarrow>
                 map_of (ro_metadata (full_session L d' row fs cs ss)) k = map_of kvs k)"
proof -
  from assms(1,2) obtain u pc snap row where "userId = Some u"
    "project_context_snapshots d' = project_context_snapshots d @ [snap]"
    "pcs_snapshot_reason snap = snapshotReason_of L stamp input u d"
    "pcs_project_context_id snap = pc_id pc" and s:
    "sessions d' = sessions d @ [row]" "s_id row = out_session_id out"
    "s_snapshot_id row = Some (pcs_id snap)"
    "s_metadata row = session_metadata input (Some pc) (snapshotReason_of L stamp input u d)
                        (Some (pcs_id snap))"
    "out_project_context_id out = Some (pc_id pc)"
    by (rule saveSession_snapshot)
  define reason where "reason = snapshotReason_of L stamp input u d"
  define kvs where "kvs =
       obj_set ''synthetic_files_added'' (JBool (filesWereSynthetic input))
       (obj_set ''snapshot_id'' (JStr (uuid_text (pcs_id snap)))
       (obj_set ''snapshot_reason'' (JStr reason)
       (obj_set ''tech_stack_detected'' (JBool True)
       (obj_set ''project_context_id'' (JStr (uuid_text (pc_id pc)))
          (caller_metadata input)))))"
  have "list_all (\<lambda>(k, v). is_json v) kvs"
    using assms(3) unfolding kvs_def by (intro is_json_obj_set) simp_all
  then have "to_json (JObj kvs) = JObj kvs"
    by (intro to_json_id) simp
  then have m: "s_metadata row = JObj kvs"
    using s(4) by (simp add: session_metadata_def kvs_def reason_def caller_metadata_def)
  have r: "reason = ''auto'' \<or> reason = ''tech-change''"
    by (auto simp: reason_def snapshotReason_of_def split: option.splits)
  have other: "\<forall>k. k \<notin> set bookkeeping_keys \<longrightarrow> map_of kvs k = map_of (caller_metadata input) k"
    by (simp add: kvs_def map_of_obj_set bookkeeping_keys_def)
  have keys: "map_of kvs ''project_context_id'' = Some (JStr (uuid_text (pc_id pc)))"
    "map_of kvs ''tech_stack_detected'' = Some (JBool True)"
    "map_of kvs ''snapshot_reason'' = Some (JStr reason)"
    "map_of kvs ''snapshot_id'' = Some (JStr (uuid_text (pcs_id snap)))"
    "map_of kvs ''synthetic_files_added'' = Some (JBool (filesWereSynthetic input))"
    by (simp_all add: kvs_def map_of_obj_set)
  have resp: "ro_metadata (full_session L d' row fs cs ss)
      = obj_set ''project_context'' (project_context_value row (joined_context d' row)) kvs"
    by (simp add: full_session_def response_metadata_def stored_metadata_def m)
  have "map_of (ro_metadata (full_session L d' row fs cs ss)) ''project_context''
               = Some (project_context_value row (joined_context d' row))"
    and "\<forall>k. k \<noteq> ''project_context'' \<longrightarrow>
                 map_of (ro_metadata (full_session L d' row fs cs ss)) k = map_of kvs k"
    by (simp_all add: resp map_of_obj_set)
  with s m r other keys show ?thesis
    by blast
qed

theorem saveSession_metadata_witness:
  "saveSession lib0 100 ''t0'' input_ts (Some 3) store0 = (Inr out1, store1)
   \<and> length (project_name input_ts) \<le> 100
   \<and> is_json (JObj (caller_metadata input_ts))
   \<and> (\<exists>row kvs. sessions store1 = sessions store0 @ [row] \<and> s_metadata row = JObj kvs
         \<and> map_of kvs ''tag'' = Some (JStr ''x'')
         \<and> map_of kvs ''tech_stack_detected'' = Some (JBool True)
         \<and> map_of kvs ''synthetic_files_added'' = Some (JBool False)
         \<and> map_of (ro_metadata (full_session lib0 store1 row [] [] [])) ''tag''
              = Some (JStr ''x''))"
proof -
  have len: "length (project_name input_ts) \<le> 100"
    by (simp add: input_ts_simps)
  have js: "is_json (JObj (caller_metadata input_ts))"
    by (simp add: caller_metadata_def input_ts_simps)
  have tag: "''tag'' \<notin> set bookkeeping_keys" "''tag'' \<noteq> ''project_context''"
    "map_of (caller_metadata input_ts) ''tag'' = Some (JStr ''x'')"
    "filesWereSynthetic input_ts = False"
    by (simp_all add: bookkeeping_keys_def caller_metadata_def filesWereSynthetic_def
        input_ts_simps)
  from saveSession_metadata [OF save_ts_first len js, of "[]" "[]" "[]"] tag
  have "\<exists>row kvs. sessions store1 = sessions store0 @ [row] \<and> s_metadata row = JObj kvs
         \<and> map_of kvs ''tag'' = Some (JStr ''x'')
         \<and> map_of kvs ''tech_stack_detected'' = Some (JBool True)
         \<and> map_of kvs ''synthetic_files_added'' = Some (JBool False)
         \<and> map_of (ro_metadata (full_session lib0 store1 row [] [] [])) ''tag''
              = Some (JStr ''x'')"
    by (elim exE conjE) (intro exI conjI, assumption, assumption, simp_all)
  with save_ts_first len js show ?thesis
    by simp
qed

section \<open>Identifiers\<close>

lemma insert_project_context_next_id:
  "insert_project_context r d = (res, d') \<Longrightarrow> next_id d \<le> next_id d'"
  by (auto simp: insert_project_context_def fresh_id_def Let_def split: option.splits if_splits)

lemma insert_snapshot_next_id:
  "insert_snapshot r d = (res, d') \<Longrightarrow> next_id d \<le> next_id d'"
  by (auto simp: insert_snapshot_def fresh_id_def Let_def split: if_splits)

lemma createOrUpdateProjectContext_next_id:
  assumes "createOrUpdateProjectContext L now u pn fs descr d = (res, d')"
  shows "next_id d \<le> next_id d'"
  using assms
  by (rule createOrUpdateProjectContext_cases)
     (auto dest: update_project_context_frame insert_project_context_next_id)

lemma createSnapshot_next_id:
  assumes "createSnapshot L stamp ctx fs reason d = (res, d')"
  shows "next_id d \<le> next_id d'"
  using assms unfolding createSnapshot_def Let_def
  by (auto split: prod.splits dest: insert_snapshot_next_id)

lemma save_project_context_next_id:
  assumes "save_project_context L now stamp input userId d = (res, d')"
  shows "next_id d \<le> next_id d'"
  using assms
proof (cases rule: save_project_context_cases)
  case 1
  then show ?thesis by simp
next
  case (2 u e)
  then show ?thesis
    using createOrUpdateProjectContext_next_id by blast
next
  case (3 u pc d1 e)
  then show ?thesis
    using createOrUpdateProjectContext_next_id createSnapshot_next_id order_trans by blast
next
  case (4 u pc d1 snap)
  then show ?thesis
    using createOrUpdateProjectContext_next_id createSnapshot_next_id order_trans by blast
qed

lemma trigger_context_next_id:
  assumes "trigger_context now new d = (res, d')"
  shows "next_id d \<le> next_id d'"
  using assms unfolding trigger_context_def
  by (auto split: list.splits prod.splits sum.splits dest: insert_project_context_next_id)

lemma detect_tech_stack_changes_next_id:
  assumes "detect_tech_stack_changes now new d = (res, d')"
  shows "next_id d \<le> next_id d'"
proof -
  obtain r1 d1 where t: "trigger_context now new d = (r1, d1)"
    by (cases "trigger_context now new d")
  have "next_id d \<le> next_id d1"
    using trigger_context_next_id [OF t] .
  moreover have "next_id d1 \<le> next_id d'"
    using assms t unfolding detect_tech_stack_changes_def
    by (auto split: prod.splits sum.splits if_splits dest: insert_snapshot_next_id)
  ultimately show ?thesis by simp
qed

lemma insert_files_next_id:
  "insert_files sid fs d = (res, d') \<Longrightarrow> next_id d \<le> next_id d'"
proof (induction fs arbitrary: d)
  case Nil
  then show ?case by simp
next
  case (Cons f fs)
  let ?r = "\<lparr>f_id = 0, f_session_id = sid, f_path = fst f, f_content = snd f,
              f_content_hash = calculateContentHash (snd f),
              f_line_count = length (split_on (CHR 0x0A) (snd f))\<rparr>"
  obtain r1 d1 where i: "insert_file ?r d = (r1, d1)"
    by (cases "insert_file ?r d")
  from insert_file_result [OF i] have m: "next_id d \<le> next_id d1"
    by auto
  show ?case
  proof (cases r1)
    case (Inl e)
    with Cons.prems i m show ?thesis by simp
  next
    case (Inr row)
    with Cons.prems i have "insert_files sid fs d1 = (res, d')" by simp
    from Cons.IH [OF this] m show ?thesis by simp
  qed
qed

lemma insert_messages_next_id:
  "insert_messages now sid n ms d = (res, d') \<Longrightarrow> next_id d \<le> next_id d'"
proof (induction ms arbitrary: d n)
  case Nil
  then show ?case by simp
next
  case (Cons m ms)
  let ?r = "\<lparr>c_id = 0, c_session_id = sid, c_role = m_role m, c_content = m_content m,
              c_message_order = 0, c_created_at = now - int n\<rparr>"
  obtain r1 d1 where i: "insert_conversation ?r d = (r1, d1)"
    by (cases "insert_conversation ?r d")
  from insert_conversation_result [OF i] have m: "next_id d \<le> next_id d1"
    by auto
  show ?case
  proof (cases r1)
    case (Inl e)
    with Cons.prems i m show ?thesis by simp
  next
    case (Inr row)
    with Cons.prems i have "insert_messages now sid (n - 1) ms d1 = (res, d')" by simp
    from Cons.IH [OF this] m show ?thesis by simp
  qed
qed

text \<open>The id of the new session was not in use, and is in use afterwards.\<close>

lemma save_session_rows_fresh_id:
  assumes "save_session_rows now stamp input userId ctx d = (Inr out, d')"
  shows "next_id d \<le> out_session_id out \<and> out_session_id out < next_id d'"
proof -
  from assms obtain u where u: "userId = Some u"
    by (cases userId) (auto simp: save_session_rows_def)
  obtain pc reason snap where ctx: "ctx = (pc, reason, snap)"
    by (cases ctx)
  let ?r = "\<lparr>s_id = 0, s_user_id = u, s_name = session_name input,
        s_project_name = project_name input,
        s_version = max_version u (session_name input) (project_name input) d + 1,
        s_metadata = session_metadata input pc reason snap, s_snapshot_id = snap,
        s_created_at = now, s_updated_at = now\<rparr>"
  obtain r1 d1 where i1: "insert_session now ?r d = (r1, d1)"
    by (cases "insert_session now ?r d")
  from assms u ctx i1 obtain row where r1: "r1 = Inr row"
    by (cases r1) (auto simp: save_session_rows_def Let_def)
  obtain r2 d2 where i2: "insert_files (s_id row) (normalizedFiles stamp input) d1 = (r2, d2)"
    by (cases "insert_files (s_id row) (normalizedFiles stamp input) d1")
  from assms u ctx i1 r1 i2 have r2: "r2 = Inr ()"
    by (cases r2) (auto simp: save_session_rows_def Let_def)
  obtain r3 d3 where i3: "insert_messages now (s_id row) (length (conversation input))
      (conversation input) d2 = (r3, d3)"
    by (cases "insert_messages now (s_id row) (length (conversation input))
      (conversation input) d2")
  from assms u ctx i1 r1 i2 r2 i3 have out: "out_session_id out = s_id row" "d' = d3"
    by (cases r3; auto simp: save_session_rows_def Let_def)+
  from i1 [unfolded r1] obtain new d0 where
    t: "detect_tech_stack_changes now
          (?r\<lparr>s_name := the (pg_varchar 100 (session_name input)),
              s_project_name := the (pg_varchar 100 (project_name input))\<rparr>) d = (Inr new, d0)"
    and row: "row = new\<lparr>s_id := next_id d0\<rparr>"
    and d1: "d1 = d0\<lparr>next_id := Suc (next_id d0), sessions := sessions d0 @ [row]\<rparr>"
    by (rule insert_session_success) auto
  have "next_id d \<le> next_id d0"
    using detect_tech_stack_changes_next_id [OF t] .
  moreover have "next_id d1 \<le> next_id d2"
    using insert_files_next_id [OF i2] .
  moreover have "next_id d2 \<le> next_id d3"
    using insert_messages_next_id [OF i3] .
  ultimately show ?thesis
    using row d1 out by simp
qed

lemma saveSession_fresh_id:
  assumes "saveSession L now stamp input userId d = (Inr out, d')"
  shows "next_id d \<le> out_session_id out \<and> out_session_id out < next_id d'"
proof -
  from assms obtain ctx reason snap d1 where
    p: "save_project_context L now stamp input userId d = (Inr (ctx, reason, snap), d1)" and
    r: "save_session_rows now stamp input userId (ctx, reason, snap) d1 = (Inr out, d')"
    by (rule saveSession_success)
  from save_project_context_next_id [OF p] save_session_rows_fresh_id [OF r]
  show ?thesis by simp
qed


lemma saveSession_failure_next_id:
  assumes "saveSession L now stamp input userId d = (Inl e, d')"
  shows "next_id d \<le> next_id d'"
  using assms unfolding saveSession_def transaction_def
  by (auto split: prod.splits sum.splits dest: save_project_context_next_id)

lemma saveSession_files:
  assumes "saveSession L now stamp input userId d = (Inr out, d')"
  obtains row file_rows where "sessions d' = sessions d @ [row]" "s_id row = out_session_id out"
    "files d' = files d @ file_rows"
    "list_all2 (file_row_matches (out_session_id out)) file_rows (normalizedFiles stamp input)"
proof -
  from assms obtain ctx reason snap d1 where
    p: "save_project_context L now stamp input userId d = (Inr (ctx, reason, snap), d1)" and
    r: "save_session_rows now stamp input userId (ctx, reason, snap) d1 = (Inr out, d')"
    by (rule saveSession_success)
  have f: "files d1 = files d" "sessions d1 = sessions d"
    using save_project_context_frame [OF p] by (simp_all add: same_session_tables_def)
  from r show thesis
  proof (rule save_session_rows_success)
    fix row file_rows
    assume "sessions d' = sessions d1 @ [row]" "files d' = files d1 @ file_rows"
      "list_all2 (file_row_matches (s_id row)) file_rows (normalizedFiles stamp input)"
      "out_session_id out = s_id row"
    with f that show thesis by simp
  qed
qed

text \<open>Saves keep the ids of the rows below the next id to give out.\<close>

lemma saveSession_ids_allocated:
  assumes "saveSession L now stamp input userId d = (res, d')" and "ids_allocated d"
  shows "ids_allocated d'"
proof (cases res)
  case (Inl e)
  with assms(1) have "same_session_tables d d'" "next_id d \<le> next_id d'"
    by (auto dest: saveSession_failure saveSession_failure_next_id)
  with assms(2) show ?thesis
    by (auto simp: ids_allocated_def same_session_tables_def list_all_iff)
next
  case (Inr out)
  with assms(1) have s: "saveSession L now stamp input userId d = (Inr out, d')" by simp
  from s obtain row file_rows where rows: "sessions d' = sessions d @ [row]"
    "s_id row = out_session_id out" "files d' = files d @ file_rows"
    "list_all2 (file_row_matches (out_session_id out)) file_rows (normalizedFiles stamp input)"
    by (rule saveSession_files)
  from saveSession_fresh_id [OF s] have id: "next_id d \<le> out_session_id out"
    "out_session_id out < next_id d'" by simp_all
  from rows(4) have "\<forall>f \<in> set file_rows. f_session_id f = out_session_id out"
    by (auto simp: list_all2_conv_all_nth in_set_conv_nth file_row_matches_def)
  with assms(2) rows id show ?thesis
    by (auto simp: ids_allocated_def list_all_iff)
qed

text \<open>
  Every conversation row of a save takes \<open>message_order\<close> 0, so the second message of a
  conversation breaks the unique constraint: a save that succeeds had at most one.
\<close>

lemma insert_messages_two:
  "insert_messages now sid n (m1 # m2 # ms) d \<noteq> (Inr u, d')"
proof
  assume a: "insert_messages now sid n (m1 # m2 # ms) d = (Inr u, d')"
  let ?r = "\<lparr>c_id = 0, c_session_id = sid, c_role = m_role m1, c_content = m_content m1,
              c_message_order = 0, c_created_at = now - int n\<rparr>"
  obtain r1 d1 where i: "insert_conversation ?r d = (r1, d1)"
    by (cases "insert_conversation ?r d")
  from a i obtain row where r1: "r1 = Inr row"
    by (cases r1) auto
  from i r1 have "d1 = d\<lparr>next_id := Suc (next_id d),
      conversations := conversations d @ [?r\<lparr>c_id := next_id d\<rparr>]\<rparr>"
    unfolding insert_conversation_def fresh_id_def Let_def
    by (auto split: if_splits)
  then have "list_ex (\<lambda>c. c_session_id c = sid \<and> c_message_order c = 0) (conversations d1)"
    by simp
  then have "fst (insert_conversation
      \<lparr>c_id = 0, c_session_id = sid, c_role = m_role m2, c_content = m_content m2,
       c_message_order = 0, c_created_at = now - int (n - 1)\<rparr> d1) \<noteq> Inr row'" for row'
    by (simp add: insert_conversation_def)
  with a i r1 show False
    by (auto split: prod.splits sum.splits)
qed

lemma insert_messages_length:
  assumes "insert_messages now sid n ms d = (Inr u, d')"
  shows "length ms \<le> 1"
proof (rule ccontr)
  assume "\<not> length ms \<le> 1"
  then obtain m1 m2 rest where "ms = m1 # m2 # rest"
    by (cases ms; cases "tl ms") auto
  with assms insert_messages_two show False by blast
qed

lemma saveSession_conversation_length:
  assumes "saveSession L now stamp input userId d = (Inr out, d')"
  shows "length (conversation input) \<le> 1"
proof -
  from assms obtain ctx reason snap d1 where
    r: "save_session_rows now stamp input userId (ctx, reason, snap) d1 = (Inr out, d')"
    by (rule saveSession_success)
  then show ?thesis
    unfolding save_session_rows_def Let_def
    by (auto split: option.splits prod.splits sum.splits dest: insert_messages_length)
qed

section \<open>The synthetic file\<close>

lemma recent_messages_tail:
  assumes "length recent \<le> 10" and "older = [] \<or> length recent = 10"
  shows "recent_messages (older @ recent) = recent"
  using assms by (auto simp: recent_messages_def)

lemma render_message_heading:
  "render_message m = ''### '' @ heading (m_role m) @ [CHR 0x0A] @ m_content m"
  by (cases "m_role m") (simp_all add: render_message_def heading_def role_name_def js_eval)

lemma createSyntheticFile_text:
  assumes "conversation input = older @ recent" and "length recent \<le> 10"
    and "older = [] \<or> length recent = 10"
  shows "createSyntheticFile stamp input =
        (''CONVERSATION_SUMMARY.md'',
         ''# Context Engine Snapshot'' @ [CHR 0x0A, CHR 0x0A]
         @ ''- Session: '' @ session_name input @ [CHR 0x0A]
         @ ''- Project: '' @ project_name input @ [CHR 0x0A]
         @ ''- Generated: '' @ stamp @ [CHR 0x0A, CHR 0x0A]
         @ ''## Metadata'' @ [CHR 0x0A]
         @ (case metadata input of
              None \<Rightarrow> ''None''
            | Some md \<Rightarrow> if md = [] then ''None'' else JSON_stringify_pretty (JObj md))
         @ [CHR 0x0A, CHR 0x0A]
         @ ''## Conversation'' @ [CHR 0x0A]
         @ (if recent = [] then ''No conversation captured.''
            else join [CHR 0x0A, CHR 0x0A]
                   (map (\<lambda>m. ''### '' @ heading (m_role m) @ [CHR 0x0A] @ m_content m) recent))
         @ [CHR 0x0A])"
proof -
  have r: "recent_messages (conversation input) = recent"
    using assms by (simp add: recent_messages_tail)
  have meq: "map render_message recent
      = map (\<lambda>m. ''### '' @ heading (m_role m) @ [CHR 0x0A] @ m_content m) recent"
    by (rule map_cong) (simp_all only: render_message_heading)
  have c: "conversationSection (conversation input) =
      (if recent = [] then ''No conversation captured.''
       else join [CHR 0x0A, CHR 0x0A]
              (map (\<lambda>m. ''### '' @ heading (m_role m) @ [CHR 0x0A] @ m_content m) recent))"
    unfolding conversationSection_def r meq by (cases "recent = []") simp_all
  have m: "metadataSection (metadata input) =
      (case metadata input of
         None \<Rightarrow> ''None''
       | Some md \<Rightarrow> if md = [] then ''None'' else JSON_stringify_pretty (JObj md))"
    by (simp add: metadataSection_def split: option.splits)
  show ?thesis
    unfolding createSyntheticFile_def c m by simp
qed

text \<open>
  Claim C8. The synthesized file is \<open>CONVERSATION_SUMMARY.md\<close>. Its text is fixed by
  the session name, the project name, the time stamp, the metadata map and the last ten
  messages of the conversation (all of them when there are fewer), and holds each of
  these: whatever the conversation is cut into, earlier messages \<open>older\<close> and the last
  ten \<open>recent\<close>, the text is the one written below, with the metadata as
  \<open>JSON.stringify\<close> writes it (\<open>None\<close> for an absent or empty map) and each message of
  \<open>recent\<close> under its role in upper case. The files saved are the input's, or this file
  alone when the input has none. A save that succeeds with no input file, in a store whose
  rows carry ids given out before, leaves exactly one file row for the new session, the
  synthesized file; and no save succeeds with more than one message in its conversation.
\<close>

theorem saveSession_synthetic_file:
  "(conversation input = older @ recent \<and> length recent \<le> 10
      \<and> (older = [] \<or> length recent = 10) \<longrightarrow>
      createSyntheticFile stamp input =
        (''CONVERSATION_SUMMARY.md'',
         ''# Context Engine Snapshot'' @ [CHR 0x0A, CHR 0x0A]
         @ ''- Session: '' @ session_name input @ [CHR 0x0A]
         @ ''- Project: '' @ project_name input @ [CHR 0x0A]
         @ ''- Generated: '' @ stamp @ [CHR 0x0A, CHR 0x0A]
         @ ''## Metadata'' @ [CHR 0x0A]
         @ (case metadata input of
              None \<Rightarrow> ''None''
            | Some md \<Rightarrow> if md = [] then ''None'' else JSON_stringify_pretty (JObj md))
         @ [CHR 0x0A, CHR 0x0A]
         @ ''## Conversation'' @ [CHR 0x0A]
         @ (if recent = [] then ''No conversation captured.''
            else join [CHR 0x0A, CHR 0x0A]
                   (map (\<lambda>m. ''### '' @ heading (m_role m) @ [CHR 0x0A] @ m_content m) recent))
         @ [CHR 0x0A]))
   \<and> normalizedFiles stamp input =
       (case input_files input of
          None \<Rightarrow> [createSyntheticFile stamp input]
        | Some fs \<Rightarrow> if fs = [] then [createSyntheticFile stamp input] else fs)
   \<and> (saveSession L now stamp input userId d = (Inr out, d')
        \<and> (input_files input = None \<or> input_files input = Some []) \<and> ids_allocated d \<longrightarrow>
        (\<exists>row. files d' = files d @ [row]
           \<and> filter (\<lambda>f. f_session_id f = out_session_id out) (files d') = [row]
           \<and> f_path row = ''CONVERSATION_SUMMARY.md''
           \<and> f_content row = snd (createSyntheticFile stamp input))
        \<and> ids_allocated d' \<and> length (conversation input) \<le> 1)"
proof (intro conjI impI)
  assume "conversation input = older @ recent \<and> length recent \<le> 10
      \<and> (older = [] \<or> length recent = 10)"
  then show "createSyntheticFile stamp input =
        (''CONVERSATION_SUMMARY.md'',
         ''# Context Engine Snapshot'' @ [CHR 0x0A, CHR 0x0A]
         @ ''- Session: '' @ session_name input @ [CHR 0x0A]
         @ ''- Project: '' @ project_name input @ [CHR 0x0A]
         @ ''- Generated: '' @ stamp @ [CHR 0x0A, CHR 0x0A]
         @ ''## Metadata'' @ [CHR 0x0A]
         @ (case metadata input of
              None \<Rightarrow> ''None''
            | Some md \<Rightarrow> if md = [] then ''None'' else JSON_stringify_pretty (JObj md))
         @ [CHR 0x0A, CHR 0x0A]
         @ ''## Conversation'' @ [CHR 0x0A]
         @ (if recent = [] then ''No conversation captured.''
            else join [CHR 0x0A, CHR 0x0A]
                   (map (\<lambda>m. ''### '' @ heading (m_role m) @ [CHR 0x0A] @ m_content m) recent))
         @ [CHR 0x0A])"
    by (elim conjE) (rule createSyntheticFile_text)
next
  show "normalizedFiles stamp input =
       (case input_files input of
          None \<Rightarrow> [createSyntheticFile stamp input]
        | Some fs \<Rightarrow> if fs = [] then [createSyntheticFile stamp input] else fs)"
    by (simp add: normalizedFiles_def split: option.splits)
next
  assume a: "saveSession L now stamp input userId d = (Inr out, d')
        \<and> (input_files input = None \<or> input_files input = Some []) \<and> ids_allocated d"
  then have s: "saveSession L now stamp input userId d = (Inr out, d')" by simp
  from a have n: "normalizedFiles stamp input = [createSyntheticFile stamp input]"
    by (auto simp: normalizedFiles_def)
  from s obtain srow file_rows where fr: "files d' = files d @ file_rows"
    "list_all2 (file_row_matches (out_session_id out)) file_rows (normalizedFiles stamp input)"
    by (rule saveSession_files)
  from fr(2) n obtain row where row: "file_rows = [row]"
    "file_row_matches (out_session_id out) row (createSyntheticFile stamp input)"
    by (auto simp: list_all2_Cons2)
  from row(2) have path: "f_path row = ''CONVERSATION_SUMMARY.md''"
    and sid: "f_session_id row = out_session_id out"
    and content: "f_content row = snd (createSyntheticFile stamp input)"
    by (auto simp: file_row_matches_def createSyntheticFile_def pg_varchar_def split: if_splits)
  from a saveSession_fresh_id [OF s] have
    "filter (\<lambda>f. f_session_id f = out_session_id out) (files d) = []"
    by (auto simp: ids_allocated_def filter_empty_conv list_all_iff)
  then have only: "filter (\<lambda>f. f_session_id f = out_session_id out) (files d') = [row]"
    by (simp add: fr(1) row(1) sid)
  from fr(1) row(1) only path content
  show "\<exists>row. files d' = files d @ [row]
           \<and> filter (\<lambda>f. f_session_id f = out_session_id out) (files d') = [row]
           \<and> f_path row = ''CONVERSATION_SUMMARY.md''
           \<and> f_content row = snd (createSyntheticFile stamp input)"
    by blast
  from a show "ids_allocated d'"
    using saveSession_ids_allocated [OF s] by simp
  show "length (conversation input) \<le> 1"
    using s by (rule saveSession_conversation_length)
qed

lemma input_nofiles_simps:
  "session_name input_nofiles = ''notes''" "project_name input_nofiles = ''proj-a''"
  "input_files input_nofiles = Some []"
  "conversation input_nofiles = [\<lparr>m_role = User, m_content = ''hello''\<rparr>]"
  "metadata input_nofiles = Some [(''tag'', JStr ''x'')]"
  by (simp_all add: input_nofiles_def)

lemma synthetic_nofiles:
  "createSyntheticFile ''t0'' input_nofiles = (''CONVERSATION_SUMMARY.md'', summary0)"
  by (simp add: summary0_def createSyntheticFile_def)

lemma detect_summary:
  "detectTechStack parse0 [(''CONVERSATION_SUMMARY.md'', summary0)] =
     \<lparr>tech_stack = [], project_type = ''other'', programming_languages = [],
      build_system = None, test_framework = None\<rparr>"
  by (simp add: js_eval detect_eval Let_def)

lemma summary0_text:
  "summary0 =
     ''# Context Engine Snapshot'' @ [CHR 0x0A, CHR 0x0A] @ ''- Session: notes'' @ [CHR 0x0A]
     @ ''- Project: proj-a'' @ [CHR 0x0A] @ ''- Generated: t0'' @ [CHR 0x0A, CHR 0x0A]
     @ ''## Metadata'' @ [CHR 0x0A] @ ''{'' @ [CHR 0x0A] @ ''  '' @ [dq] @ ''tag'' @ [dq] @ '': ''
     @ [dq] @ ''x'' @ [dq] @ [CHR 0x0A] @ ''}'' @ [CHR 0x0A, CHR 0x0A] @ ''## Conversation''
     @ [CHR 0x0A] @ ''### USER'' @ [CHR 0x0A] @ ''hello'' @ [CHR 0x0A]"
  by (simp add: summary0_def createSyntheticFile_def metadataSection_def conversationSection_def
      recent_messages_def render_message_def role_name_def input_nofiles_simps js_eval)

lemma pg_text_summary:
  "(CHR 0x00 \<in> set summary0) = False" "length summary0 = 140"
  "length (split_on (CHR 0x0A) summary0) = 15"
  by (simp_all add: summary0_text dq_def)

lemma hash_summary:
  "calculateContentHash summary0 =
     ''00000000000000000000000000000000000000000000000000000000128bb659''"
  by (simp add: summary0_text calculateContentHash_def hash_step_def js_eval)

lemma save_nofiles:
  "fst (saveSession lib0 100 ''t0'' input_nofiles (Some 3) store0) = Inr out3"
  by (simp add: save_eval lib0_simps input_nofiles_simps synthetic_nofiles detect_summary
      digest_empty hash_summary pg_text_summary store0_def out3_def digit_char_def show_int_def number_text_small toLowerCase_def
      lower_char_def upper_letters_def lower_letters_def Let_def)

lemma input_long_simps:
  "session_name input_long = ''notes''" "project_name input_long = ''proj-a''"
  "input_files input_long = None"
  "conversation input_long = older_messages @ last_ten_messages"
  "metadata input_long = None"
  by (simp_all add: input_long_def)

theorem saveSession_synthetic_file_witness:
  "conversation input_long = older_messages @ last_ten_messages
   \<and> length older_messages = 2 \<and> length last_ten_messages = 10
   \<and> createSyntheticFile ''t0'' input_long = (''CONVERSATION_SUMMARY.md'', summary_long)
   \<and> normalizedFiles ''t0'' input_long = [(''CONVERSATION_SUMMARY.md'', summary_long)]
   \<and> fst (saveSession lib0 100 ''t0'' input_nofiles (Some 3) store0) = Inr out3
   \<and> input_files input_nofiles = Some [] \<and> ids_allocated store0
   \<and> (\<exists>row. filter (\<lambda>f. f_session_id f = 12)
                 (files (snd (saveSession lib0 100 ''t0'' input_nofiles (Some 3) store0))) = [row]
            \<and> f_path row = ''CONVERSATION_SUMMARY.md''
            \<and> f_content row = summary0)
   \<and> length (conversation input_nofiles) = 1"
proof -
  have len: "length older_messages = 2" "length last_ten_messages = 10"
    by (simp_all add: older_messages_def last_ten_messages_def)
  have cut: "conversation input_long = older_messages @ last_ten_messages
      \<and> length last_ten_messages \<le> 10
      \<and> (older_messages = [] \<or> length last_ten_messages = 10)"
    by (simp add: input_long_simps len)
  from saveSession_synthetic_file [of input_long older_messages last_ten_messages "''t0''"] cut
  have "createSyntheticFile ''t0'' input_long =
        (''CONVERSATION_SUMMARY.md'',
         ''# Context Engine Snapshot'' @ [CHR 0x0A, CHR 0x0A]
         @ ''- Session: '' @ session_name input_long @ [CHR 0x0A]
         @ ''- Project: '' @ project_name input_long @ [CHR 0x0A]
         @ ''- Generated: '' @ ''t0'' @ [CHR 0x0A, CHR 0x0A]
         @ ''## Metadata'' @ [CHR 0x0A]
         @ (case metadata input_long of
              None \<Rightarrow> ''None''
            | Some md \<Rightarrow> if md = [] then ''None'' else JSON_stringify_pretty (JObj md))
         @ [CHR 0x0A, CHR 0x0A]
         @ ''## Conversation'' @ [CHR 0x0A]
         @ (if last_ten_messages = [] then ''No conversation captured.''
            else join [CHR 0x0A, CHR 0x0A]
                   (map (\<lambda>m. ''### '' @ heading (m_role m) @ [CHR 0x0A] @ m_content m)
                      last_ten_messages))
         @ [CHR 0x0A])"
    by blast
  then have eq: "createSyntheticFile ''t0'' input_long
      = (''CONVERSATION_SUMMARY.md'', summary_long)"
    by (simp add: input_long_simps last_ten_messages_def heading_def summary_long_def)
  from saveSession_synthetic_file [of input_long older_messages last_ten_messages "''t0''"]
  have "normalizedFiles ''t0'' input_long =
       (case input_files input_long of
          None \<Rightarrow> [createSyntheticFile ''t0'' input_long]
        | Some fs \<Rightarrow> if fs = [] then [createSyntheticFile ''t0'' input_long] else fs)"
    by blast
  then have nf: "normalizedFiles ''t0'' input_long = [(''CONVERSATION_SUMMARY.md'', summary_long)]"
    by (simp add: input_long_simps eq)
  obtain r d where s: "saveSession lib0 100 ''t0'' input_nofiles (Some 3) store0 = (r, d)"
    by (cases "saveSession lib0 100 ''t0'' input_nofiles (Some 3) store0")
  with save_nofiles have r: "r = Inr out3" by simp
  have ok: "ids_allocated store0"
    by (simp add: ids_allocated_def store0_def)
  have hyp: "saveSession lib0 100 ''t0'' input_nofiles (Some 3) store0 = (Inr out3, d)
        \<and> (input_files input_nofiles = None \<or> input_files input_nofiles = Some [])
        \<and> ids_allocated store0"
    using s r ok by (simp add: input_nofiles_simps)
  from saveSession_synthetic_file
    [of input_nofiles "[]" "conversation input_nofiles" "''t0''" lib0 100 "Some 3" store0 out3 d]
    hyp
  obtain row where row: "filter (\<lambda>f. f_session_id f = out_session_id out3) (files d) = [row]"
    "f_path row = ''CONVERSATION_SUMMARY.md''"
    "f_content row = snd (createSyntheticFile ''t0'' input_nofiles)"
    by blast
  then have "\<exists>row. filter (\<lambda>f. f_session_id f = 12) (files d) = [row]
            \<and> f_path row = ''CONVERSATION_SUMMARY.md''
            \<and> f_content row = summary0"
    by (auto simp: out3_def summary0_def)
  with s r len eq nf ok show ?thesis
    by (simp add: input_long_simps input_nofiles_simps)
qed

section \<open>Project type detection\<close>

lemma langs_stack_set [simp]: "programming_languages (stack_set k v t) = programming_languages t"
  by (simp add: stack_set_def)

lemma langs_add_language:
  "set (programming_languages (add_language l t)) = insert l (set (programming_languages t))"
  by (auto simp: add_language_def set_add_def)

lemma detect_package_json_languages:
  "programming_languages (detect_package_json parse f t) = programming_languages t"
  by (simp add: detect_package_json_def detect_package_type_def detect_test_framework_def
      detect_build_system_def Let_def split: option.splits)

lemma detect_tsconfig_languages:
  "programming_languages (detect_tsconfig parse f t) = programming_languages t"
  by (simp add: detect_tsconfig_def Let_def split: option.splits)

lemma type_stack_set [simp]: "project_type (stack_set k v t) = project_type t"
  by (simp add: stack_set_def)

lemma type_add_language [simp]: "project_type (add_language l t) = project_type t"
  by (simp add: add_language_def)

lemma detect_js_type:
  "project_type (detect_js f t) = (case script_signal f of None \<Rightarrow> project_type t | Some v \<Rightarrow> v)"
  by (simp add: detect_js_def script_signal_def is_js_source_def mentions_def Let_def)

lemma detect_python_type:
  "project_type (detect_python f t) = (case python_signal f of None \<Rightarrow> project_type t | Some v \<Rightarrow> v)"
  by (simp add: detect_python_def python_signal_def mentions_def Let_def)

lemma detect_package_json_type:
  "project_type (detect_package_json parse f t)
     = (case package_signal parse f of None \<Rightarrow> project_type t | Some v \<Rightarrow> v)"
  by (auto simp: detect_package_json_def package_signal_def depends_on_def Let_def
      detect_package_type_def detect_test_framework_def detect_build_system_def
      split: option.splits)

lemma detect_tsconfig_type:
  "project_type (detect_tsconfig parse f t) = project_type t"
  by (simp add: detect_tsconfig_def Let_def split: option.splits)

lemma detect_requirements_type:
  "project_type (detect_requirements f t)
     = (case requirements_signal f of None \<Rightarrow> project_type t | Some v \<Rightarrow> v)"
  by (simp add: detect_requirements_def requirements_signal_def requirement_lines_def
      mentions_def Let_def)

lemma detect_cargo_type:
  "project_type (detect_cargo f t) = (case cargo_signal f of None \<Rightarrow> project_type t | Some v \<Rightarrow> v)"
  by (simp add: detect_cargo_def cargo_signal_def mentions_def Let_def)

lemma detect_go_type:
  "project_type (detect_go f t) = (case go_signal f of None \<Rightarrow> project_type t | Some v \<Rightarrow> v)"
  by (simp add: detect_go_def go_signal_def mentions_def Let_def)

lemma detect_file_type:
  "project_type (detect_file parse t f)
     = (case type_signal parse f of None \<Rightarrow> project_type t | Some v \<Rightarrow> v)"
  unfolding detect_file_def detect_go_type detect_cargo_type detect_requirements_type
    detect_tsconfig_type detect_package_json_type detect_python_type detect_js_type
  by (simp add: type_signal_def List.map_filter_simps split: option.splits)

lemma type_signal_values:
  assumes "type_signal parse f = Some v"
  shows "v \<in> set [''web-app'', ''api-service'', ''desktop-app'', ''mobile-app'', ''cli-tool'']"
proof -
  have "x \<in> set [''web-app'', ''api-service'', ''desktop-app'', ''mobile-app'', ''cli-tool'']"
    if "script_signal f = Some x \<or> python_signal f = Some x \<or> package_signal parse f = Some x
        \<or> requirements_signal f = Some x \<or> cargo_signal f = Some x \<or> go_signal f = Some x" for x
    using that
    by (auto simp: script_signal_def python_signal_def package_signal_def requirements_signal_def
        cargo_signal_def go_signal_def split: if_splits option.splits)
  with assms show ?thesis
    unfolding type_signal_def
    by (simp add: List.map_filter_simps split: option.splits)
qed

lemma type_signal_not_other: "type_signal parse f \<noteq> Some ''other''"
  using type_signal_values [of parse f "''other''"] by auto

lemma foldl_detect_type:
  "project_type (foldl (detect_file parse) t fs)
     = (case List.map_filter (type_signal parse) fs of
          [] \<Rightarrow> project_type t
        | v # vs \<Rightarrow> last (v # vs))"
proof (induction fs rule: rev_induct)
  case Nil
  show ?case by (simp add: List.map_filter_simps)
next
  case (snoc f fs)
  have "List.map_filter (type_signal parse) (fs @ [f])
      = List.map_filter (type_signal parse) fs
        @ (case type_signal parse f of None \<Rightarrow> [] | Some v \<Rightarrow> [v])"
    by (simp add: List.map_filter_def split: option.splits)
  with snoc show ?case
    by (simp add: detect_file_type split: option.splits list.splits)
qed

text \<open>The languages a file adds.\<close>

lemma detect_js_langs:
  "set (programming_languages (detect_js f t))
     = set (programming_languages t)
       \<union> (if file_ext (fst f) \<in> set [''ts'', ''tsx''] then {''typescript''}
          else if file_ext (fst f) \<in> set [''js'', ''jsx''] then {''javascript''} else {})"
  by (auto simp: detect_js_def Let_def langs_add_language)

lemma detect_python_langs:
  "set (programming_languages (detect_python f t))
     = set (programming_languages t) \<union> (if file_ext (fst f) = ''py'' then {''python''} else {})"
  by (auto simp: detect_python_def Let_def langs_add_language)

lemma detect_requirements_langs:
  "set (programming_languages (detect_requirements f t))
     = set (programming_languages t) \<union> (if fst f = ''requirements.txt'' then {''python''} else {})"
  by (auto simp: detect_requirements_def Let_def langs_add_language)

lemma detect_cargo_langs:
  "set (programming_languages (detect_cargo f t))
     = set (programming_languages t) \<union> (if fst f = ''Cargo.toml'' then {''rust''} else {})"
  by (auto simp: detect_cargo_def Let_def langs_add_language)

lemma detect_go_langs:
  "set (programming_languages (detect_go f t))
     = set (programming_languages t) \<union> (if fst f = ''go.mod'' then {''go''} else {})"
  by (auto simp: detect_go_def Let_def langs_add_language)

lemma detect_file_scripting:
  "scripting (detect_file parse t f) = (scripting t \<or> is_js_source f \<or> is_python_source f)"
  unfolding scripting_def detect_file_def detect_go_langs detect_cargo_langs
    detect_requirements_langs detect_tsconfig_languages detect_package_json_languages
    detect_python_langs detect_js_langs
  by (auto simp: is_js_source_def is_python_source_def)

lemma foldl_detect_scripting:
  "scripting (foldl (detect_file parse) t fs)
   = (scripting t \<or> list_ex (\<lambda>f. is_js_source f \<or> is_python_source f) fs)"
proof (induction fs arbitrary: t)
  case Nil
  show ?case by simp
next
  case (Cons f fs)
  show ?case
    by (simp add: Cons.IH detect_file_scripting)
qed

lemma detectTechStack_expected:
  "project_type (detectTechStack parse fs) = expected_project_type parse fs"
proof (cases "List.map_filter (type_signal parse) fs")
  case Nil
  then have ty: "project_type (foldl (detect_file parse) initial_tech_info fs) = ''other''"
    by (simp add: foldl_detect_type initial_tech_info_def)
  have "scripting (foldl (detect_file parse) initial_tech_info fs)
      = list_ex (\<lambda>f. is_js_source f \<or> is_python_source f) fs"
    by (simp add: foldl_detect_scripting) (simp add: scripting_def initial_tech_info_def)
  with ty Nil show ?thesis
    by (auto simp: detectTechStack_def default_project_type_def expected_project_type_def
        scripting_def)
next
  case (Cons v vs)
  then have "last (v # vs) \<in> set (List.map_filter (type_signal parse) fs)"
    by (metis last_in_set list.distinct(1))
  then obtain f where "type_signal parse f = Some (last (v # vs))"
    by (auto simp: List.map_filter_def)
  then have "last (v # vs) \<noteq> ''other''"
    using type_signal_not_other [of parse f] by auto
  with Cons show ?thesis
    by (simp add: detectTechStack_def default_project_type_def expected_project_type_def
        foldl_detect_type)
qed

lemma expected_project_type_order:
  assumes "list_all (\<lambda>f. type_signal parse f = None \<or> type_signal parse f = Some v) fs"
    and "set fs' = set fs"
  shows "expected_project_type parse fs' = expected_project_type parse fs"
proof -
  have same: "list_ex (\<lambda>f. is_js_source f \<or> is_python_source f) fs'
      = list_ex (\<lambda>f. is_js_source f \<or> is_python_source f) fs"
    using assms(2) by (simp add: list_ex_iff)
  have sigs: "set (List.map_filter (type_signal parse) gs) \<subseteq> {v}
      \<and> (List.map_filter (type_signal parse) gs = []) = (\<forall>f \<in> set fs. type_signal parse f = None)"
    if "set gs = set fs" for gs
    using assms(1) that
    by (auto simp: List.map_filter_def list_all_iff filter_empty_conv)
  have val: "expected_project_type parse gs =
      (if \<forall>f \<in> set fs. type_signal parse f = None
       then (if list_ex (\<lambda>f. is_js_source f \<or> is_python_source f) gs then ''cli-tool'' else ''other'')
       else v)"
    if g: "set gs = set fs" for gs
  proof (cases "List.map_filter (type_signal parse) gs")
    case Nil
    with sigs [OF g] show ?thesis
      by (simp add: expected_project_type_def)
  next
    case (Cons x xs)
    then have "last (x # xs) \<in> set (List.map_filter (type_signal parse) gs)"
      by (metis last_in_set list.distinct(1))
    with sigs [OF g] have "last (x # xs) = v" by auto
    with Cons sigs [OF g] show ?thesis
      by (auto simp: expected_project_type_def)
  qed
  show ?thesis
    using val [OF assms(2)] val [of fs] same by simp
qed

text \<open>
  Claim C9, as the code has it. A file signals a project type by a framework import in a
  TypeScript, JavaScript or Python source, by a dependency named in \<open>package.json\<close>, by a
  framework named in \<open>requirements.txt\<close>, or by being \<open>Cargo.toml\<close> or \<open>go.mod\<close>. The
  project type detected is the signal of the last file of the list that has one. With
  no signal at all it is \<open>cli-tool\<close> when the list has a TypeScript, JavaScript or Python
  source or a \<open>requirements.txt\<close>, and \<open>other\<close> when it has none. So it does not depend
  on the order of the files when all the signals among them are the same.
\<close>

theorem detectTechStack_project_type:
  "project_type (detectTechStack parse fs) =
     (case List.map_filter (type_signal parse) fs of
        [] \<Rightarrow> if list_ex (\<lambda>f. is_js_source f \<or> is_python_source f) fs then ''cli-tool'' else ''other''
      | v # vs \<Rightarrow> last (v # vs))
   \<and> (list_all (\<lambda>f. type_signal parse f = None \<or> type_signal parse f = Some v) fs
        \<and> set fs' = set fs \<longrightarrow>
        project_type (detectTechStack parse fs') = project_type (detectTechStack parse fs))"
proof (intro conjI impI)
  show "project_type (detectTechStack parse fs) =
     (case List.map_filter (type_signal parse) fs of
        [] \<Rightarrow> if list_ex (\<lambda>f. is_js_source f \<or> is_python_source f) fs then ''cli-tool'' else ''other''
      | v # vs \<Rightarrow> last (v # vs))"
    by (simp only: detectTechStack_expected expected_project_type_def)
next
  assume "list_all (\<lambda>f. type_signal parse f = None \<or> type_signal parse f = Some v) fs
        \<and> set fs' = set fs"
  then show "project_type (detectTechStack parse fs') = project_type (detectTechStack parse fs)"
    using expected_project_type_order [of parse v fs fs']
    by (simp only: detectTechStack_expected)
qed

lemma parse0_express:
  "parse0 package_json_express = Some (JObj [(''dependencies'', JObj [(''express'', JStr ''4'')])])"
  by (simp add: parse0_def)

lemma signal_express:
  "type_signal parse0 (''package.json'', package_json_express) = Some ''api-service''"
  by (simp add: type_signal_def script_signal_def python_signal_def package_signal_def
      requirements_signal_def cargo_signal_def go_signal_def depends_on_def is_js_source_def
      file_ext_def parse0_express List.map_filter_simps js_eval)

lemma signal_plain_ts: "type_signal parse0 (''a.ts'', ''let x'') = None"
  by (simp add: type_signal_def script_signal_def python_signal_def package_signal_def
      requirements_signal_def cargo_signal_def go_signal_def mentions_def is_js_source_def
      file_ext_def List.map_filter_simps js_eval)

lemma signal_react: "type_signal parse0 (''App.tsx'', ''import React'') = Some ''web-app''"
  by (simp add: type_signal_def script_signal_def python_signal_def package_signal_def
      requirements_signal_def cargo_signal_def go_signal_def mentions_def is_js_source_def
      file_ext_def List.map_filter_simps js_eval)

lemma source_plain_ts: "is_js_source (''a.ts'', ''let x'')"
  by (simp add: is_js_source_def file_ext_def js_eval)

theorem detectTechStack_project_type_witness:
  "type_signal parse0 (''package.json'', package_json_express) = Some ''api-service''
   \<and> type_signal parse0 (''a.ts'', ''let x'') = None
   \<and> is_js_source (''a.ts'', ''let x'')
   \<and> list_all (\<lambda>f. type_signal parse0 f = None \<or> type_signal parse0 f = Some ''api-service'')
        [(''package.json'', package_json_express), (''a.ts'', ''let x'')]
   \<and> set [(''a.ts'', ''let x''), (''package.json'', package_json_express)]
       = set [(''package.json'', package_json_express), (''a.ts'', ''let x'')]
   \<and> project_type (detectTechStack parse0
         [(''package.json'', package_json_express), (''a.ts'', ''let x'')]) = ''api-service''
   \<and> project_type (detectTechStack parse0
         [(''a.ts'', ''let x''), (''package.json'', package_json_express)]) = ''api-service''
   \<and> project_type (detectTechStack parse0 [(''a.ts'', ''let x'')]) = ''cli-tool''
   \<and> project_type (detectTechStack parse0 []) = ''other''"
proof -
  let ?p = "(''package.json'', package_json_express)"
  let ?a = "(''a.ts'', ''let x'')"
  have same: "list_all (\<lambda>f. type_signal parse0 f = None \<or> type_signal parse0 f = Some ''api-service'')
        [?p, ?a]"
    by (simp add: signal_express signal_plain_ts)
  have 1: "project_type (detectTechStack parse0 [?p, ?a]) = ''api-service''"
    using detectTechStack_project_type [of parse0 "[?p, ?a]"]
    by (simp add: signal_express signal_plain_ts List.map_filter_simps)
  have "project_type (detectTechStack parse0 [?a, ?p]) = project_type (detectTechStack parse0 [?p, ?a])"
    using detectTechStack_project_type [of parse0 "[?p, ?a]" "''api-service''" "[?a, ?p]"] same
    by auto
  with 1 have 2: "project_type (detectTechStack parse0 [?a, ?p]) = ''api-service''"
    by simp
  have 3: "project_type (detectTechStack parse0 [?a]) = ''cli-tool''"
    using detectTechStack_project_type [of parse0 "[?a]"]
    by (simp add: signal_plain_ts source_plain_ts List.map_filter_simps)
  have 4: "project_type (detectTechStack parse0 []) = ''other''"
    using detectTechStack_project_type [of parse0 "[]"]
    by (simp add: List.map_filter_simps)
  have 5: "set [?a, ?p] = set [?p, ?a]"
    by auto
  from same 1 2 3 4 5 show ?thesis
    by (simp add: signal_express signal_plain_ts source_plain_ts)
qed

text \<open>
  The claim as written fails: a \<open>package.json\<close> with the dependency \<open>express\<close> and a
  source file importing React give \<open>web-app\<close> in one order and \<open>api-service\<close> in the
  other.
\<close>

theorem detectTechStack_order_counterexample:
  "project_type (detectTechStack parse0
      [(''package.json'', package_json_express), (''App.tsx'', ''import React'')]) = ''web-app''
   \<and> project_type (detectTechStack parse0
      [(''App.tsx'', ''import React''), (''package.json'', package_json_express)]) = ''api-service''"
  by (simp add: detectTechStack_expected expected_project_type_def signal_express signal_react
      List.map_filter_simps)

section \<open>Resuming and listing\<close>

lemma user_sessions_filter:
  "filter (\<lambda>s. s_user_id s = a \<and> P s) (sessions d) = filter P (user_sessions a d)"
  by (simp add: user_sessions_def conj_commute)

lemma user_sessions_owned: "s \<in> set (user_sessions a d) \<Longrightarrow> owned_by a d (s_id s)"
  by (auto simp: user_sessions_def owned_by_def list_ex_iff)

lemma user_files_filter:
  assumes "owned_by a d sid"
  shows "filter (\<lambda>f. f_session_id f = sid \<and> P f) (files d)
         = filter (\<lambda>f. f_session_id f = sid \<and> P f) (user_files a d)"
  using assms unfolding user_files_def owned_by_def filter_filter
  by (intro filter_cong) auto

lemma session_paths_view:
  assumes "owned_by a d sid"
  shows "session_paths d sid =
     (case map f_path (filter (\<lambda>f. f_session_id f = sid) (user_files a d)) of
        [] \<Rightarrow> None
      | ps \<Rightarrow> Some (sort (remdups ps)))"
  using user_files_filter [OF assms, of "\<lambda>f. True"] by (simp add: session_paths_def)

lemma session_paths_eq:
  assumes "user_view a d' = user_view a d" and "s \<in> set (user_sessions a d)"
  shows "session_paths d' (s_id s) = session_paths d (s_id s)"
proof -
  from assms have "s \<in> set (user_sessions a d')"
    by (simp add: user_view_def)
  then have "owned_by a d' (s_id s)" by (rule user_sessions_owned)
  moreover from assms(2) have "owned_by a d (s_id s)" by (rule user_sessions_owned)
  ultimately show ?thesis
    using assms(1) by (simp add: session_paths_view user_view_def)
qed

lemma match_rows_eq:
  "(\<And>s. s \<in> set rows \<Longrightarrow> session_paths d' (s_id s) = session_paths d (s_id s)) \<Longrightarrow>
   match_rows d' rows = match_rows d rows"
proof (induction rows)
  case Nil
  show ?case by simp
next
  case (Cons s rows)
  then have "match_rows d' rows = match_rows d rows" by simp
  moreover have "session_paths d' (s_id s) = session_paths d (s_id s)"
    using Cons.prems by simp
  ultimately show ?case by (simp split: option.splits)
qed

lemma listed_rows_eq:
  "(\<And>s. s \<in> set rows \<Longrightarrow> session_paths d' (s_id s) = session_paths d (s_id s)) \<Longrightarrow>
   listed_rows d' rows = listed_rows d rows"
proof (induction rows)
  case Nil
  show ?case by simp
next
  case (Cons s rows)
  then have "listed_rows d' rows = listed_rows d rows" by simp
  moreover have "session_paths d' (s_id s) = session_paths d (s_id s)"
    using Cons.prems by simp
  ultimately show ?case by (simp split: option.splits)
qed

lemma match_rows_ids: "match_rows d rows = Inr ms \<Longrightarrow> map am_session_id ms = map s_id rows"
  by (induction rows arbitrary: ms) (auto split: option.splits sum.splits)

lemma listed_rows_ids: "listed_rows d rows = Inr ls \<Longrightarrow> map ls_session_id ls = map s_id rows"
  by (induction rows arbitrary: ls) (auto split: option.splits sum.splits)

lemma exactMatches_view:
  "exactMatches input a d =
     order_desc s_version
       (filter (\<lambda>s. s_name s = r_session_name input
                     \<and> (case r_project_name input of None \<Rightarrow> True | Some p \<Rightarrow> s_project_name s = p))
          (user_sessions a d))"
  by (simp add: exactMatches_def user_sessions_filter)

lemma exactMatches_subset: "set (exactMatches input a d) \<subseteq> set (user_sessions a d)"
  by (auto simp: exactMatches_view order_desc_def)

lemma fuzzy_rows_view:
  "fuzzy_rows input a d =
     take 10 (order_desc s_updated_at
       (filter (\<lambda>s. ilike (s_name s) (contains_pattern (r_session_name input))
                     \<and> (case r_project_name input of
                           None \<Rightarrow> True
                         | Some p \<Rightarrow> if p = [] then True
                                     else ilike (s_project_name s) (contains_pattern p)))
          (user_sessions a d)))"
  by (simp add: fuzzy_rows_def user_sessions_filter)

lemma fuzzy_rows_subset: "set (fuzzy_rows input a d) \<subseteq> set (user_sessions a d)"
  by (auto simp: fuzzy_rows_view order_desc_def dest: in_set_takeD)

lemma fuzzy_rows_bounds:
  "length (fuzzy_rows input a d) \<le> 10"
  by (simp add: fuzzy_rows_def)

lemma user_files_list_ex:
  assumes "owned_by a d sid"
  shows "list_ex (\<lambda>f. f_session_id f = sid \<and> P f) (files d)
         = list_ex (\<lambda>f. f_session_id f = sid \<and> P f) (user_files a d)"
  using assms unfolding user_files_def owned_by_def list_ex_iff by fastforce

lemma list_rows_view:
  "list_rows input a d =
     filter (\<lambda>s. (case l_project_name input of
                        None \<Rightarrow> True
                      | Some p \<Rightarrow> if p = [] then True
                                  else ilike (s_project_name s) (contains_pattern p))
                  \<and> (case l_file_path input of
                        None \<Rightarrow> True
                      | Some fp \<Rightarrow> if fp = [] then True
                                   else list_ex (\<lambda>f. f_session_id f = s_id s
                                                     \<and> ilike (f_path f) (contains_pattern fp))
                                          (user_files a d)))
       (user_sessions a d)"
  unfolding list_rows_def user_sessions_filter
  by (intro filter_cong refl)
    (simp add: user_files_list_ex [OF user_sessions_owned] split: option.splits)

lemma list_rows_subset: "set (list_rows input a d) \<subseteq> set (user_sessions a d)"
  by (auto simp: list_rows_view)

lemma retrieveFullSession_view:
  assumes "user_view a d' = user_view a d" and "s \<in> set (user_sessions a d)"
  shows "retrieveFullSession L (s_id s) fp d' = retrieveFullSession L (s_id s) fp d"
proof -
  from assms have "s \<in> set (user_sessions a d')"
    by (simp add: user_view_def)
  then have "filter (\<lambda>x. s_id x = s_id s) (sessions d') \<noteq> []"
    by (auto simp: user_sessions_def filter_empty_conv)
  moreover from assms(2) have "filter (\<lambda>x. s_id x = s_id s) (sessions d) \<noteq> []"
    by (auto simp: user_sessions_def filter_empty_conv)
  ultimately show ?thesis
    by (simp add: retrieveFullSession_def summaries_query_def split: list.splits)
qed

lemma retrieveFullSession_id:
  "retrieveFullSession L sid fp d = Inr r \<Longrightarrow> ro_session_id r = sid"
  by (auto simp: retrieveFullSession_def full_session_def Let_def filter_eq_Cons_iff
      split: list.splits sum.splits if_splits)

lemma owned_by_unique:
  assumes "owned_by a d sid" and "distinct (map s_id (sessions d))" and "b \<noteq> a"
  shows "\<not> owned_by b d sid"
proof
  assume "owned_by b d sid"
  with assms(1) obtain s s' where "s \<in> set (sessions d)" "s' \<in> set (sessions d)"
    "s_id s = sid" "s_id s' = sid" "s_user_id s = a" "s_user_id s' = b"
    by (auto simp: owned_by_def list_ex_iff)
  with assms(2) have "s = s'"
    by (metis distinct_map inj_on_def)
  with \<open>s_user_id s = a\<close> \<open>s_user_id s' = b\<close> assms(3) show False by simp
qed

lemma resumeSession_view:
  assumes "user_view a d' = user_view a d"
  shows "resumeSession L input (Some a) d' = resumeSession L input (Some a) d"
proof -
  from assms have e: "exactMatches input a d' = exactMatches input a d"
    and f: "fuzzy_rows input a d' = fuzzy_rows input a d"
    by (simp_all add: exactMatches_view fuzzy_rows_view user_view_def)
  show ?thesis
  proof (cases "exactMatches input a d")
    case Nil
    have "match_rows d' (fuzzy_rows input a d) = match_rows d (fuzzy_rows input a d)"
      using fuzzy_rows_subset [of input a d]
      by (intro match_rows_eq session_paths_eq [OF assms]) auto
    with Nil e f show ?thesis
      by (simp add: resumeSession_def fuzzySearchSessions_def)
  next
    case (Cons session others)
    then have "session \<in> set (user_sessions a d)"
      using exactMatches_subset [of input a d] by auto
    with assms have "retrieveFullSession L (s_id session) (r_file_path input) d'
        = retrieveFullSession L (s_id session) (r_file_path input) d"
      by (rule retrieveFullSession_view)
    with Cons e show ?thesis
      by (simp add: resumeSession_def)
  qed
qed

lemma page_of_subset: "set (page_of input rows) \<subseteq> set rows"
  by (auto simp: page_of_def dest: in_set_dropD in_set_takeD split: option.splits)

lemma listSessions_view:
  assumes "user_view a d' = user_view a d"
  shows "listSessions input (Some a) d' = listSessions input (Some a) d"
proof -
  from assms have "user_sessions a d' = user_sessions a d" "user_files a d' = user_files a d"
    by (simp_all add: user_view_def)
  then have l: "list_rows input a d' = list_rows input a d"
    by (simp only: list_rows_view)
  let ?page = "page_of input (order_desc s_updated_at (list_rows input a d))"
  have "set ?page \<subseteq> set (user_sessions a d)"
    using page_of_subset [of input "order_desc s_updated_at (list_rows input a d)"]
      list_rows_subset [of input a d]
    by (auto simp: order_desc_def)
  then have "listed_rows d' ?page = listed_rows d ?page"
    by (intro listed_rows_eq session_paths_eq [OF assms]) auto
  with l show ?thesis
    by (simp add: listSessions_def split: sum.splits)
qed

lemma match_rows_owned:
  assumes "match_rows d rows = Inr ms" and "set rows \<subseteq> set (user_sessions a d)"
  shows "list_all (\<lambda>m. owned_by a d (am_session_id m)) ms"
  unfolding list_all_iff
proof
  fix m
  assume "m \<in> set ms"
  then have "am_session_id m \<in> set (map am_session_id ms)" by simp
  then have "am_session_id m \<in> s_id ` set rows"
    by (simp add: match_rows_ids [OF assms(1)])
  then obtain s where "s \<in> set rows" "s_id s = am_session_id m" by auto
  with assms(2) user_sessions_owned [of s a d] show "owned_by a d (am_session_id m)"
    by auto
qed

lemma listed_rows_owned:
  assumes "listed_rows d rows = Inr ls" and "set rows \<subseteq> set (user_sessions a d)"
  shows "list_all (\<lambda>l. owned_by a d (ls_session_id l)) ls"
  unfolding list_all_iff
proof
  fix l
  assume "l \<in> set ls"
  then have "ls_session_id l \<in> set (map ls_session_id ls)" by simp
  then have "ls_session_id l \<in> s_id ` set rows"
    by (simp add: listed_rows_ids [OF assms(1)])
  then obtain s where "s \<in> set rows" "s_id s = ls_session_id l" by auto
  with assms(2) user_sessions_owned [of s a d] show "owned_by a d (ls_session_id l)"
    by auto
qed

lemma resumeSession_owned:
  "(case resumeSession L input (Some a) d of
      Inl e \<Rightarrow> True
    | Inr (FullSession r) \<Rightarrow> owned_by a d (ro_session_id r)
    | Inr (Matches ms) \<Rightarrow> list_all (\<lambda>m. owned_by a d (am_session_id m)) ms)"
proof (cases "pg_text (r_session_name input) \<and> pg_text_opt (r_project_name input)")
  case False
  then show ?thesis by (auto simp: resumeSession_def)
next
  case ok: True
  show ?thesis
  proof (cases "exactMatches input a d")
  case Nil
  then have r: "resumeSession L input (Some a) d = fuzzySearchSessions input a d"
    by (simp add: resumeSession_def ok)
  show ?thesis
  proof (cases "match_rows d (fuzzy_rows input a d)")
    case (Inl e)
    then show ?thesis by (simp add: r fuzzySearchSessions_def)
  next
    case (Inr ms)
    then have "list_all (\<lambda>m. owned_by a d (am_session_id m)) ms"
      using fuzzy_rows_subset by (rule match_rows_owned)
    with Inr show ?thesis by (simp add: r fuzzySearchSessions_def)
  qed
next
  case (Cons session others)
  then have sub: "set (session # others) \<subseteq> set (user_sessions a d)"
    using exactMatches_subset [of input a d] by simp
  have all: "list_all (\<lambda>m. owned_by a d (am_session_id m)) (map candidate (session # others))"
    unfolding list_all_iff
  proof
    fix m
    assume "m \<in> set (map candidate (session # others))"
    then obtain s where "s \<in> set (session # others)" "m = candidate s" by auto
    with sub user_sessions_owned [of s a d] show "owned_by a d (am_session_id m)"
      by (auto simp: candidate_def)
  qed
  from sub have own: "owned_by a d (s_id session)"
    by (simp add: user_sessions_owned)
  show ?thesis
  proof (cases "1 < length (session # others) \<and> \<not> given (r_project_name input)")
    case True
    with Cons all show ?thesis
      by (simp add: resumeSession_def ok)
  next
    case False
    then have r: "resumeSession L input (Some a) d =
        (case retrieveFullSession L (s_id session) (r_file_path input) d of
           Inl e \<Rightarrow> Inl e | Inr full \<Rightarrow> Inr (FullSession full))"
      using Cons ok by (auto simp: resumeSession_def)
    show ?thesis
    proof (cases "retrieveFullSession L (s_id session) (r_file_path input) d")
      case (Inl e)
      then show ?thesis by (simp add: r)
    next
      case (Inr full)
      with own retrieveFullSession_id [OF Inr] show ?thesis by (simp add: r)
    qed
  qed
qed
qed

lemma listSessions_owned:
  "(case listSessions input (Some a) d of
      Inl e \<Rightarrow> True
    | Inr out \<Rightarrow> list_all (\<lambda>l. owned_by a d (ls_session_id l)) (lo_sessions out))"
proof (cases "pg_text_opt (l_project_name input) \<and> pg_text_opt (l_file_path input)")
  case False
  then show ?thesis by (auto simp: listSessions_def)
next
  case ok: True
  show ?thesis
  proof (cases "listed_rows d (page_of input (order_desc s_updated_at (list_rows input a d)))")
  case (Inl e)
  then show ?thesis by (simp add: listSessions_def ok)
next
  case (Inr ls)
  have "set (page_of input (order_desc s_updated_at (list_rows input a d)))
      \<subseteq> set (user_sessions a d)"
    using page_of_subset [of input "order_desc s_updated_at (list_rows input a d)"]
      list_rows_subset [of input a d]
    by (auto simp: order_desc_def)
  with Inr have "list_all (\<lambda>l. owned_by a d (ls_session_id l)) ls"
    by (rule listed_rows_owned)
  with Inr show ?thesis by (simp add: listSessions_def ok)
qed
qed

text \<open>
  Claim C5. \<open>user_view a d\<close> is what the store holds of user \<open>a\<close>: the sessions of
  \<open>a\<close>, and the files and conversations of those sessions. Two stores with the same
  view for \<open>a\<close> give \<open>a\<close> the same answers from \<open>resumeSession\<close> and \<open>listSessions\<close>,
  whatever else they hold; the rows an exact lookup finds are rows of \<open>a\<close>, and every
  session id in an answer is the id of a session of \<open>a\<close>.
\<close>

theorem user_isolation:
  assumes "user_view a d' = user_view a d"
  shows "resumeSession L input (Some a) d' = resumeSession L input (Some a) d
         \<and> listSessions linput (Some a) d' = listSessions linput (Some a) d
         \<and> list_all (\<lambda>s. s_user_id s = a) (exactMatches input a d)
         \<and> (case resumeSession L input (Some a) d of
               Inl e \<Rightarrow> True
             | Inr (FullSession r) \<Rightarrow> owned_by a d (ro_session_id r)
             | Inr (Matches ms) \<Rightarrow> list_all (\<lambda>m. owned_by a d (am_session_id m)) ms)
         \<and> (case listSessions linput (Some a) d of
               Inl e \<Rightarrow> True
             | Inr out \<Rightarrow> list_all (\<lambda>l. owned_by a d (ls_session_id l)) (lo_sessions out))"
proof -
  have "list_all (\<lambda>s. s_user_id s = a) (exactMatches input a d)"
    using exactMatches_subset [of input a d]
    by (auto simp: list_all_iff user_sessions_def)
  then show ?thesis
    by (rule conjI [OF resumeSession_view [OF assms] conjI [OF listSessions_view [OF assms]
          conjI [OF _ conjI [OF resumeSession_owned listSessions_owned]]]])
qed

lemma view_store3: "user_view 3 store3 = user_view 3 store2"
  by (simp add: user_view_def user_sessions_def user_files_def user_conversations_def
      store2_def store3_def example_session_def example_file_def)

lemma resume_ambiguous:
  "resumeSession lib0 \<lparr>r_session_name = ''bug-fix'', r_project_name = None, r_file_path = None\<rparr>
     (Some 3) store2
   = Inr (Matches [candidate (example_session 20 3 ''proj-a'' 100),
                   candidate (example_session 21 3 ''proj-b'' 110)])"
  by (simp add: resumeSession_def exactMatches_def order_desc_def given_def store2_def
      example_session_def pg_text_def pg_text_opt_def)

lemma list_all_example:
  "(case listSessions \<lparr>l_project_name = None, l_file_path = None, l_limit = None, l_offset = None\<rparr>
           (Some 3) store2 of
      Inl e \<Rightarrow> False
    | Inr out \<Rightarrow> map ls_session_id (lo_sessions out) = [21, 20] \<and> lo_total out = 2)"
  by (simp add: listSessions_def list_rows_def page_of_def order_desc_def session_paths_def
      store2_def example_session_def example_file_def pg_text_opt_def)

theorem user_isolation_witness:
  "user_view 3 store3 = user_view 3 store2
   \<and> resumeSession lib0
        \<lparr>r_session_name = ''bug-fix'', r_project_name = None, r_file_path = None\<rparr> (Some 3) store3
      = Inr (Matches [candidate (example_session 20 3 ''proj-a'' 100),
                      candidate (example_session 21 3 ''proj-b'' 110)])
   \<and> (case listSessions
              \<lparr>l_project_name = None, l_file_path = None, l_limit = None, l_offset = None\<rparr>
              (Some 3) store3 of
         Inl e \<Rightarrow> False
       | Inr out \<Rightarrow> map ls_session_id (lo_sessions out) = [21, 20] \<and> lo_total out = 2)
   \<and> list_all (\<lambda>m. owned_by 3 store2 (am_session_id m))
        [candidate (example_session 20 3 ''proj-a'' 100),
         candidate (example_session 21 3 ''proj-b'' 110)]"
  using user_isolation [OF view_store3, of lib0
      "\<lparr>r_session_name = ''bug-fix'', r_project_name = None, r_file_path = None\<rparr>"
      "\<lparr>l_project_name = None, l_file_path = None, l_limit = None, l_offset = None\<rparr>"]
    list_all_example
  by (simp add: view_store3 resume_ambiguous)

lemma resumeSession_hydration_fails:
  assumes "exactMatches input u d = session # others"
    and "others = [] \<or> given (r_project_name input)"
    and "pg_text (r_session_name input)" and "pg_text_opt (r_project_name input)"
    and "pg_text_opt (r_file_path input)"
  shows "resumeSession L input (Some u) d = Inl (DbError ''column fs.file_id does not exist'')"
proof -
  have "session \<in> set (exactMatches input u d)"
    by (simp add: assms(1))
  then have "session \<in> set (sessions d)"
    by (auto simp: exactMatches_def order_desc_def)
  then have "filter (\<lambda>s. s_id s = s_id session) (sessions d) \<noteq> []"
    by (auto simp: filter_empty_conv)
  then have "retrieveFullSession L (s_id session) (r_file_path input) d
      = Inl (DbError ''column fs.file_id does not exist'')"
    using assms(5) by (simp add: retrieveFullSession_def summaries_query_def split: list.splits)
  with assms show ?thesis
    by (auto simp: resumeSession_def)
qed

lemma ilike_underscore: "ilike ''bug-fix'' (contains_pattern ''bug_fix'')"
  by (simp add: ilike_def contains_pattern_def js_eval)

text \<open>
  Claim C4. With the sessions \<open>(bug-fix, proj-a)\<close> and \<open>(bug-fix, proj-b)\<close> of user 3 in
  the store, resuming \<open>bug-fix\<close> with no project returns the two candidates. Resuming
  \<open>bug-fix\<close> of \<open>proj-a\<close> finds exactly one row, and then \<open>retrieveFullSession\<close> raises
  the error of its summaries query instead of returning the session.
\<close>

theorem resumeSession_exact_match_fails:
  "map s_id (exactMatches
       \<lparr>r_session_name = ''bug-fix'', r_project_name = Some ''proj-a'', r_file_path = None\<rparr>
       3 store2) = [20]
   \<and> resumeSession lib0
        \<lparr>r_session_name = ''bug-fix'', r_project_name = Some ''proj-a'', r_file_path = None\<rparr>
        (Some 3) store2
      = Inl (DbError ''column fs.file_id does not exist'')
   \<and> resumeSession lib0
        \<lparr>r_session_name = ''bug-fix'', r_project_name = None, r_file_path = None\<rparr>
        (Some 3) store2
      = Inr (Matches [candidate (example_session 20 3 ''proj-a'' 100),
                      candidate (example_session 21 3 ''proj-b'' 110)])"
  by (simp add: resumeSession_def exactMatches_def order_desc_def given_def
      retrieveFullSession_def summaries_query_def store2_def example_session_def
      pg_text_def pg_text_opt_def)

end
